(* ===== verification/Prelude.thy ===== *)
theory Prelude
  imports Main "HOL-Library.Word" "HOL-Library.AList"
begin

unbundle bit_operations_syntax

text \<open>
  Shared vocabulary of the development.

  \<^item> Rust integers. Unsigned integers are words of their width: \<open>u8\<close> to \<open>u128\<close>.
    The checked, saturating and overflowing operations of the standard library are
    defined on words of any width and characterised on natural numbers through
    \<open>unat\<close>. Signed 32- and 64-bit values (ticks, bin ids, timestamps) are \<open>int\<close>;
    \<open>usize\<close> lengths and indices are \<open>nat\<close>. A signed 128-bit value is kept as the
    128-bit word that represents it, read through \<open>sint\<close>.
  \<^item> Rust results. \<open>Result<A, E>\<close> is \<open>'e + 'a\<close> with the error on the left; the
    question-mark operator is \<open>bindR\<close>, \<open>Option::ok_or\<close> is \<open>ok_or\<close> and
    \<open>Result::map_err\<close> is \<open>map_err\<close>.
  \<^item> Rust strings are their UTF-8 bytes, a \<open>string\<close>; \<open>s.trim().is_empty()\<close> is
    \<open>trim_is_empty\<close>, which knows every code point with the Unicode property
    \<open>White_Space\<close>.
\<close>

section \<open>Collections of facts\<close>

named_theorems rust_arith \<open>characterisations of the checked operations on natural numbers\<close>
named_theorems result_iff \<open>when a composed result is a success or a given error\<close>

section \<open>Rust integers\<close>

type_synonym u8 = "8 word"
type_synonym u16 = "16 word"
type_synonym u32 = "32 word"
type_synonym u64 = "64 word"
type_synonym u128 = "128 word"
type_synonym usize = nat
type_synonym i32 = int
type_synonym i64 = int
type_synonym i128 = "128 word"

definition checked_add :: "'a::len word \<Rightarrow> 'a word \<Rightarrow> 'a word option" where
  "checked_add a b = (if unat a + unat b < 2 ^ LENGTH('a) then Some (a + b) else None)"

definition checked_sub :: "'a::len word \<Rightarrow> 'a word \<Rightarrow> 'a word option" where
  "checked_sub a b = (if unat b \<le> unat a then Some (a - b) else None)"

definition checked_mul :: "'a::len word \<Rightarrow> 'a word \<Rightarrow> 'a word option" where
  "checked_mul a b = (if unat a * unat b < 2 ^ LENGTH('a) then Some (a * b) else None)"

definition checked_pow :: "'a::len word \<Rightarrow> nat \<Rightarrow> 'a word option" where
  "checked_pow a n = (if unat a ^ n < 2 ^ LENGTH('a) then Some (a ^ n) else None)"

definition saturating_add :: "'a::len word \<Rightarrow> 'a word \<Rightarrow> 'a word" where
  "saturating_add a b = (if unat a + unat b < 2 ^ LENGTH('a) then a + b else - 1)"

definition saturating_sub :: "'a::len word \<Rightarrow> 'a word \<Rightarrow> 'a word" where
  "saturating_sub a b = (if unat b \<le> unat a then a - b else 0)"

definition saturating_mul :: "'a::len word \<Rightarrow> 'a word \<Rightarrow> 'a word" where
  "saturating_mul a b = (if unat a * unat b < 2 ^ LENGTH('a) then a * b else - 1)"

definition overflowing_add :: "'a::len word \<Rightarrow> 'a word \<Rightarrow> 'a word \<times> bool" where
  "overflowing_add a b = (a + b, 2 ^ LENGTH('a) \<le> unat a + unat b)"

definition overflowing_sub :: "'a::len word \<Rightarrow> 'a word \<Rightarrow> 'a word \<times> bool" where
  "overflowing_sub a b = (a - b, unat a < unat b)"

lemma unat_bound: "unat (a :: 'a::len word) < 2 ^ LENGTH('a)"
  by (rule unsigned_less)

lemma u128_bound: "unat (a :: u128) < 2 ^ 128"
  using unat_bound [of a] by simp

lemma unat_add_no_overflow:
  "unat a + unat b < 2 ^ LENGTH('a) \<Longrightarrow> unat (a + b) = unat a + unat (b :: 'a::len word)"
  by (simp add: unat_word_ariths)

lemma unat_sub_no_underflow:
  "unat b \<le> unat a \<Longrightarrow> unat (a - b) = unat a - unat (b :: 'a::len word)"
  by (simp add: unat_sub word_le_nat_alt)

lemma unat_mult_no_overflow:
  "unat a * unat b < 2 ^ LENGTH('a) \<Longrightarrow> unat (a * b) = unat a * unat (b :: 'a::len word)"
  by (simp add: unat_word_ariths)

lemma unat_power_no_overflow:
  "unat a ^ n < 2 ^ LENGTH('a) \<Longrightarrow> unat (a ^ n) = unat (a :: 'a::len word) ^ n"
proof -
  assume bound: "unat a ^ n < 2 ^ LENGTH('a)"
  have "a ^ n = of_nat (unat a ^ n)" by simp
  then have "unat (a ^ n) = unat a ^ n mod 2 ^ LENGTH('a)"
    by (metis unat_of_nat)
  with bound show ?thesis by simp
qed

lemma unat_of_nat_bound: "n < 2 ^ LENGTH('a) \<Longrightarrow> unat (of_nat n :: 'a::len word) = n"
  by (simp add: unat_of_nat)

lemma checked_add_Some_iff [rust_arith]:
  "checked_add a b = Some c \<longleftrightarrow> unat c = unat a + unat (b :: 'a::len word)"
proof
  assume "checked_add a b = Some c"
  then show "unat c = unat a + unat b"
    by (auto simp: checked_add_def unat_add_no_overflow split: if_splits)
next
  assume eq: "unat c = unat a + unat b"
  with unat_bound [of c] have "unat a + unat b < 2 ^ LENGTH('a)" by simp
  with eq show "checked_add a b = Some c"
    by (simp add: checked_add_def word_unat_eq_iff unat_add_no_overflow)
qed

lemma checked_add_None_iff [rust_arith]:
  "checked_add a b = None \<longleftrightarrow> 2 ^ LENGTH('a) \<le> unat a + unat (b :: 'a::len word)"
  by (auto simp: checked_add_def)

lemma checked_sub_Some_iff [rust_arith]:
  "checked_sub a b = Some c \<longleftrightarrow> unat a = unat b + unat (c :: 'a::len word)"
proof
  assume "checked_sub a b = Some c"
  then show "unat a = unat b + unat c"
    by (auto simp: checked_sub_def unat_sub_no_underflow split: if_splits)
next
  assume eq: "unat a = unat b + unat c"
  then have "unat (a - b) = unat c" by (simp add: unat_sub_no_underflow)
  then have "a - b = c" by (simp add: word_unat_eq_iff)
  with eq show "checked_sub a b = Some c"
    by (simp add: checked_sub_def)
qed

lemma checked_sub_None_iff [rust_arith]:
  "checked_sub a b = None \<longleftrightarrow> unat a < unat (b :: 'a::len word)"
  by (auto simp: checked_sub_def)

lemma checked_mul_Some_iff [rust_arith]:
  "checked_mul a b = Some c \<longleftrightarrow> unat c = unat a * unat (b :: 'a::len word)"
proof
  assume "checked_mul a b = Some c"
  then show "unat c = unat a * unat b"
    by (auto simp: checked_mul_def unat_mult_no_overflow split: if_splits)
next
  assume eq: "unat c = unat a * unat b"
  with unat_bound [of c] have "unat a * unat b < 2 ^ LENGTH('a)" by simp
  with eq show "checked_mul a b = Some c"
    by (simp add: checked_mul_def word_unat_eq_iff unat_mult_no_overflow)
qed

lemma checked_mul_None_iff [rust_arith]:
  "checked_mul a b = None \<longleftrightarrow> 2 ^ LENGTH('a) \<le> unat a * unat (b :: 'a::len word)"
  by (auto simp: checked_mul_def)

lemma checked_pow_Some_iff [rust_arith]:
  "checked_pow a n = Some c \<longleftrightarrow> unat c = unat (a :: 'a::len word) ^ n"
proof
  assume "checked_pow a n = Some c"
  then show "unat c = unat a ^ n"
    by (auto simp: checked_pow_def unat_power_no_overflow simp del: of_nat_power split: if_splits)
next
  assume eq: "unat c = unat a ^ n"
  with unat_bound [of c] have "unat a ^ n < 2 ^ LENGTH('a)" by simp
  with eq show "checked_pow a n = Some c"
    by (simp add: checked_pow_def word_unat_eq_iff unat_power_no_overflow)
qed

lemma checked_pow_None_iff [rust_arith]:
  "checked_pow a n = None \<longleftrightarrow> 2 ^ LENGTH('a) \<le> unat (a :: 'a::len word) ^ n"
  by (auto simp: checked_pow_def)

lemma unat_max_word: "unat (- 1 :: 'a::len word) = 2 ^ LENGTH('a) - 1"
  by (simp add: unsigned_minus_1_eq_mask mask_eq_exp_minus_1)

lemma unat_saturating_add [rust_arith]:
  "unat (saturating_add a b) = min (unat a + unat b) (2 ^ LENGTH('a) - 1)"
  for a b :: "'a::len word"
  by (auto simp: saturating_add_def unat_add_no_overflow unat_max_word)

lemma unat_saturating_sub [rust_arith]:
  "unat (saturating_sub a b) = unat a - unat b" for a b :: "'a::len word"
  by (auto simp: saturating_sub_def unat_sub_no_underflow)

lemma unat_saturating_mul [rust_arith]:
  "unat (saturating_mul a b) = min (unat a * unat b) (2 ^ LENGTH('a) - 1)"
  for a b :: "'a::len word"
  by (auto simp: saturating_mul_def unat_mult_no_overflow unat_max_word)

text \<open>The signed readings: \<open>x as i32\<close>, the remainder \<open>%\<close> (it has the sign of the
  dividend) and \<open>i128::unsigned_abs\<close>.\<close>

definition as_i32 :: "u32 \<Rightarrow> i32" where
  "as_i32 w = sint w"

definition rust_rem :: "int \<Rightarrow> int \<Rightarrow> int" where
  "rust_rem a b = sgn a * (\<bar>a\<bar> mod \<bar>b\<bar>)"

definition unsigned_abs :: "i128 \<Rightarrow> u128" where
  "unsigned_abs w = (if sint w < 0 then - w else w)"

lemma rust_rem_eq_0_iff: "rust_rem a b = 0 \<longleftrightarrow> b dvd a"
  by (auto simp: rust_rem_def sgn_0_0 dvd_eq_mod_eq_0 [symmetric])

text \<open>Shifts, narrowing casts and disjoint bitwise sums, read on natural numbers.\<close>

lemma unat_drop_bit: "unat (drop_bit n w) = unat (w :: 'a::len word) div 2 ^ n"
  by (subst unat_drop_bit_eq) (simp only: drop_bit_eq_div)

lemma unat_push_bit:
  "unat (push_bit n w) = (unat (w :: 'a::len word) * 2 ^ n) mod 2 ^ LENGTH('a)"
  by (subst unsigned_push_bit_eq) (simp only: push_bit_eq_mult take_bit_eq_mod)

lemma unat_narrow: "unat (ucast (w :: 'a::len word) :: 'b::len word) = unat w mod 2 ^ LENGTH('b)"
  by (simp add: unsigned_ucast_eq take_bit_eq_mod)

lemma unat_or_disjoint:
  assumes "2 ^ n dvd unat a" and "unat b < 2 ^ n"
  shows "unat (a OR b) = unat a + unat (b :: 'a::len word)"
proof -
  obtain k where k: "unat a = 2 ^ n * k" using assms(1) by blast
  have "unat b = take_bit n (unat b)" using assms(2) by (simp add: take_bit_eq_mod)
  moreover have "unat a = push_bit n k" by (simp add: k push_bit_eq_mult)
  ultimately have "unat a AND unat b = 0"
    by (metis (no_types, lifting) bit.conj_zero_right bit_and_iff bit_eqI bit_push_bit_iff_nat bit_take_bit_iff linorder_not_le zero_and_eq bit_0_eq bot_apply bot_bool_def)
  then have "unat a + unat b = unat a OR unat b" by (rule disjunctive_add_eq_or)
  then show ?thesis by (simp add: unsigned_or_eq)
qed

section \<open>Rust results and options\<close>

definition bindR :: "'e + 'a \<Rightarrow> ('a \<Rightarrow> 'e + 'b) \<Rightarrow> 'e + 'b" where
  "bindR m f = (case m of Inl e \<Rightarrow> Inl e | Inr x \<Rightarrow> f x)"

definition ok_or :: "'e \<Rightarrow> 'a option \<Rightarrow> 'e + 'a" where
  "ok_or e m = (case m of None \<Rightarrow> Inl e | Some x \<Rightarrow> Inr x)"

definition map_err :: "('e \<Rightarrow> 'f) \<Rightarrow> 'e + 'a \<Rightarrow> 'f + 'a" where
  "map_err f m = (case m of Inl e \<Rightarrow> Inl (f e) | Inr x \<Rightarrow> Inr x)"

definition is_ok :: "'e + 'a \<Rightarrow> bool" where
  "is_ok m \<longleftrightarrow> (case m of Inl e \<Rightarrow> False | Inr x \<Rightarrow> True)"

lemma bindR_simps [simp]:
  "bindR (Inl e) f = Inl e"
  "bindR (Inr x) f = f x"
  by (simp_all add: bindR_def)

lemma ok_or_simps [simp]:
  "ok_or e None = Inl e"
  "ok_or e (Some x) = Inr x"
  by (simp_all add: ok_or_def)

lemma map_err_simps [simp]:
  "map_err g (Inl e) = Inl (g e)"
  "map_err g (Inr x) = Inr x"
  by (simp_all add: map_err_def)

lemma is_ok_simps [simp]:
  "\<not> is_ok (Inl e)"
  "is_ok (Inr x)"
  by (simp_all add: is_ok_def)

lemma is_ok_iff: "is_ok m \<longleftrightarrow> (\<exists>x. m = Inr x)"
  by (cases m) simp_all

lemma bindR_Inr_iff [result_iff]:
  "bindR m f = Inr y \<longleftrightarrow> (\<exists>x. m = Inr x \<and> f x = Inr y)"
  by (cases m) simp_all

lemma bindR_Inl_iff [result_iff]:
  "bindR m f = Inl e \<longleftrightarrow> m = Inl e \<or> (\<exists>x. m = Inr x \<and> f x = Inl e)"
  by (cases m) simp_all

lemma ok_or_Inr_iff [result_iff]: "ok_or e m = Inr x \<longleftrightarrow> m = Some x"
  by (cases m) simp_all

lemma ok_or_Inl_iff [result_iff]: "ok_or e m = Inl e' \<longleftrightarrow> m = None \<and> e' = e"
  by (cases m) auto

lemma map_err_Inr_iff [result_iff]: "map_err g m = Inr x \<longleftrightarrow> m = Inr x"
  by (cases m) simp_all

lemma map_err_Inl_iff [result_iff]: "map_err g m = Inl e' \<longleftrightarrow> (\<exists>e. m = Inl e \<and> e' = g e)"
  by (cases m) auto

lemma if_Inl_Inr_iff [result_iff]:
  "(if c then Inl e else m) = Inr x \<longleftrightarrow> \<not> c \<and> m = Inr x"
  by simp

text \<open>Every error of a result satisfies a predicate.\<close>

definition fails_only :: "('e \<Rightarrow> bool) \<Rightarrow> 'e + 'a \<Rightarrow> bool" where
  "fails_only P m \<longleftrightarrow> (case m of Inl e \<Rightarrow> P e | Inr _ \<Rightarrow> True)"

lemma fails_onlyD: "fails_only P m \<Longrightarrow> m = Inl e \<Longrightarrow> P e"
  by (simp add: fails_only_def)

lemma fails_only_basic [simp]: "fails_only P (Inr x)" "fails_only P (Inl e) \<longleftrightarrow> P e"
  by (simp_all add: fails_only_def)

lemma fails_only_ok_or [simp]: "fails_only P (ok_or e m) \<longleftrightarrow> m = None \<longrightarrow> P e"
  by (cases m) simp_all

lemma fails_only_bindR [intro]:
  "fails_only P m \<Longrightarrow> (\<And>x. m = Inr x \<Longrightarrow> fails_only P (f x)) \<Longrightarrow> fails_only P (bindR m f)"
  by (cases m) simp_all

lemma fails_only_prod [intro]:
  "(\<And>a b. x = (a, b) \<Longrightarrow> fails_only P (f a b)) \<Longrightarrow> fails_only P (case x of (a, b) \<Rightarrow> f a b)"
  by (cases x) simp

lemma fails_only_if [intro]:
  "(c \<Longrightarrow> fails_only P m) \<Longrightarrow> (\<not> c \<Longrightarrow> fails_only P m') \<Longrightarrow> fails_only P (if c then m else m')"
  by simp

lemmas fails_only_intros = fails_only_bindR fails_only_prod fails_only_if

section \<open>Vectors\<close>

text \<open>\<open>iter().position(p)\<close>, \<open>Vec::insert\<close> and \<open>Vec::remove\<close> at an index inside the vector.\<close>

fun position :: "('a \<Rightarrow> bool) \<Rightarrow> 'a list \<Rightarrow> nat option" where
  "position p [] = None"
| "position p (x # xs) = (if p x then Some 0 else map_option Suc (position p xs))"

definition vec_insert :: "nat \<Rightarrow> 'a \<Rightarrow> 'a list \<Rightarrow> 'a list" where
  "vec_insert i x xs = take i xs @ x # drop i xs"

definition vec_remove :: "nat \<Rightarrow> 'a list \<Rightarrow> 'a list" where
  "vec_remove i xs = take i xs @ drop (Suc i) xs"

lemma position_None_iff: "position p xs = None \<longleftrightarrow> (\<forall>x\<in>set xs. \<not> p x)"
  by (induction xs) auto

lemma position_SomeD:
  "position p xs = Some i \<Longrightarrow> i < length xs \<and> p (xs ! i) \<and> (\<forall>j<i. \<not> p (xs ! j))"
  by (induction xs arbitrary: i) (auto simp: less_Suc_eq_0_disj split: if_splits)

section \<open>Comparison\<close>

text \<open>\<open>std::cmp::Ordering\<close> and the comparison of two values of an ordered type.\<close>

datatype ordering = Less | Equal | Greater

definition cmp :: "'a::linorder \<Rightarrow> 'a \<Rightarrow> ordering" where
  "cmp x y = (if x < y then Less else if x = y then Equal else Greater)"

definition then_with :: "ordering \<Rightarrow> ordering \<Rightarrow> ordering" where
  "then_with o1 o2 = (case o1 of Equal \<Rightarrow> o2 | _ \<Rightarrow> o1)"

lemma cmp_iff [simp]:
  "cmp x y = Less \<longleftrightarrow> x < y"
  "cmp x y = Equal \<longleftrightarrow> x = y"
  "cmp x y = Greater \<longleftrightarrow> y < x"
  by (auto simp: cmp_def)

section \<open>Rust strings\<close>

definition byte :: "char \<Rightarrow> nat" where
  "byte c = of_char c"

text \<open>The code points with the property \<open>White_Space\<close>, by the length of their encoding.\<close>

definition ws1 :: "char \<Rightarrow> bool" where
  "ws1 a \<longleftrightarrow> (9 \<le> byte a \<and> byte a \<le> 13) \<or> byte a = 32"

definition ws2 :: "char \<Rightarrow> char \<Rightarrow> bool" where
  "ws2 a b \<longleftrightarrow> byte a = 0xC2 \<and> (byte b = 0x85 \<or> byte b = 0xA0)"

definition ws3 :: "char \<Rightarrow> char \<Rightarrow> char \<Rightarrow> bool" where
  "ws3 a b c \<longleftrightarrow>
     (byte a = 0xE1 \<and> byte b = 0x9A \<and> byte c = 0x80) \<or>
     (byte a = 0xE2 \<and> byte b = 0x80 \<and>
        ((0x80 \<le> byte c \<and> byte c \<le> 0x8A) \<or> byte c = 0xA8 \<or> byte c = 0xA9 \<or> byte c = 0xAF)) \<or>
     (byte a = 0xE2 \<and> byte b = 0x81 \<and> byte c = 0x9F) \<or>
     (byte a = 0xE3 \<and> byte b = 0x80 \<and> byte c = 0x80)"

text \<open>\<open>s.trim().is_empty()\<close>: every code point of \<open>s\<close> is white space.\<close>

fun trim_is_empty :: "string \<Rightarrow> bool" where
  "trim_is_empty [] = True"
| "trim_is_empty (a # s) =
     (if ws1 a then trim_is_empty s
      else case s of [] \<Rightarrow> False
        | b # s' \<Rightarrow>
            if ws2 a b then trim_is_empty s'
            else case s' of [] \<Rightarrow> False
              | c # s'' \<Rightarrow> ws3 a b c \<and> trim_is_empty s'')"

lemmas ws_defs = ws1_def ws2_def ws3_def byte_def

section \<open>Hash maps\<close>

lemma map_of_update [simp]: "map_of (AList.update k v al) j = (if j = k then Some v else map_of al j)"
  by (simp add: update_conv')

end
