(* ===== verification/Wide_Arith.thy ===== *)
theory Wide_Arith
  imports Prelude
begin

unbundle bit_operations_syntax

text \<open>
  The 256-bit integer kernel of the swap simulators,
  \<open>crates/simulation/src/cpmm.rs\<close>: a 128 by 128 bit multiplication on four 64-bit
  limbs, the comparison of two products, and a restoring division of a 256-bit value
  by a 128-bit one, with floor and with ceiling. The lemmas give each operation its
  meaning on natural numbers.
\<close>

section \<open>Definitions\<close>

text \<open>\<open>u256 hi lo\<close> is the value the pair of words stands for.\<close>

definition u256 :: "u128 \<Rightarrow> u128 \<Rightarrow> nat" where
  "u256 hi lo = unat hi * 2 ^ 128 + unat lo"

definition mul_u128_wide :: "u128 \<Rightarrow> u128 \<Rightarrow> u128 \<times> u128" where
  "mul_u128_wide a b =
     (let a_lo = ucast (ucast a :: u64) :: u128;
          a_hi = drop_bit 64 a;
          b_lo = ucast (ucast b :: u64) :: u128;
          b_hi = drop_bit 64 b;
          p0 = a_lo * b_lo;
          p1 = a_lo * b_hi;
          p2 = a_hi * b_lo;
          p3 = a_hi * b_hi;
          p0_hi = drop_bit 64 p0;
          mid1 = p1 + p0_hi;
          (mid, carry) = overflowing_add mid1 p2;
          lo = (ucast (ucast p0 :: u64) :: u128) OR push_bit 64 (ucast (ucast mid :: u64) :: u128);
          carry_term = (if carry then push_bit 64 1 else 0);
          hi = p3 + drop_bit 64 mid + carry_term
      in (hi, lo))"

definition cmp_u128_products :: "u128 \<Rightarrow> u128 \<Rightarrow> u128 \<Rightarrow> u128 \<Rightarrow> ordering" where
  "cmp_u128_products a b c d =
     (let (hi1, lo1) = mul_u128_wide a b;
          (hi2, lo2) = mul_u128_wide c d
      in then_with (cmp hi1 hi2) (cmp lo1 lo2))"

text \<open>The loop \<open>for i in (0..128).rev()\<close>; the first argument counts the bits left.\<close>

fun div_u256_loop :: "nat \<Rightarrow> u128 \<Rightarrow> u128 \<Rightarrow> u128 \<Rightarrow> u128 \<Rightarrow> u128" where
  "div_u256_loop 0 lo den rem quot = quot"
| "div_u256_loop (Suc i) lo den rem quot =
     (let bit = drop_bit i lo AND 1;
          rem_hi = drop_bit 127 rem;
          rem' = push_bit 1 rem OR bit
      in if rem_hi \<noteq> 0 \<or> den \<le> rem'
         then div_u256_loop i lo den (rem' - den) (quot OR push_bit i 1)
         else div_u256_loop i lo den rem' quot)"

definition div_u256_by_u128_floor :: "u128 \<Rightarrow> u128 \<Rightarrow> u128 \<Rightarrow> u128 option" where
  "div_u256_by_u128_floor hi lo den =
     (if den = 0 then None
      else if den \<le> hi then None
      else if hi = 0 then Some (lo div den)
      else Some (div_u256_loop 128 lo den hi 0))"

definition div_u256_by_u128_ceil :: "u128 \<Rightarrow> u128 \<Rightarrow> u128 \<Rightarrow> u128 option" where
  "div_u256_by_u128_ceil hi lo den =
     (case div_u256_by_u128_floor hi lo den of
        None \<Rightarrow> None
      | Some quot \<Rightarrow>
          (let (product_hi, product_lo) = mul_u128_wide quot den
           in if product_hi \<noteq> hi \<or> product_lo \<noteq> lo then checked_add quot 1
              else Some quot))"

text \<open>
  The numbers the words of \<open>mul_u128_wide\<close> hold: \<open>wide_mid\<close> is the middle sum before
  it wraps, \<open>wide_lo\<close> and \<open>wide_hi\<close> are the two result words.
\<close>

definition limb_lo :: "nat \<Rightarrow> nat" where "limb_lo A = A mod 2 ^ 64"

definition limb_hi :: "nat \<Rightarrow> nat" where "limb_hi A = A div 2 ^ 64"

definition wide_mid :: "nat \<Rightarrow> nat \<Rightarrow> nat" where
  "wide_mid A B = limb_lo A * limb_hi B + limb_hi (limb_lo A * limb_lo B) + limb_hi A * limb_lo B"

definition wide_lo :: "nat \<Rightarrow> nat \<Rightarrow> nat" where
  "wide_lo A B = limb_lo (wide_mid A B mod 2 ^ 128) * 2 ^ 64 + limb_lo (limb_lo A * limb_lo B)"

definition wide_hi :: "nat \<Rightarrow> nat \<Rightarrow> nat" where
  "wide_hi A B = limb_hi A * limb_hi B + limb_hi (wide_mid A B mod 2 ^ 128) +
     (if 2 ^ 128 \<le> wide_mid A B then 2 ^ 64 else 0)"

text \<open>The quotient rounded up, the reference for the ceiling division.\<close>

definition ceil_div :: "nat \<Rightarrow> nat \<Rightarrow> nat" where
  "ceil_div n d = (n + d - 1) div d"

section \<open>Multiplication\<close>

text \<open>
  The identity behind the four partial products, for limbs in any base \<open>x\<close>: the
  middle sum may pass \<open>x\<^sup>2\<close> once, and \<open>c\<close> is what that carry is worth.
\<close>

lemma wide_recombine:
  fixes x A B :: nat
  assumes x: "0 < x" 
  defines "a0 \<equiv> A mod x" and "a1 \<equiv> A div x" and "b0 \<equiv> B mod x" and "b1 \<equiv> B div x"
  defines "p0 \<equiv> a0 * b0"
  defines "M \<equiv> a0 * b1 + p0 div x + a1 * b0"
  defines "m \<equiv> M mod (x * x)"
  defines "c \<equiv> (if x * x \<le> M then x else 0)"
  assumes M: "M < 2 * (x * x)"
  shows "(a1 * b1 + m div x + c) * (x * x) + (m mod x * x + p0 mod x) = A * B"
proof -
  have A: "A = a1 * x + a0" and B: "B = b1 * x + b0"
    by (simp_all add: a0_def a1_def b0_def b1_def)
  have "M = c * x + m"
    using M by (auto simp: c_def m_def le_mod_geq not_le)
  moreover have "m = m div x * x + m mod x" by simp
  ultimately have M': "a0 * b1 + p0 div x + a1 * b0 = c * x + (m div x * x + m mod x)"
    by (simp only: M_def)
  have p0: "a0 * b0 = p0 div x * x + p0 mod x" by (simp add: p0_def)
  have "A * B = a1 * b1 * (x * x) + (a0 * b1 + a1 * b0) * x + a0 * b0"
    by (subst A, subst B) (simp add: algebra_simps)
  also have "\<dots> = a1 * b1 * (x * x) + (a0 * b1 + p0 div x + a1 * b0) * x + p0 mod x"
    by (subst p0) (simp add: algebra_simps)
  also have "\<dots> = (a1 * b1 + m div x + c) * (x * x) + (m mod x * x + p0 mod x)"
    unfolding M' by (simp only: algebra_simps)
  finally show ?thesis by simp
qed

lemma limb_bounds:
  "limb_lo A < 2 ^ 64" "A < 2 ^ 128 \<Longrightarrow> limb_hi A < 2 ^ 64"
  by (simp_all add: limb_lo_def limb_hi_def)

lemma limb_product_bound:
  "x < 2 ^ 64 \<Longrightarrow> y < 2 ^ 64 \<Longrightarrow> x * y + (2 ^ 64 - 1) + (2 ^ 64 - 1) < (2::nat) ^ 128"
proof -
  assume "x < 2 ^ 64" and "y < 2 ^ 64"
  then have "x * y \<le> (2 ^ 64 - 1) * (2 ^ 64 - 1)" by (intro mult_le_mono) simp_all
  then show ?thesis by simp
qed

lemma limb_hi_product: "x < 2 ^ 64 \<Longrightarrow> y < 2 ^ 64 \<Longrightarrow> limb_hi (x * y) \<le> 2 ^ 64 - 1"
  using limb_product_bound [of x y] limb_bounds(2) [of "x * y"] by simp

lemma wide_mid1_bound:
  assumes "A < 2 ^ 128" and "B < 2 ^ 128"
  shows "limb_lo A * limb_hi B + limb_hi (limb_lo A * limb_lo B) < 2 ^ 128"
  using limb_product_bound [OF limb_bounds(1) limb_bounds(2) [OF assms(2)], of A]
    limb_hi_product [OF limb_bounds(1) limb_bounds(1), of A B] by simp

lemma wide_mid_bound:
  assumes "A < 2 ^ 128" and "B < 2 ^ 128"
  shows "wide_mid A B < 2 * 2 ^ 128"
  using wide_mid1_bound [OF assms] limb_product_bound [OF limb_bounds(2) [OF assms(1)] limb_bounds(1), of B]
  by (simp add: wide_mid_def)

lemma wide_value:
  assumes "A < 2 ^ 128" and "B < 2 ^ 128"
  shows "wide_hi A B * 2 ^ 128 + wide_lo A B = A * B"
proof -
  have "(2::nat) ^ 128 = 2 ^ 64 * 2 ^ 64" by (simp only: power_add [symmetric]) simp
  note eq = this
  have "(0::nat) < 2 ^ 64" by simp
  note r = wide_recombine [OF this, of A B]
  show ?thesis
    unfolding wide_hi_def wide_lo_def
    using wide_mid_bound [OF assms] unfolding wide_mid_def limb_lo_def limb_hi_def eq by (rule r)
qed

lemma wide_lo_bound: "wide_lo A B < 2 ^ 128"
proof -
  have "limb_lo x \<le> 2 ^ 64 - 1" for x using limb_bounds(1) [of x] by simp
  then have "limb_lo (wide_mid A B mod 2 ^ 128) * 2 ^ 64 \<le> (2 ^ 64 - 1) * 2 ^ 64"
    by (intro mult_le_mono1)
  with limb_bounds(1) [of "limb_lo A * limb_lo B"] show ?thesis by (simp add: wide_lo_def)
qed

lemma wide_hi_bound:
  assumes "A < 2 ^ 128" and "B < 2 ^ 128"
  shows "wide_hi A B < 2 ^ 128"
proof (rule ccontr)
  assume "\<not> ?thesis"
  then have "2 ^ 128 * 2 ^ 128 \<le> wide_hi A B * 2 ^ 128" by (intro mult_le_mono1) simp
  moreover have "A * B < 2 ^ 128 * 2 ^ 128"
    using assms by (intro mult_strict_mono) simp_all
  ultimately show False using wide_value [OF assms] by linarith
qed

lemma unat_low_half: "unat (ucast (ucast (w :: u128) :: u64) :: u128) = limb_lo (unat w)"
proof -
  have "unat w mod 2 ^ 64 < 2 ^ 128"
    by (rule le_less_trans [OF mod_less_eq_dividend u128_bound])
  then show ?thesis by (simp add: unat_narrow limb_lo_def)
qed

lemma unat_high_half: "unat (drop_bit 64 (w :: u128)) = limb_hi (unat w)"
  by (simp only: unat_drop_bit limb_hi_def)

lemma unat_limb_mult:
  "unat u < 2 ^ 64 \<Longrightarrow> unat v < 2 ^ 64 \<Longrightarrow> unat (u * v) = unat u * unat (v :: u128)"
  using limb_product_bound [of "unat u" "unat v"] by (intro unat_mult_no_overflow) simp

lemma unat_join_halves:
  assumes "unat v < 2 ^ 64" and "unat w < 2 ^ 64"
  shows "unat (w OR push_bit 64 v) = unat v * 2 ^ 64 + unat (w :: u128)"
proof -
  have "unat (push_bit 64 v) = unat v * 2 ^ 64"
    using assms(1) by (simp only: unat_push_bit) simp
  moreover have "w OR push_bit 64 v = push_bit 64 v OR w" by (rule or.commute)
  moreover have "unat (push_bit 64 v OR w) = unat (push_bit 64 v) + unat w"
    using assms(2) calculation(1) by (intro unat_or_disjoint [where n = 64]) simp_all
  ultimately show ?thesis by simp
qed

text \<open>
  Every intermediate sum of the source stays inside its word except the one that
  \<open>overflowing_add\<close> watches, so the two result words are the 256-bit product.
\<close>

lemma mul_u128_wide_words:
  assumes "mul_u128_wide a b = (hi, lo)"
  shows "unat lo = wide_lo (unat a) (unat b)" and "unat hi = wide_hi (unat a) (unat b)"
proof -
  define A B where AB: "A = unat a" "B = unat b"
  have A: "A < 2 ^ 128" and B: "B < 2 ^ 128" by (simp_all only: AB u128_bound)
  define a_lo a_hi b_lo b_hi :: u128 where w: "a_lo = ucast (ucast a :: u64)" "a_hi = drop_bit 64 a"
    "b_lo = ucast (ucast b :: u64)" "b_hi = drop_bit 64 b"
  have uw: "unat a_lo = limb_lo A" "unat a_hi = limb_hi A" "unat b_lo = limb_lo B" "unat b_hi = limb_hi B"
    by (simp_all only: w unat_low_half unat_high_half AB)
  have small: "unat a_lo < 2 ^ 64" "unat a_hi < 2 ^ 64" "unat b_lo < 2 ^ 64" "unat b_hi < 2 ^ 64"
    by (simp_all only: uw limb_bounds A B)
  note p = small [THEN unat_limb_mult, OF small(3)] small [THEN unat_limb_mult, OF small(4)]
  define mid1 mid ct where mid: "mid1 = a_lo * b_hi + drop_bit 64 (a_lo * b_lo)"
    "mid = mid1 + a_hi * b_lo"
    and ct: "ct = (if 2 ^ 128 \<le> unat mid1 + unat (a_hi * b_lo) then push_bit 64 1 else 0 :: u128)"
  have u1: "unat mid1 = limb_lo A * limb_hi B + limb_hi (limb_lo A * limb_lo B)"
    unfolding mid using wide_mid1_bound [OF A B]
    by (subst unat_add_no_overflow) (simp_all only: p uw unat_high_half len_of_numeral_defs, simp_all)
  have us: "unat mid1 + unat (a_hi * b_lo) = wide_mid A B"
    by (simp only: u1 p uw wide_mid_def)
  have um: "unat mid = wide_mid A B mod 2 ^ 128"
    unfolding mid(2) by (subst unat_word_ariths(1)) (simp add: us)
  have uc: "unat ct = (if 2 ^ 128 \<le> wide_mid A B then 2 ^ 64 else 0)"
    unfolding ct us by (simp add: unat_push_bit)
  have eqs: "hi = a_hi * b_hi + drop_bit 64 mid + ct"
    "lo = ucast (ucast (a_lo * b_lo) :: u64) OR push_bit 64 (ucast (ucast mid :: u64))"
    using assms by (simp_all add: mul_u128_wide_def overflowing_add_def Let_def mid ct w)
  show "unat lo = wide_lo (unat a) (unat b)"
    unfolding eqs(2) by (subst unat_join_halves)
      (simp_all only: unat_low_half limb_bounds um p uw wide_lo_def flip: AB)
  have "unat (a_hi * b_hi) + unat (drop_bit 64 mid) + unat ct = wide_hi A B"
    by (simp only: p uw unat_high_half um uc wide_hi_def)
  with wide_hi_bound [OF A B] show "unat hi = wide_hi (unat a) (unat b)"
    unfolding eqs(1) AB [symmetric] by (simp add: unat_add_no_overflow del: unat_drop_bit)
qed

lemma mul_u128_wide_u256: "mul_u128_wide a b = (hi, lo) \<Longrightarrow> u256 hi lo = unat a * unat b"
  using wide_value [OF u128_bound u128_bound, of a b] by (simp only: u256_def mul_u128_wide_words)

section \<open>Division\<close>

lemma u256_inject: "u256 hi lo = u256 hi' lo' \<longleftrightarrow> hi = hi' \<and> lo = lo'"
proof
  assume eq: "u256 hi lo = u256 hi' lo'"
  have "u256 h l div 2 ^ 128 = unat h" "u256 h l mod 2 ^ 128 = unat l" for h l
    using u128_bound [of l] by (simp_all only: u256_def div_mult_self3 mod_mult_self3) simp_all
  with eq show "hi = hi' \<and> lo = lo'" by (metis word_unat_eq_iff)
qed simp

text \<open>One step of the restoring division on natural numbers.\<close>

lemma unat_bit: "unat (drop_bit i (lo :: u128) AND 1) = unat lo div 2 ^ i mod 2"
  by (simp only: and_one_eq unat_mod unat_drop_bit) simp

lemma mod_Suc_power: "(L::nat) mod 2 ^ Suc i = (L div 2 ^ i mod 2) * 2 ^ i + L mod 2 ^ i"
  by (metis add.commute mod_mult2_eq mult.commute power_Suc2)

lemma unat_shift_in:
  assumes "unat b < 2"
  shows "unat (push_bit 1 r OR b) = (2 * unat r) mod 2 ^ 128 + unat (b :: u128)"
proof -
  have "unat (push_bit 1 r) = (2 * unat r) mod 2 ^ 128" 
    by (simp only: unat_push_bit) (simp add: mult.commute)
  moreover have "2 dvd (2 * unat r) mod 2 ^ 128"
    by (intro dvd_mod) simp_all
  ultimately show ?thesis
    using assms by (subst unat_or_disjoint [where n = 1]) simp_all
qed

text \<open>The remainder step: the shifted remainder, one bit longer than a word, loses the
  divisor once whenever it holds it, and the machine step computes just that.\<close>

lemma div_step:
  assumes "unat rem < unat den" and b: "unat b < 2"
  defines "r' \<equiv> push_bit 1 rem OR b" and "R \<equiv> 2 * unat rem + unat b"
  shows "(drop_bit 127 rem \<noteq> 0 \<or> den \<le> r') \<longleftrightarrow> unat den \<le> R"
    and "unat den \<le> R \<Longrightarrow> unat (r' - den) = R - unat (den :: u128)"
    and "R < unat den \<Longrightarrow> unat r' = R"
proof -
  have rem: "unat rem < 2 ^ 128" and den: "unat den < 2 ^ 128" by (rule u128_bound)+
  have hi: "drop_bit 127 rem \<noteq> 0 \<longleftrightarrow> 2 ^ 127 \<le> unat rem"
    by (simp only: unat_eq_0 [symmetric] unat_drop_bit) (simp add: div_eq_0_iff not_less)
  have r': "unat r' = (2 * unat rem) mod 2 ^ 128 + unat b"
    unfolding r'_def by (rule unat_shift_in [OF b])
  show c: "(drop_bit 127 rem \<noteq> 0 \<or> den \<le> r') \<longleftrightarrow> unat den \<le> R"
  proof (cases "2 ^ 127 \<le> unat rem")
    case True
    with hi den show ?thesis by (simp add: R_def)
  next
    case False
    then have "unat r' = R" by (simp add: r' R_def)
    with False hi show ?thesis by (simp add: word_le_nat_alt)
  qed
  show "unat r' = R" if "R < unat den"
    using that den by (simp add: r' R_def)
  show "unat (r' - den) = R - unat den" if ge: "unat den \<le> R"
  proof (cases "2 ^ 127 \<le> unat rem")
    case True
    then have "(2 * unat rem) mod 2 ^ 128 = 2 * unat rem - 2 ^ 128"
      using rem by (simp add: mod_if)
    with r' True have "unat r' = R - 2 ^ 128" by (simp add: R_def)
    moreover from True b rem assms(1) have "2 ^ 128 \<le> R" "R < 2 * unat den" by (simp_all add: R_def)
    ultimately show ?thesis using den
      by (subst unat_sub_if') simp
  next
    case False
    then have "unat r' = R" by (simp add: r' R_def)
    with ge show ?thesis by (simp add: unat_sub_no_underflow)
  qed
qed

lemma unat_set_bit:
  assumes "2 ^ Suc i dvd unat q" and "i < 128"
  shows "unat (q OR push_bit i 1) = unat (q :: u128) + 2 ^ i"
proof -
  have "(2::nat) ^ i < 2 ^ 128" using assms(2) by (intro power_strict_increasing) simp_all
  then have "unat (push_bit i (1 :: u128)) = 2 ^ i"
    by (simp only: unat_push_bit) simp
  with assms show ?thesis by (subst unat_or_disjoint [where n = "Suc i"]) simp_all
qed

lemma div_subtract_once:
  "d \<le> R \<Longrightarrow> 0 < d \<Longrightarrow> (R * k + l) div d = ((R - d) * k + l) div d + (k :: nat)"
proof -
  assume "d \<le> R" and "0 < d"
  moreover from this obtain e where "R = d + e" by (auto simp: le_iff_add)
  ultimately have "R * k + l = (R - d) * k + l + k * d" by (simp add: algebra_simps)
  with \<open>0 < d\<close> show ?thesis by (metis div_mult_self1 less_not_refl add.commute)
qed

lemma div_u256_loop_unat:
  assumes "n \<le> 128" and "unat rem < unat den" and "2 ^ n dvd unat quot"
  shows "unat (div_u256_loop n lo den rem quot)
    = unat quot + (unat rem * 2 ^ n + unat lo mod 2 ^ n) div unat den"
  using assms
proof (induction n arbitrary: rem quot)
  case 0
  then show ?case by simp
next
  case (Suc i)
  define b where b: "b = drop_bit i lo AND 1"
  define r' where r': "r' = push_bit 1 rem OR b"
  define R where R: "R = 2 * unat rem + unat b"
  have b2: "unat b < 2" by (simp add: b unat_bit)
  note step = div_step [OF Suc.prems(2) b2, folded r' R]
  have R2: "R < 2 * unat den" using Suc.prems(2) b2 by (simp add: R)
  have dvd: "2 ^ i dvd unat quot" using Suc.prems(3) by (rule power_le_dvd) simp
  have num: "unat rem * 2 ^ Suc i + unat lo mod 2 ^ Suc i = R * 2 ^ i + unat lo mod 2 ^ i"
    by (simp only: mod_Suc_power R b unat_bit) (simp add: algebra_simps)
  show ?case
  proof (cases "unat den \<le> R")
    case True
    then have "(R * 2 ^ i + unat lo mod 2 ^ i) div unat den
        = (unat (r' - den) * 2 ^ i + unat lo mod 2 ^ i) div unat den + 2 ^ i"
      using div_subtract_once [OF True] Suc.prems(2) by (simp only: step(2) [OF True])
    moreover have "unat (r' - den) < unat den" using R2 True by (simp add: step(2))
    moreover have "2 ^ i dvd unat (quot OR push_bit i 1)"
      using dvd Suc.prems by (subst unat_set_bit) simp_all
    moreover have "unat (quot OR push_bit i 1) = unat quot + 2 ^ i"
      using Suc.prems by (intro unat_set_bit) simp_all
    moreover have "div_u256_loop (Suc i) lo den rem quot
        = div_u256_loop i lo den (r' - den) (quot OR push_bit i 1)"
      using True by (simp only: div_u256_loop.simps Let_def b [symmetric] r' [symmetric] step(1) if_True)
    ultimately show ?thesis
      using Suc.IH [of "r' - den" "quot OR push_bit i 1"] Suc.prems(1) by (simp only: num)
  next
    case False
    then have "div_u256_loop (Suc i) lo den rem quot = div_u256_loop i lo den r' quot"
      by (simp only: div_u256_loop.simps Let_def b [symmetric] r' [symmetric] step(1) if_False)
    with False Suc.IH [of r' quot] Suc.prems(1) step(3) dvd show ?thesis
      by (simp only: num)
  qed
qed

text \<open>The restoring division is the integer quotient, and is absent exactly when that
  quotient does not exist or does not fit a \<open>u128\<close>.\<close>

lemma div_u256_by_u128_floor_unat:
  "hi < den \<Longrightarrow> \<exists>q. div_u256_by_u128_floor hi lo den = Some q \<and> unat q = u256 hi lo div unat den"
proof -
  assume less: "hi < den"
  then have "den \<noteq> 0" "\<not> den \<le> hi" by auto
  moreover have "unat (div_u256_loop 128 lo den hi 0) = u256 hi lo div unat den"
    using div_u256_loop_unat [of 128 hi den 0 lo] less u128_bound [of lo]
    by (simp add: word_less_nat_alt u256_def)
  moreover have "unat (lo div den) = u256 0 lo div unat den"
    by (simp add: u256_def unat_div)
  ultimately show ?thesis by (auto simp: div_u256_by_u128_floor_def)
qed

lemma div_u256_by_u128_floor_Some_iff [rust_arith]:
  "div_u256_by_u128_floor hi lo den = Some q \<longleftrightarrow> hi < den \<and> unat q = u256 hi lo div unat den"
proof (cases "hi < den")
  case True
  then show ?thesis
    using div_u256_by_u128_floor_unat [OF True, of lo] by (auto simp: word_unat_eq_iff)
next
  case False
  then have "den = 0 \<or> den \<le> hi" by (simp add: not_less)
  with False show ?thesis by (auto simp: div_u256_by_u128_floor_def)
qed

lemma div_u256_by_u128_floor_None_iff [rust_arith]:
  "div_u256_by_u128_floor hi lo den = None \<longleftrightarrow> den \<le> hi"
  by (auto simp: div_u256_by_u128_floor_def)

lemma mul_u128_wide_pair: "mul_u128_wide a b = (hi, lo) \<longleftrightarrow> u256 hi lo = unat a * unat b"
  by (metis mul_u128_wide_u256 prod.collapse prod.inject u256_inject)

lemma ceil_div_alt: "0 < d \<Longrightarrow> ceil_div n d = (if d dvd n then n div d else n div d + 1)"
proof -
  assume d: "0 < d"
  have m: "n mod d < d" using d by simp
  have "n + d - 1 = n div d * d + (n mod d + d - 1)" using d by simp
  then have "ceil_div n d = n div d + (n mod d + d - 1) div d"
    unfolding ceil_div_def using d by (metis div_mult_self3 less_not_refl)
  moreover have "(n mod d + d - 1) div d = (if n mod d = 0 then 0 else 1)"
    using d m by (auto intro!: div_nat_eqI)
  ultimately show ?thesis by (simp add: dvd_eq_mod_eq_0)
qed

lemma ceil_div_le_iff: "0 < d \<Longrightarrow> ceil_div n d \<le> k \<longleftrightarrow> n \<le> k * d"
proof -
  assume d: "0 < d"
  have "ceil_div n d \<le> k \<longleftrightarrow> n + d - 1 < Suc k * d"
    using d by (simp add: ceil_div_def div_less_iff_less_mult flip: less_Suc_eq_le del: mult_Suc)
  with d show ?thesis by auto
qed

lemma less_ceil_div_iff: "0 < d \<Longrightarrow> k < ceil_div n d \<longleftrightarrow> k * d < n"
  by (metis ceil_div_le_iff not_le)

lemma ceil_div_mono: "n \<le> m \<Longrightarrow> ceil_div n d \<le> ceil_div m d"
  by (simp add: ceil_div_def div_le_mono)

lemma u256_quotient_bound: "hi < den \<Longrightarrow> u256 hi lo div unat den < 2 ^ 128"
  using div_u256_by_u128_floor_unat [of hi den lo] u128_bound by metis

lemma div_u256_by_u128_ceil_alt:
  assumes "div_u256_by_u128_floor hi lo den = Some q"
  shows "div_u256_by_u128_ceil hi lo den =
    (if unat den dvd u256 hi lo then Some q else checked_add q 1)"
proof -
  have q: "unat q = u256 hi lo div unat den" using assms by (simp only: rust_arith)
  obtain ph pl where p: "mul_u128_wide q den = (ph, pl)" by fastforce
  then have "u256 ph pl = unat q * unat den" by (rule mul_u128_wide_u256)
  then have "(ph = hi \<and> pl = lo) \<longleftrightarrow> unat den dvd u256 hi lo"
    unfolding q u256_inject [symmetric] by (metis dvd_div_mult_self dvd_triv_right)
  then show ?thesis by (auto simp: div_u256_by_u128_ceil_def assms p)
qed

lemma div_u256_by_u128_ceil_Some_iff [rust_arith]:
  "div_u256_by_u128_ceil hi lo den = Some q \<longleftrightarrow> hi < den \<and> unat q = ceil_div (u256 hi lo) (unat den)"
proof (cases "div_u256_by_u128_floor hi lo den")
  case None
  then have "\<not> hi < den" by (simp only: rust_arith not_less)
  with None show ?thesis by (simp add: div_u256_by_u128_ceil_def)
next
  case (Some p)
  then have p: "hi < den" "unat p = u256 hi lo div unat den" by (simp_all only: rust_arith)
  then have "0 < unat den" by (simp add: word_less_nat_alt)
  then show ?thesis
    by (auto simp: div_u256_by_u128_ceil_alt [OF Some] ceil_div_alt p rust_arith word_unat_eq_iff)
qed

lemma u256_cmp:
  "then_with (cmp h1 h2) (cmp l1 l2) = cmp (u256 h1 l1) (u256 h2 l2)"
proof -
  have less: "u256 h l < u256 h' l'" if "h < h'" for h l h' l'
  proof -
    have "u256 h l < (unat h + 1) * 2 ^ 128" using u128_bound [of l] by (simp add: u256_def)
    also have "\<dots> \<le> unat h' * 2 ^ 128" using that by (intro mult_le_mono1) (simp add: word_less_nat_alt)
    also have "\<dots> \<le> u256 h' l'" by (simp add: u256_def)
    finally show ?thesis .
  qed
  have same: "u256 h l < u256 h l' \<longleftrightarrow> l < l'" for h l l'
    by (simp add: u256_def word_less_nat_alt)
  consider "h1 < h2" | "h1 = h2" | "h2 < h1" by (rule linorder_cases)
  then show ?thesis
  proof cases
    case 1
    then show ?thesis using less [OF 1, of l1 l2] by (simp add: cmp_def then_with_def)
  next
    case 2
    then show ?thesis using u256_inject by (simp add: cmp_def then_with_def same)
  next
    case 3
    then show ?thesis using less [OF 3, of l2 l1] by (auto simp: cmp_def then_with_def)
  qed
qed


lemma cmp_u128_products_eq:
  "cmp_u128_products a b c d = cmp (unat a * unat b) (unat c * unat d)"
proof -
  obtain h1 l1 h2 l2 where p: "mul_u128_wide a b = (h1, l1)" "mul_u128_wide c d = (h2, l2)"
    by fastforce
  then show ?thesis
    by (simp add: cmp_u128_products_def u256_cmp mul_u128_wide_u256 [OF p(1)] mul_u128_wide_u256 [OF p(2)])
qed

text \<open>
  The two halves composed, as the simulators call them: a product divided by a
  denominator is the exact quotient, or nothing when that needs more than 128 bits.
\<close>

lemma u256_less_iff: "u256 hi lo < unat den * 2 ^ 128 \<longleftrightarrow> hi < den"
proof -
  have "u256 hi lo < unat den * 2 ^ 128 \<longleftrightarrow> u256 hi lo < u256 den 0" by (simp add: u256_def)
  also have "\<dots> \<longleftrightarrow> cmp (u256 hi lo) (u256 den 0) = Less" by simp
  also have "\<dots> \<longleftrightarrow> hi < den"
    unfolding u256_cmp [symmetric] by (auto simp: then_with_def cmp_def)
  finally show ?thesis .
qed

lemma mul_div_floor_Some_iff [rust_arith]:
  "(case mul_u128_wide a b of (hi, lo) \<Rightarrow> div_u256_by_u128_floor hi lo den) = Some q
    \<longleftrightarrow> den \<noteq> 0 \<and> unat q = unat a * unat b div unat den"
proof -
  obtain hi lo where p: "mul_u128_wide a b = (hi, lo)" by fastforce
  then have v: "u256 hi lo = unat a * unat b" by (rule mul_u128_wide_u256)
  have "hi < den" if "den \<noteq> 0" "unat q = u256 hi lo div unat den"
  proof -
    have "u256 hi lo div unat den < 2 ^ 128" using u128_bound [of q] that(2) by simp
    then have "u256 hi lo < unat den * 2 ^ 128"
      using that(1) by (simp add: div_less_iff_less_mult unat_gt_0 mult.commute)
    then show ?thesis by (simp only: u256_less_iff)
  qed
  then show ?thesis by (auto simp: p rust_arith simp flip: v)
qed

lemma div_u256_by_u128_ceil_fits:
  "div_u256_by_u128_ceil hi lo den = Some q \<longleftrightarrow>
     den \<noteq> 0 \<and> unat q = ceil_div (u256 hi lo) (unat den)"
proof -
  have "hi < den" if "den \<noteq> 0" "unat q = ceil_div (u256 hi lo) (unat den)"
  proof -
    have pos: "0 < unat den" using that(1) by (simp add: unat_gt_0)
    have "u256 hi lo \<le> unat q * unat den" using that(2) ceil_div_le_iff [OF pos] by auto
    also have "\<dots> < unat den * 2 ^ 128" using u128_bound [of q] pos by (simp add: mult.commute)
    finally show ?thesis by (simp only: u256_less_iff)
  qed
  then show ?thesis by (auto simp: div_u256_by_u128_ceil_Some_iff)
qed

lemma mul_div_ceil_Some_iff [rust_arith]:
  "(case mul_u128_wide a b of (hi, lo) \<Rightarrow> div_u256_by_u128_ceil hi lo den) = Some q
    \<longleftrightarrow> den \<noteq> 0 \<and> unat q = ceil_div (unat a * unat b) (unat den)"
proof -
  obtain hi lo where p: "mul_u128_wide a b = (hi, lo)" by fastforce
  then have "u256 hi lo = unat a * unat b" by (rule mul_u128_wide_u256)
  then show ?thesis by (simp add: p div_u256_by_u128_ceil_fits)
qed

section \<open>Properties\<close>

text \<open>C13. \<open>mul_u128_wide\<close> returns the exact 256-bit product of its arguments: no
  partial sum is lost, whatever the operands.\<close>

theorem mul_u128_wide_exact:
  "case mul_u128_wide a b of (hi, lo) \<Rightarrow> unat hi * 2 ^ 128 + unat lo = unat a * unat b"
proof -
  obtain hi lo where "mul_u128_wide a b = (hi, lo)" by fastforce
  with mul_u128_wide_u256 [OF this] show ?thesis by (simp only: u256_def prod.case)
qed

text \<open>C12. The restoring division \<open>div_u256_by_u128_floor\<close> is the integer quotient of the
  256-bit value by the divisor; it is absent exactly for a zero divisor and for a quotient
  that does not fit 128 bits.\<close>

theorem div_u256_by_u128_floor_exact:
  "div_u256_by_u128_floor hi lo den =
     (if den = 0 \<or> 2 ^ 128 \<le> u256 hi lo div unat den then None
      else Some (of_nat (u256 hi lo div unat den)))"
proof (cases "hi < den")
  case True
  then have "den \<noteq> 0" by auto
  with True u256_quotient_bound [OF True, of lo] show ?thesis
    by (simp add: div_u256_by_u128_floor_Some_iff unat_of_nat)
next
  case False
  have "2 ^ 128 \<le> u256 hi lo div unat den" if "den \<noteq> 0"
  proof -
    have "unat den * 2 ^ 128 \<le> u256 hi lo" using False u256_less_iff by (metis not_le)
    with that show ?thesis by (simp add: less_eq_div_iff_mult_less_eq unat_gt_0 mult.commute)
  qed
  moreover have "div_u256_by_u128_floor hi lo den = None"
    using False by (simp only: div_u256_by_u128_floor_None_iff not_less)
  ultimately show ?thesis by auto
qed

text \<open>\<open>div_u256_by_u128_ceil\<close> is the least integer whose multiple of the divisor reaches
  the 256-bit value, absent exactly when the divisor is zero or no 128-bit integer does.\<close>

theorem div_u256_by_u128_ceil_least:
  "div_u256_by_u128_ceil hi lo den = Some q \<longleftrightarrow>
     den \<noteq> 0 \<and> unat q = (LEAST k. u256 hi lo \<le> k * unat den)"
proof (cases "den = 0")
  case True
  then show ?thesis by (simp add: div_u256_by_u128_ceil_fits)
next
  case False
  then have "0 < unat den" by (simp add: unat_gt_0)
  then have "(LEAST k. u256 hi lo \<le> k * unat den) = ceil_div (u256 hi lo) (unat den)"
    by (intro Least_equality) (simp_all add: ceil_div_le_iff [symmetric])
  with False show ?thesis by (simp add: div_u256_by_u128_ceil_fits)
qed

end
