(* ===== verification/Market_Types.thy ===== *)
theory Market_Types
  imports Prelude
begin

text \<open>
  Chain-neutral identities and market primitives: \<open>crates/chain-types/src/lib.rs\<close> and
  \<open>crates/market-types/src/\<close>, files \<open>error.rs\<close>, \<open>primitives.rs\<close> and
  \<open>identity.rs\<close>. The newtypes \<open>AtomicAmount\<close>, \<open>Bps\<close>, \<open>Sequence\<close> and \<open>Version\<close> are
  the word they wrap; their constructors and validators are definitions here.
\<close>

section \<open>Chains and assets\<close>

datatype chain_id =
    Solana
  | Base
  | BnbChain
  | Ethereum
  | RobinhoodAssociated
  | Other string

record asset_id =
  asset_chain :: chain_id
  asset_address :: string

datatype chain_type_error = EmptyChainId | EmptyAssetAddress

definition ensure_custom_chain_id :: "string \<Rightarrow> chain_type_error + unit" where
  "ensure_custom_chain_id value = (if trim_is_empty value then Inl EmptyChainId else Inr ())"

definition ensure_asset_address :: "string \<Rightarrow> chain_type_error + unit" where
  "ensure_asset_address address =
     (if trim_is_empty address then Inl EmptyAssetAddress else Inr ())"

definition chain_validate :: "chain_id \<Rightarrow> chain_type_error + unit" where
  "chain_validate c = (case c of Other value \<Rightarrow> ensure_custom_chain_id value | _ \<Rightarrow> Inr ())"

definition asset_validate :: "asset_id \<Rightarrow> chain_type_error + unit" where
  "asset_validate a =
     bindR (chain_validate (asset_chain a)) (\<lambda>_. ensure_asset_address (asset_address a))"

definition asset_new :: "chain_id \<Rightarrow> string \<Rightarrow> chain_type_error + asset_id" where
  "asset_new chain address =
     (let asset = \<lparr>asset_chain = chain, asset_address = address\<rparr>
      in bindR (asset_validate asset) (\<lambda>_. Inr asset))"

section \<open>Errors\<close>

type_synonym sequence = u64

text \<open>\<open>MarketTypeError\<close>, every variant with its fields in the order of the source.\<close>

datatype (plugins only: size code) market_type_error =
    BpsOutOfRange u16
  | ZeroAmount
  | ZeroPriceNumerator
  | ZeroPriceDenominator
  | ZeroVersion
  | EmptyAddress
  | SameAssetPair
  | ChainMismatch
  | ZeroSequence
  | InvalidSequenceRange u64 u64
  | SequenceGap u64 u64
  | MissingBaselineSnapshot
  | ResyncRequired string
  | TargetMismatch
  | InvalidTimestamp i64
  | PolicyStalenessOutOfRange u64
  | PolicySkewOutOfRange u64
  | NonFinitePrice
  | NegativePrice
  | ZeroPrice
  | NonFiniteQuantity
  | NegativeQuantity
  | ZeroQuantity
  | InvalidCandleWindow i64 i64
  | CandleWindowExceeded u64 u64
  | InvalidCandleBounds string
  | InvalidCandleTimeframe string
  | DepthLevelsExceeded usize usize
  | UnsortedDepthLevels string
  | DuplicateDepthPriceLevel string
  | CrossedOrderBook
  | EmptyDepthLevels
  | DecimalsExceeded u8 u8
  | SamePoolTokens
  | InvalidTickSpacing u32
  | TickOutOfRange i32 i32 i32
  | TickSpacingMismatch i32 u32
  | ClmmTicksExceeded usize usize
  | UnsortedClmmTicks
  | DuplicateClmmTick i32
  | InvalidTickLiquidity i32
  | InvalidBinStep u16
  | BinOutOfRange i32 i32 i32
  | BinsExceeded usize usize
  | UnsortedBins
  | DuplicateBin i32
  | EmptyBin i32
  | BinReserveSideViolation i32 i32
  | PoolKindMismatch string string
  | EmptySourceLabel
  | SourceLabelTooLong usize usize
  | InvalidSourceLabel string
  | SourceChainFamilyMismatch string string
  | SequenceOverlap u64 u64 u64
  | StaleSequence u64 u64
  | DuplicateSequence u64
  | UnsupportedPayloadForTarget string
  | InjectedSourceError string
  | FeedBatchExceeded usize usize
  | ArithmeticOverflow string
  | RetainedWindowsExceeded usize usize
  | WindowAlignmentMismatch i64 u64
  | StaleCandleWindow i64 i64
  | AggregatedBucketsExceeded usize usize
  | ConsumerQueueCapacityExceeded usize usize
  | ConsumerBatchSizeExceeded usize usize
  | InvalidConsumerConfig string
  | UnacknowledgedBatchPending u64
  | InvalidBatchAcknowledgement u64 u64
  | NoPendingBatchToAcknowledge

section \<open>Primitives\<close>

type_synonym atomic_amount = u128
type_synonym bps = u16
type_synonym version = u64

definition BPS_MAX :: u16 where "BPS_MAX = 10000"

definition bps_new :: "u16 \<Rightarrow> market_type_error + bps" where
  "bps_new value = (if BPS_MAX < value then Inl (BpsOutOfRange value) else Inr value)"

definition bps_validate :: "bps \<Rightarrow> market_type_error + unit" where
  "bps_validate b = (if BPS_MAX < b then Inl (BpsOutOfRange b) else Inr ())"

record price_ratio =
  numerator_atomic :: u128
  denominator_atomic :: u128

definition price_ratio_new :: "u128 \<Rightarrow> u128 \<Rightarrow> market_type_error + price_ratio" where
  "price_ratio_new numerator denominator =
     (if numerator = 0 then Inl ZeroPriceNumerator
      else if denominator = 0 then Inl ZeroPriceDenominator
      else Inr \<lparr>numerator_atomic = numerator, denominator_atomic = denominator\<rparr>)"

record asset_amount =
  aa_asset :: asset_id
  aa_amount :: atomic_amount

definition validate_nonzero :: "asset_amount \<Rightarrow> market_type_error + unit" where
  "validate_nonzero a = (if aa_amount a = 0 then Inl ZeroAmount else Inr ())"

definition sequence_next :: "sequence \<Rightarrow> sequence" where
  "sequence_next s = saturating_add s 1"

definition sequence_validate :: "sequence \<Rightarrow> market_type_error + unit" where
  "sequence_validate s = (if s = 0 then Inl ZeroSequence else Inr ())"

definition version_new :: "u64 \<Rightarrow> market_type_error + version" where
  "version_new value = (if value = 0 then Inl ZeroVersion else Inr value)"

section \<open>Identities\<close>

record pool_id =
  pid_chain :: chain_id
  pid_address :: string

definition pool_id_validate :: "pool_id \<Rightarrow> market_type_error + unit" where
  "pool_id_validate p =
     bindR (map_err (\<lambda>_. ChainMismatch) (chain_validate (pid_chain p))) (\<lambda>_.
     if trim_is_empty (pid_address p) then Inl EmptyAddress else Inr ())"

definition pool_id_new :: "chain_id \<Rightarrow> string \<Rightarrow> market_type_error + pool_id" where
  "pool_id_new chain address =
     (let i = \<lparr>pid_chain = chain, pid_address = address\<rparr>
      in bindR (pool_id_validate i) (\<lambda>_. Inr i))"

record instrument_id =
  inst_base :: asset_id
  inst_quote :: asset_id

definition instrument_validate :: "instrument_id \<Rightarrow> market_type_error + unit" where
  "instrument_validate i =
     bindR (map_err (\<lambda>_. EmptyAddress) (asset_validate (inst_base i))) (\<lambda>_.
     bindR (map_err (\<lambda>_. EmptyAddress) (asset_validate (inst_quote i))) (\<lambda>_.
     if asset_chain (inst_base i) \<noteq> asset_chain (inst_quote i) then Inl ChainMismatch
     else if inst_base i = inst_quote i then Inl SameAssetPair
     else Inr ()))"

definition instrument_new :: "asset_id \<Rightarrow> asset_id \<Rightarrow> market_type_error + instrument_id" where
  "instrument_new base quote =
     (let inst = \<lparr>inst_base = base, inst_quote = quote\<rparr>
      in bindR (instrument_validate inst) (\<lambda>_. Inr inst))"

datatype feed_target = FT_Pool pool_id | FT_Instrument instrument_id

definition feed_target_validate :: "feed_target \<Rightarrow> market_type_error + unit" where
  "feed_target_validate t =
     (case t of FT_Pool p \<Rightarrow> pool_id_validate p | FT_Instrument i \<Rightarrow> instrument_validate i)"

definition feed_target_chain :: "feed_target \<Rightarrow> chain_id" where
  "feed_target_chain t =
     (case t of FT_Pool p \<Rightarrow> pid_chain p | FT_Instrument i \<Rightarrow> asset_chain (inst_base i))"

section \<open>Lemmas\<close>

lemma unat_sequence_next: "unat (sequence_next s) = min (unat s + 1) (2 ^ 64 - 1)"
  by (simp add: sequence_next_def unat_saturating_add)

text \<open>\<open>next\<close> is the successor for every sequence number that has a larger one.\<close>

lemma sequence_next_eq_iff:
  "(c :: sequence) < e \<Longrightarrow> s = sequence_next c \<longleftrightarrow> unat s = unat c + 1"
proof -
  assume "c < e"
  then have "unat c + 1 \<le> 2 ^ 64 - 1"
    using unat_bound [of e] by (simp add: word_less_nat_alt)
  then show ?thesis by (auto simp: word_unat_eq_iff unat_sequence_next)
qed

end
