(* ===== verification/Sequencing.thy ===== *)
theory Sequencing
  imports Market_Types
begin

text \<open>
  Sequenced streams and freshness: \<open>crates/market-types/src/sequence.rs\<close> and
  \<open>freshness.rs\<close>. The tracker's methods that take \<open>&mut self\<close> return the updated
  tracker beside their result. Trackers reachable from \<open>new\<close> are described by the
  inductive predicate \<open>tracks\<close>, which also records the delta ranges applied since the
  last accepted snapshot; rule induction over it shows that these ranges are exactly the
  sequence numbers between the baseline and the current sequence.
\<close>

section \<open>Sequence ranges\<close>

datatype sequence_range = SequenceRange (sr_start: sequence) (sr_end: sequence)

definition range_validate :: "sequence_range \<Rightarrow> market_type_error + unit" where
  "range_validate r =
     (if sr_start r = 0 \<or> sr_end r = 0 then Inl ZeroSequence
      else if sr_end r < sr_start r then Inl (InvalidSequenceRange (sr_start r) (sr_end r))
      else Inr ())"

definition range_new :: "sequence \<Rightarrow> sequence \<Rightarrow> market_type_error + sequence_range" where
  "range_new start end' =
     (if start = 0 \<or> end' = 0 then Inl ZeroSequence
      else if end' < start then Inl (InvalidSequenceRange start end')
      else Inr (SequenceRange start end'))"

definition range_point :: "sequence \<Rightarrow> market_type_error + sequence_range" where
  "range_point s = range_new s s"

definition range_len :: "sequence_range \<Rightarrow> u64" where
  "range_len r = sr_end r - sr_start r + 1"

definition range_contains :: "sequence_range \<Rightarrow> sequence \<Rightarrow> bool" where
  "range_contains r s \<longleftrightarrow> sr_start r \<le> s \<and> s \<le> sr_end r"

text \<open>The derived order of ranges is lexicographic.\<close>

instantiation sequence_range :: linorder
begin

definition less_eq_sequence_range :: "sequence_range \<Rightarrow> sequence_range \<Rightarrow> bool" where
  "less_eq_sequence_range r s \<longleftrightarrow>
     sr_start r < sr_start s \<or> sr_start r = sr_start s \<and> sr_end r \<le> sr_end s"

definition less_sequence_range :: "sequence_range \<Rightarrow> sequence_range \<Rightarrow> bool" where
  "less_sequence_range r s \<longleftrightarrow>
     sr_start r < sr_start s \<or> sr_start r = sr_start s \<and> sr_end r < sr_end s"

instance
proof
  fix r s t :: sequence_range
  show "r < s \<longleftrightarrow> r \<le> s \<and> \<not> s \<le> r"
    by (auto simp: less_eq_sequence_range_def less_sequence_range_def)
  show "r \<le> r" by (simp add: less_eq_sequence_range_def)
  show "r \<le> t" if "r \<le> s" "s \<le> t"
    using that by (auto simp: less_eq_sequence_range_def)
  show "r = s" if "r \<le> s" "s \<le> r"
    using that by (cases r; cases s) (auto simp: less_eq_sequence_range_def)
  show "r \<le> s \<or> s \<le> r"
    by (auto simp: less_eq_sequence_range_def)
qed

end

section \<open>Envelopes\<close>

record 'a sequenced_snapshot =
  snap_target :: feed_target
  snap_sequence :: sequence
  snap_timestamp_ms :: i64
  snap_payload :: 'a

definition snapshot_validate_envelope :: "'a sequenced_snapshot \<Rightarrow> market_type_error + unit" where
  "snapshot_validate_envelope s =
     bindR (feed_target_validate (snap_target s)) (\<lambda>_.
     bindR (sequence_validate (snap_sequence s)) (\<lambda>_.
     if snap_timestamp_ms s \<le> 0 then Inl (InvalidTimestamp (snap_timestamp_ms s)) else Inr ()))"

definition snapshot_new ::
  "feed_target \<Rightarrow> sequence \<Rightarrow> i64 \<Rightarrow> 'a \<Rightarrow> market_type_error + 'a sequenced_snapshot" where
  "snapshot_new target sequence timestamp_ms payload =
     (let snap = \<lparr>snap_target = target, snap_sequence = sequence,
                  snap_timestamp_ms = timestamp_ms, snap_payload = payload\<rparr>
      in bindR (snapshot_validate_envelope snap) (\<lambda>_. Inr snap))"

record 'a sequenced_delta =
  sdelta_target :: feed_target
  sdelta_sequence_range :: sequence_range
  sdelta_timestamp_ms :: i64
  sdelta_payload :: 'a

definition delta_validate_envelope :: "'a sequenced_delta \<Rightarrow> market_type_error + unit" where
  "delta_validate_envelope d =
     bindR (feed_target_validate (sdelta_target d)) (\<lambda>_.
     bindR (range_validate (sdelta_sequence_range d)) (\<lambda>_.
     if sdelta_timestamp_ms d \<le> 0 then Inl (InvalidTimestamp (sdelta_timestamp_ms d)) else Inr ()))"

definition delta_new ::
  "feed_target \<Rightarrow> sequence_range \<Rightarrow> i64 \<Rightarrow> 'a \<Rightarrow> market_type_error + 'a sequenced_delta" where
  "delta_new target sequence_range timestamp_ms payload =
     (let delta = \<lparr>sdelta_target = target, sdelta_sequence_range = sequence_range,
                   sdelta_timestamp_ms = timestamp_ms, sdelta_payload = payload\<rparr>
      in bindR (delta_validate_envelope delta) (\<lambda>_. Inr delta))"

section \<open>The stream tracker\<close>

datatype delta_classification =
    DC_Contiguous sequence
  | DC_Duplicate sequence
  | DC_Stale sequence sequence
  | DC_ResyncRequired sequence sequence

datatype snapshot_classification =
    SC_Accepted sequence
  | SC_Duplicate sequence
  | SC_Stale sequence sequence

record stream_tracker =
  st_target :: feed_target
  st_baseline_sequence :: "sequence option"
  st_current_sequence :: "sequence option"
  st_last_timestamp_ms :: "i64 option"
  st_resync_required :: bool

definition tracker_new :: "feed_target \<Rightarrow> stream_tracker" where
  "tracker_new target =
     \<lparr>st_target = target, st_baseline_sequence = None, st_current_sequence = None,
      st_last_timestamp_ms = None, st_resync_required = False\<rparr>"

definition trigger_resync :: "stream_tracker \<Rightarrow> stream_tracker" where
  "trigger_resync t = t\<lparr>st_resync_required := True\<rparr>"

definition classify_delta_range :: "stream_tracker \<Rightarrow> sequence_range \<Rightarrow> delta_classification" where
  "classify_delta_range t rng =
     (if st_resync_required t then
        (let expected = (case map_option sequence_next (st_current_sequence t) of
                           None \<Rightarrow> 1 | Some s \<Rightarrow> s)
         in DC_ResyncRequired expected (sr_start rng))
      else case st_current_sequence t of
        None \<Rightarrow> DC_ResyncRequired 1 (sr_start rng)
      | Some cur \<Rightarrow>
          if sr_end rng < cur then DC_Stale (sr_end rng) cur
          else if sr_end rng = cur then DC_Duplicate cur
          else if sr_start rng = sequence_next cur then DC_Contiguous (sr_end rng)
          else DC_ResyncRequired (sequence_next cur) (sr_start rng))"

definition apply_delta_range ::
  "stream_tracker \<Rightarrow> sequence_range \<Rightarrow> i64 \<Rightarrow> stream_tracker \<times> delta_classification" where
  "apply_delta_range t rng timestamp_ms =
     (let classification = classify_delta_range t rng in
      case classification of
        DC_Contiguous new_sequence \<Rightarrow>
          (t\<lparr>st_current_sequence := Some new_sequence,
             st_last_timestamp_ms := Some timestamp_ms\<rparr>, classification)
      | DC_ResyncRequired _ _ \<Rightarrow> (t\<lparr>st_resync_required := True\<rparr>, classification)
      | DC_Duplicate _ \<Rightarrow> (t, classification)
      | DC_Stale _ _ \<Rightarrow> (t, classification))"

definition accept_snapshot_sequence :: "stream_tracker \<Rightarrow> sequence \<Rightarrow> i64 \<Rightarrow> stream_tracker" where
  "accept_snapshot_sequence t sequence timestamp_ms =
     t\<lparr>st_baseline_sequence := Some sequence, st_current_sequence := Some sequence,
       st_last_timestamp_ms := Some timestamp_ms, st_resync_required := False\<rparr>"

definition apply_snapshot_sequence ::
  "stream_tracker \<Rightarrow> sequence \<Rightarrow> i64 \<Rightarrow> stream_tracker \<times> snapshot_classification" where
  "apply_snapshot_sequence t sequence timestamp_ms =
     (case st_current_sequence t of
        Some cur \<Rightarrow>
          if sequence < cur then (t, SC_Stale sequence cur)
          else if sequence = cur then (t, SC_Duplicate cur)
          else (accept_snapshot_sequence t sequence timestamp_ms, SC_Accepted sequence)
      | None \<Rightarrow> (accept_snapshot_sequence t sequence timestamp_ms, SC_Accepted sequence))"

section \<open>Freshness\<close>

definition MIN_POLICY_STALENESS_MS :: u64 where "MIN_POLICY_STALENESS_MS = 1"
definition MAX_POLICY_STALENESS_MS :: u64 where "MAX_POLICY_STALENESS_MS = 86400000"
definition MAX_POLICY_FUTURE_SKEW_MS :: u64 where "MAX_POLICY_FUTURE_SKEW_MS = 300000"
definition DEFAULT_MAX_STALENESS_MS :: u64 where "DEFAULT_MAX_STALENESS_MS = 10000"
definition DEFAULT_MAX_FUTURE_SKEW_MS :: u64 where "DEFAULT_MAX_FUTURE_SKEW_MS = 2000"

datatype freshness_status = FS_Fresh | FS_Stale | FS_ResyncRequired

record freshness_policy =
  max_staleness_ms :: u64
  max_future_skew_ms :: u64

definition default_freshness_policy :: freshness_policy where
  "default_freshness_policy =
     \<lparr>max_staleness_ms = DEFAULT_MAX_STALENESS_MS, max_future_skew_ms = DEFAULT_MAX_FUTURE_SKEW_MS\<rparr>"

definition policy_validate :: "freshness_policy \<Rightarrow> market_type_error + unit" where
  "policy_validate p =
     (if \<not> (MIN_POLICY_STALENESS_MS \<le> max_staleness_ms p \<and>
            max_staleness_ms p \<le> MAX_POLICY_STALENESS_MS)
      then Inl (PolicyStalenessOutOfRange (max_staleness_ms p))
      else if MAX_POLICY_FUTURE_SKEW_MS < max_future_skew_ms p
      then Inl (PolicySkewOutOfRange (max_future_skew_ms p))
      else Inr ())"

definition policy_new :: "u64 \<Rightarrow> u64 \<Rightarrow> market_type_error + freshness_policy" where
  "policy_new staleness skew =
     (if \<not> (MIN_POLICY_STALENESS_MS \<le> staleness \<and> staleness \<le> MAX_POLICY_STALENESS_MS)
      then Inl (PolicyStalenessOutOfRange staleness)
      else if MAX_POLICY_FUTURE_SKEW_MS < skew then Inl (PolicySkewOutOfRange skew)
      else Inr \<lparr>max_staleness_ms = staleness, max_future_skew_ms = skew\<rparr>)"

record safe_freshness_meta =
  fm_status :: freshness_status
  fm_observed_at_ms :: i64
  fm_evaluated_at_ms :: i64
  fm_age_ms :: u64
  fm_sequence :: sequence

text \<open>The differences are cast from \<open>i64\<close> to \<open>u64\<close>, the word of the integer.\<close>

definition evaluate_freshness ::
  "freshness_policy \<Rightarrow> i64 \<Rightarrow> i64 \<Rightarrow> sequence \<Rightarrow> bool \<Rightarrow> market_type_error + safe_freshness_meta" where
  "evaluate_freshness policy observed_at_ms evaluated_at_ms sequence has_gap_or_resync =
     bindR (policy_validate policy) (\<lambda>_.
     if observed_at_ms \<le> 0 then Inl (InvalidTimestamp observed_at_ms)
     else if evaluated_at_ms \<le> 0 then Inl (InvalidTimestamp evaluated_at_ms)
     else
       let age_ms = (if observed_at_ms \<le> evaluated_at_ms
                     then word_of_int (evaluated_at_ms - observed_at_ms) else 0);
           meta = (\<lambda>status age.
             \<lparr>fm_status = status, fm_observed_at_ms = observed_at_ms,
              fm_evaluated_at_ms = evaluated_at_ms, fm_age_ms = age, fm_sequence = sequence\<rparr>)
       in
       if has_gap_or_resync then Inr (meta FS_ResyncRequired age_ms)
       else if evaluated_at_ms < observed_at_ms then
         (let future_skew = word_of_int (observed_at_ms - evaluated_at_ms)
          in if max_future_skew_ms policy < future_skew then Inr (meta FS_ResyncRequired 0)
             else Inr (meta FS_Fresh 0))
       else Inr (meta (if max_staleness_ms policy < age_ms then FS_Stale else FS_Fresh) age_ms))"

definition tracker_evaluate_freshness ::
  "stream_tracker \<Rightarrow> freshness_policy \<Rightarrow> i64 \<Rightarrow> market_type_error + safe_freshness_meta" where
  "tracker_evaluate_freshness t policy evaluated_at_ms =
     (let seq = (case st_current_sequence t of None \<Rightarrow> 0 | Some s \<Rightarrow> s);
          observed_ms = (case st_last_timestamp_ms t of None \<Rightarrow> evaluated_at_ms | Some ms \<Rightarrow> ms);
          has_gap = (st_resync_required t \<or> st_current_sequence t = None)
      in evaluate_freshness policy observed_ms evaluated_at_ms seq has_gap)"

section \<open>Reachable trackers\<close>

text \<open>
  \<open>tracks target t rs\<close>: \<open>t\<close> is the result of some calls of the tracker's methods on
  \<open>new target\<close>, and \<open>rs\<close> lists the ranges classified contiguous since the last accepted
  snapshot, in order.
\<close>

inductive tracks :: "feed_target \<Rightarrow> stream_tracker \<Rightarrow> sequence_range list \<Rightarrow> bool"
  for target :: feed_target where
  tracks_new: "tracks target (tracker_new target) []"
| tracks_delta:
    "tracks target t rs \<Longrightarrow> apply_delta_range t r ts = (t', c) \<Longrightarrow>
     tracks target t' (case c of DC_Contiguous _ \<Rightarrow> rs @ [r] | _ \<Rightarrow> rs)"
| tracks_snapshot:
    "tracks target t rs \<Longrightarrow> apply_snapshot_sequence t s ts = (t', c) \<Longrightarrow>
     tracks target t' (case c of SC_Accepted _ \<Rightarrow> [] | _ \<Rightarrow> rs)"
| tracks_resync: "tracks target t rs \<Longrightarrow> tracks target (trigger_resync t) rs"

text \<open>The sequence numbers of a range, in order.\<close>

definition numbers :: "sequence_range \<Rightarrow> nat list" where
  "numbers r = [unat (sr_start r) ..< unat (sr_end r) + 1]"

definition numbers_after :: "sequence \<Rightarrow> sequence \<Rightarrow> nat list" where
  "numbers_after b c = [unat b + 1 ..< unat c + 1]"

text \<open>A history of calls, and the tracker it leaves.\<close>

datatype stream_event =
    Ev_delta sequence_range i64
  | Ev_snapshot sequence i64
  | Ev_trigger_resync

fun stream_step :: "stream_tracker \<Rightarrow> stream_event \<Rightarrow> stream_tracker" where
  "stream_step t (Ev_delta r ts) = fst (apply_delta_range t r ts)"
| "stream_step t (Ev_snapshot s ts) = fst (apply_snapshot_sequence t s ts)"
| "stream_step t Ev_trigger_resync = trigger_resync t"

text \<open>\<open>None\<close>, no baseline yet, is below every sequence.\<close>

definition position_le :: "sequence option \<Rightarrow> sequence option \<Rightarrow> bool" where
  "position_le a b \<longleftrightarrow> (\<forall>s. a = Some s \<longrightarrow> (\<exists>s'. b = Some s' \<and> s \<le> s'))"

section \<open>Lemmas\<close>

lemma classify_contiguous_iff:
  "classify_delta_range t r = DC_Contiguous n \<longleftrightarrow>
     \<not> st_resync_required t \<and> n = sr_end r \<and>
     (\<exists>c. st_current_sequence t = Some c \<and> c < sr_end r \<and> sr_start r = sequence_next c)"
  by (auto simp: classify_delta_range_def Let_def split: option.splits)

lemma apply_delta_range_cases:
  assumes "apply_delta_range t r ts = (t', c)"
  obtains (contiguous) cur where "c = DC_Contiguous (sr_end r)" "\<not> st_resync_required t"
      "st_current_sequence t = Some cur" "cur < sr_end r" "sr_start r = sequence_next cur"
      "t' = t\<lparr>st_current_sequence := Some (sr_end r), st_last_timestamp_ms := Some ts\<rparr>"
  | (resync) e g where "c = DC_ResyncRequired e g" "t' = t\<lparr>st_resync_required := True\<rparr>"
  | (kept) "\<And>n. c \<noteq> DC_Contiguous n" "t' = t" "\<not> st_resync_required t"
proof (cases "classify_delta_range t r")
  case (DC_Contiguous n)
  with assms classify_contiguous_iff [of t r n] show ?thesis
    by (auto simp: apply_delta_range_def Let_def intro: contiguous)
next
  case (DC_ResyncRequired e g)
  with assms show ?thesis by (auto simp: apply_delta_range_def Let_def intro: resync [of e g])
next
  case DC_Duplicate
  moreover from this have "\<not> st_resync_required t"
    by (auto simp: classify_delta_range_def Let_def)
  ultimately show ?thesis using assms by (auto simp: apply_delta_range_def Let_def intro: kept)
next
  case DC_Stale
  moreover from this have "\<not> st_resync_required t"
    by (auto simp: classify_delta_range_def Let_def)
  ultimately show ?thesis using assms by (auto simp: apply_delta_range_def Let_def intro: kept)
qed

lemma apply_snapshot_sequence_cases:
  assumes "apply_snapshot_sequence t s ts = (t', c)"
  obtains (accepted) "c = SC_Accepted s" "t' = accept_snapshot_sequence t s ts"
      "\<And>cur. st_current_sequence t = Some cur \<Longrightarrow> cur < s"
  | (kept) cur where "\<And>n. c \<noteq> SC_Accepted n" "t' = t" "st_current_sequence t = Some cur" "s \<le> cur"
  using assms unfolding apply_snapshot_sequence_def
  by (auto split: option.splits if_splits)

lemma numbers_extend:
  assumes "cur < sr_end r" and "sr_start r = sequence_next cur" and "b \<le> cur"
  shows "numbers_after b cur @ numbers r = numbers_after b (sr_end r)"
proof -
  have "unat (sr_start r) = unat cur + 1"
    using sequence_next_eq_iff [OF assms(1)] assms(2) by simp
  moreover have "unat b + 1 \<le> unat cur + 1" "unat cur + 1 \<le> unat (sr_end r) + 1"
    using assms by (simp_all add: word_less_nat_alt word_le_nat_alt)
  ultimately show ?thesis
    by (metis numbers_after_def numbers_def upt_add_eq_append le_add_diff_inverse)
qed

text \<open>What \<open>rs\<close> and the two sequence numbers of a reachable tracker have in common.\<close>

definition tracker_inv :: "stream_tracker \<Rightarrow> sequence_range list \<Rightarrow> bool" where
  "tracker_inv t rs \<longleftrightarrow>
     (case (st_baseline_sequence t, st_current_sequence t) of
        (None, None) \<Rightarrow> rs = []
      | (Some b, Some c) \<Rightarrow> b \<le> c \<and> concat (map numbers rs) = numbers_after b c
      | _ \<Rightarrow> False)"

lemma tracker_inv_delta:
  assumes "tracker_inv t rs" and "apply_delta_range t r ts = (t', c)"
  shows "tracker_inv t' (case c of DC_Contiguous _ \<Rightarrow> rs @ [r] | _ \<Rightarrow> rs)"
  using assms(2)
proof (cases rule: apply_delta_range_cases)
  case (contiguous cur)
  with assms(1) numbers_extend [OF contiguous(4,5)] show ?thesis
    by (auto simp: tracker_inv_def split: option.splits)
next
  case resync
  with assms(1) show ?thesis by (simp add: tracker_inv_def)
next
  case kept
  with assms(1) show ?thesis by (cases c) auto
qed

lemma tracker_inv_snapshot:
  assumes "tracker_inv t rs" and "apply_snapshot_sequence t s ts = (t', c)"
  shows "tracker_inv t' (case c of SC_Accepted _ \<Rightarrow> [] | _ \<Rightarrow> rs)"
  using assms(2)
proof (cases rule: apply_snapshot_sequence_cases)
  case accepted
  then show ?thesis by (simp add: tracker_inv_def accept_snapshot_sequence_def numbers_after_def)
next
  case kept
  with assms(1) show ?thesis by (cases c) auto
qed

lemma tracks_inv: "tracks target t rs \<Longrightarrow> tracker_inv t rs"
proof (induction rule: tracks.induct)
  case tracks_new
  then show ?case by (simp add: tracker_inv_def tracker_new_def)
next
  case tracks_resync
  then show ?case by (simp add: tracker_inv_def trigger_resync_def)
qed (blast intro: tracker_inv_delta tracker_inv_snapshot)+

lemma position_le_refl [simp]: "position_le a a"
  by (simp add: position_le_def)

lemma position_le_trans: "position_le a b \<Longrightarrow> position_le b c \<Longrightarrow> position_le a c"
  unfolding position_le_def by (blast intro: order_trans)

lemma stream_step_monotone: "position_le (st_current_sequence t) (st_current_sequence (stream_step t e))"
proof (cases e)
  case (Ev_delta r ts)
  obtain t' c where app: "apply_delta_range t r ts = (t', c)" by fastforce
  then show ?thesis
    by (cases rule: apply_delta_range_cases) (auto simp: Ev_delta app position_le_def)
next
  case (Ev_snapshot s ts)
  obtain t' c where app: "apply_snapshot_sequence t s ts = (t', c)" by fastforce
  then show ?thesis
    by (cases rule: apply_snapshot_sequence_cases)
      (auto simp: Ev_snapshot app position_le_def accept_snapshot_sequence_def less_imp_le)
next
  case Ev_trigger_resync
  then show ?thesis by (simp add: trigger_resync_def)
qed

text \<open>In resync, a step either changes nothing or is a snapshot beyond the current sequence.\<close>

lemma stream_step_latched:
  assumes "st_resync_required t"
    and "\<And>s ts. e = Ev_snapshot s ts \<Longrightarrow> \<exists>c. st_current_sequence t = Some c \<and> s \<le> c"
  shows "stream_step t e = t"
proof (cases e)
  case (Ev_delta r ts)
  obtain t' c where app: "apply_delta_range t r ts = (t', c)" by fastforce
  then show ?thesis using assms(1)
    by (cases rule: apply_delta_range_cases) (auto simp: Ev_delta app)
next
  case (Ev_snapshot s ts)
  with assms(2) show ?thesis by (auto simp: apply_snapshot_sequence_def not_less)
next
  case Ev_trigger_resync
  with assms(1) show ?thesis by (simp add: trigger_resync_def)
qed

lemma unat_word_of_int_pos: "0 \<le> i \<Longrightarrow> i < 2 ^ 63 \<Longrightarrow> uint (word_of_int i :: u64) = i"
  by (simp add: uint_word_of_int)

lemma word_of_int_less_iff:
  "0 \<le> i \<Longrightarrow> i < 2 ^ 63 \<Longrightarrow> m < (word_of_int i :: u64) \<longleftrightarrow> uint m < i"
  by (simp only: word_less_def unat_word_of_int_pos)

section \<open>Properties\<close>

text \<open>C20. No gap is ever interpolated: for a tracker reached from \<open>new\<close> by any calls, the
  deltas applied since the baseline snapshot carry exactly the sequence numbers after the
  baseline up to the current one, each once and in order.\<close>

theorem tracker_contiguous:
  assumes "tracks target t rs" and "st_current_sequence t = Some c"
  shows "\<exists>b. st_baseline_sequence t = Some b \<and> concat (map numbers rs) = [unat b + 1 ..< unat c + 1]"
  using tracks_inv [OF assms(1)] assms(2)
  by (auto simp: tracker_inv_def numbers_after_def simp del: upt_Suc split: option.splits)

theorem tracker_contiguous_witness:
  "let t0 = tracker_new (FT_Pool \<lparr>pid_chain = Base, pid_address = ''p''\<rparr>);
       t1 = fst (apply_snapshot_sequence t0 5 100);
       t2 = fst (apply_delta_range t1 (SequenceRange 6 8) 200);
       t3 = fst (apply_delta_range t2 (SequenceRange 11 12) 300)
   in st_current_sequence t3 = Some 8 \<and> st_resync_required t3 \<and>
      (\<exists>b. st_baseline_sequence t3 = Some b \<and>
           concat (map numbers [SequenceRange 6 8]) = [unat b + 1 ..< unat (8 :: sequence) + 1])"
proof -
  define tgt where "tgt = FT_Pool \<lparr>pid_chain = Base, pid_address = ''p''\<rparr>"
  define t1 where "t1 = fst (apply_snapshot_sequence (tracker_new tgt) 5 100)"
  define t2 where "t2 = fst (apply_delta_range t1 (SequenceRange 6 8) 200)"
  define t3 where "t3 = fst (apply_delta_range t2 (SequenceRange 11 12) 300)"
  note ev = tracker_new_def apply_snapshot_sequence_def accept_snapshot_sequence_def
    apply_delta_range_def classify_delta_range_def sequence_next_def saturating_add_def
  have s1: "apply_snapshot_sequence (tracker_new tgt) 5 100 = (t1, SC_Accepted 5)"
    by (simp add: t1_def ev)
  have s2: "apply_delta_range t1 (SequenceRange 6 8) 200 = (t2, DC_Contiguous 8)"
    by (simp add: t2_def t1_def ev)
  have s3: "apply_delta_range t2 (SequenceRange 11 12) 300 = (t3, DC_ResyncRequired 9 11)"
    by (simp add: t3_def t2_def t1_def ev)
  have r: "tracks tgt t3 [SequenceRange 6 8]"
    using tracks_delta [OF tracks_delta [OF tracks_snapshot [OF tracks_new s1] s2] s3] by simp
  have c: "st_current_sequence t3 = Some 8" "st_resync_required t3"
    by (simp_all add: t3_def t2_def t1_def ev)
  show ?thesis
    using tracker_contiguous [OF r c(1)] c unfolding Let_def t3_def t2_def t1_def tgt_def by blast
qed

text \<open>The resync flag is a latch: once it is set, a history without a snapshot beyond the
  current sequence leaves the whole tracker as it is, whatever deltas it holds.\<close>

theorem tracker_resync_latched:
  assumes "st_resync_required t"
    and "\<forall>s ts. Ev_snapshot s ts \<in> set es \<longrightarrow> (\<exists>c. st_current_sequence t = Some c \<and> s \<le> c)"
  shows "foldl stream_step t es = t"
  using assms(2)
proof (induction es)
  case Nil
  then show ?case by simp
next
  case (Cons e es)
  have "stream_step t e = t" using Cons.prems by (intro stream_step_latched assms(1)) auto
  moreover have "foldl stream_step t es = t" using Cons.prems by (intro Cons.IH) auto
  ultimately show ?case by simp
qed

theorem tracker_resync_latched_witness:
  "let t = trigger_resync (fst (apply_snapshot_sequence
             (tracker_new (FT_Pool \<lparr>pid_chain = Base, pid_address = ''p''\<rparr>)) 5 100))
   in st_resync_required t \<and>
      foldl stream_step t [Ev_delta (SequenceRange 6 6) 101, Ev_snapshot 5 102] = t"
  unfolding Let_def
  by (rule conjI, simp add: trigger_resync_def, rule tracker_resync_latched)
    (auto simp: trigger_resync_def apply_snapshot_sequence_def accept_snapshot_sequence_def tracker_new_def)

text \<open>Replays and reorderings never move a stream back: along any history of calls the
  current sequence never decreases and is never lost.\<close>

theorem tracker_monotone: "position_le (st_current_sequence t) (st_current_sequence (foldl stream_step t es))"
proof (induction es arbitrary: t)
  case Nil
  then show ?case by simp
next
  case (Cons e es)
  show ?case
    using position_le_trans [OF stream_step_monotone Cons.IH] by simp
qed

text \<open>A stream is reported fresh exactly when it has a baseline, no gap is pending and its
  last update is at most the policy's staleness in the past and at most the policy's skew in
  the future.\<close>

theorem tracker_fresh_iff:
  assumes "policy_validate p = Inr ()" and "0 < now" and "now < 2 ^ 63"
    and "st_last_timestamp_ms t = Some ms" and "0 < ms" and "ms < 2 ^ 63"
  shows "(\<exists>m. tracker_evaluate_freshness t p now = Inr m \<and> fm_status m = FS_Fresh) \<longleftrightarrow>
    \<not> st_resync_required t \<and> st_current_sequence t \<noteq> None \<and>
    now - ms \<le> uint (max_staleness_ms p) \<and> ms - now \<le> uint (max_future_skew_ms p)"
proof -
  have "now - ms \<le> uint (max_staleness_ms p)" if "now < ms"
    using that uint_nonnegative [of "max_staleness_ms p"] by linarith
  moreover have "ms - now \<le> uint (max_future_skew_ms p)" if "ms \<le> now"
    using that uint_nonnegative [of "max_future_skew_ms p"] by linarith
  ultimately show ?thesis using assms
    by (auto simp: tracker_evaluate_freshness_def evaluate_freshness_def Let_def word_of_int_less_iff
        simp del: of_int_diff)
qed

theorem tracker_fresh_iff_witness:
  "\<exists>m. tracker_evaluate_freshness
     (fst (apply_snapshot_sequence (tracker_new (FT_Pool \<lparr>pid_chain = Base, pid_address = ''p''\<rparr>)) 5 100))
     default_freshness_policy 10100 = Inr m \<and> fm_status m = FS_Fresh"
  by (subst tracker_fresh_iff [where ms = 100])
    (simp_all add: policy_validate_def default_freshness_policy_def
      apply_snapshot_sequence_def accept_snapshot_sequence_def tracker_new_def
      MIN_POLICY_STALENESS_MS_def MAX_POLICY_STALENESS_MS_def MAX_POLICY_FUTURE_SKEW_MS_def
      DEFAULT_MAX_STALENESS_MS_def DEFAULT_MAX_FUTURE_SKEW_MS_def)

end
