(* ===== verification/Pool_State.thy ===== *)
theory Pool_State
  imports Sequencing
begin

text \<open>
  Adapter-neutral pool states and their deltas: \<open>crates/market-types/src/pool.rs\<close>, from
  \<open>PoolStateEnvelope\<close> to \<open>BinPoolDeltaEnvelope\<close>. Each state has its \<open>validate\<close>, with
  the loops over ticks and bins as recursions that carry the previous element. The typed
  delta envelopes of the source differ in their payload type only and are one record with a
  type parameter.
\<close>

section \<open>Limits\<close>

definition MAX_DECIMALS :: u8 where "MAX_DECIMALS = 30"
definition MIN_TICK :: i32 where "MIN_TICK = - 887272"
definition MAX_TICK :: i32 where "MAX_TICK = 887272"
definition MAX_CLMM_TICKS :: usize where "MAX_CLMM_TICKS = 10000"
definition MIN_BIN_ID :: i32 where "MIN_BIN_ID = - 8388608"
definition MAX_BIN_ID :: i32 where "MAX_BIN_ID = 8388608"
definition MAX_BIN_COUNT :: usize where "MAX_BIN_COUNT = 10000"
definition MAX_BIN_STEP_BPS :: u16 where "MAX_BIN_STEP_BPS = 1000"
definition MAX_CLMM_DELTA_TICKS :: usize where "MAX_CLMM_DELTA_TICKS = 1000"
definition MAX_BIN_DELTA_BINS :: usize where "MAX_BIN_DELTA_BINS = 1000"

section \<open>States\<close>

record cpmm_pool_state =
  cp_token_0 :: asset_id
  cp_token_1 :: asset_id
  cp_decimals_0 :: u8
  cp_decimals_1 :: u8
  cp_reserve_0 :: atomic_amount
  cp_reserve_1 :: atomic_amount
  cp_total_lp_supply :: "atomic_amount option"
  cp_fee_bps :: bps

text \<open>The checks on tokens and decimals that every pool state starts with.\<close>

definition pool_tokens_validate ::
  "asset_id \<Rightarrow> asset_id \<Rightarrow> u8 \<Rightarrow> u8 \<Rightarrow> market_type_error + unit" where
  "pool_tokens_validate token_0 token_1 decimals_0 decimals_1 =
     bindR (map_err (\<lambda>_. EmptyAddress) (asset_validate token_0)) (\<lambda>_.
     bindR (map_err (\<lambda>_. EmptyAddress) (asset_validate token_1)) (\<lambda>_.
     if token_0 = token_1 then Inl SamePoolTokens
     else if asset_chain token_0 \<noteq> asset_chain token_1 then Inl ChainMismatch
     else if MAX_DECIMALS < decimals_0 then Inl (DecimalsExceeded decimals_0 MAX_DECIMALS)
     else if MAX_DECIMALS < decimals_1 then Inl (DecimalsExceeded decimals_1 MAX_DECIMALS)
     else Inr ()))"

definition cpmm_validate :: "cpmm_pool_state \<Rightarrow> market_type_error + unit" where
  "cpmm_validate p =
     pool_tokens_validate (cp_token_0 p) (cp_token_1 p) (cp_decimals_0 p) (cp_decimals_1 p)"

record clmm_tick =
  tick_index :: i32
  tick_liquidity_gross :: u128
  tick_liquidity_net :: i128

record clmm_pool_state =
  cl_token_0 :: asset_id
  cl_token_1 :: asset_id
  cl_decimals_0 :: u8
  cl_decimals_1 :: u8
  cl_tick_spacing :: u32
  cl_current_tick :: i32
  cl_sqrt_price_x64 :: u128
  cl_liquidity :: u128
  cl_fee_bps :: bps
  cl_ticks :: "clmm_tick list"

fun clmm_ticks_validate ::
  "u32 \<Rightarrow> clmm_tick option \<Rightarrow> clmm_tick list \<Rightarrow> market_type_error + unit" where
  "clmm_ticks_validate spacing prev [] = Inr ()"
| "clmm_ticks_validate spacing prev (tick # ticks) =
     (if \<not> (MIN_TICK \<le> tick_index tick \<and> tick_index tick \<le> MAX_TICK)
      then Inl (TickOutOfRange (tick_index tick) MIN_TICK MAX_TICK)
      else if rust_rem (tick_index tick) (as_i32 spacing) \<noteq> 0
      then Inl (TickSpacingMismatch (tick_index tick) spacing)
      else if tick_liquidity_gross tick < unsigned_abs (tick_liquidity_net tick)
      then Inl (InvalidTickLiquidity (tick_index tick))
      else bindR
        (case prev of
           None \<Rightarrow> Inr ()
         | Some prev_tick \<Rightarrow>
             if tick_index tick = tick_index prev_tick
             then Inl (DuplicateClmmTick (tick_index tick))
             else if tick_index tick < tick_index prev_tick then Inl UnsortedClmmTicks
             else Inr ())
        (\<lambda>_. clmm_ticks_validate spacing (Some tick) ticks))"

definition clmm_validate :: "clmm_pool_state \<Rightarrow> market_type_error + unit" where
  "clmm_validate p =
     bindR (pool_tokens_validate (cl_token_0 p) (cl_token_1 p) (cl_decimals_0 p) (cl_decimals_1 p)) (\<lambda>_.
     if cl_tick_spacing p = 0 then Inl (InvalidTickSpacing 0)
     else if \<not> (MIN_TICK \<le> cl_current_tick p \<and> cl_current_tick p \<le> MAX_TICK)
     then Inl (TickOutOfRange (cl_current_tick p) MIN_TICK MAX_TICK)
     else if MAX_CLMM_TICKS < length (cl_ticks p)
     then Inl (ClmmTicksExceeded (length (cl_ticks p)) MAX_CLMM_TICKS)
     else clmm_ticks_validate (cl_tick_spacing p) None (cl_ticks p))"

record liquidity_bin =
  bin_id :: i32
  bin_reserve_0 :: atomic_amount
  bin_reserve_1 :: atomic_amount

record bin_pool_state =
  bn_token_0 :: asset_id
  bn_token_1 :: asset_id
  bn_decimals_0 :: u8
  bn_decimals_1 :: u8
  bn_active_bin_id :: i32
  bn_bin_step :: u16
  bn_fee_bps :: bps
  bn_bins :: "liquidity_bin list"

fun bins_validate ::
  "i32 \<Rightarrow> liquidity_bin option \<Rightarrow> liquidity_bin list \<Rightarrow> market_type_error + unit" where
  "bins_validate active prev [] = Inr ()"
| "bins_validate active prev (bin # bins) =
     (if \<not> (MIN_BIN_ID \<le> bin_id bin \<and> bin_id bin \<le> MAX_BIN_ID)
      then Inl (BinOutOfRange (bin_id bin) MIN_BIN_ID MAX_BIN_ID)
      else bindR
        (case prev of
           None \<Rightarrow> Inr ()
         | Some prev_bin \<Rightarrow>
             if bin_id bin = bin_id prev_bin then Inl (DuplicateBin (bin_id bin))
             else if bin_id bin < bin_id prev_bin then Inl UnsortedBins
             else Inr ())
        (\<lambda>_.
          if bin_reserve_0 bin = 0 \<and> bin_reserve_1 bin = 0 then Inl (EmptyBin (bin_id bin))
          else if bin_id bin < active \<and> bin_reserve_0 bin \<noteq> 0
          then Inl (BinReserveSideViolation (bin_id bin) active)
          else if active < bin_id bin \<and> bin_reserve_1 bin \<noteq> 0
          then Inl (BinReserveSideViolation (bin_id bin) active)
          else bins_validate active (Some bin) bins))"

definition bin_validate :: "bin_pool_state \<Rightarrow> market_type_error + unit" where
  "bin_validate p =
     bindR (pool_tokens_validate (bn_token_0 p) (bn_token_1 p) (bn_decimals_0 p) (bn_decimals_1 p)) (\<lambda>_.
     if bn_bin_step p = 0 \<or> MAX_BIN_STEP_BPS < bn_bin_step p
     then Inl (InvalidBinStep (bn_bin_step p))
     else if \<not> (MIN_BIN_ID \<le> bn_active_bin_id p \<and> bn_active_bin_id p \<le> MAX_BIN_ID)
     then Inl (BinOutOfRange (bn_active_bin_id p) MIN_BIN_ID MAX_BIN_ID)
     else if MAX_BIN_COUNT < length (bn_bins p)
     then Inl (BinsExceeded (length (bn_bins p)) MAX_BIN_COUNT)
     else bins_validate (bn_active_bin_id p) None (bn_bins p))"

datatype pool_kind_state =
    PS_Cpmm cpmm_pool_state
  | PS_Clmm clmm_pool_state
  | PS_Bin bin_pool_state

fun kind_validate :: "pool_kind_state \<Rightarrow> market_type_error + unit" where
  "kind_validate (PS_Cpmm p) = cpmm_validate p"
| "kind_validate (PS_Clmm p) = clmm_validate p"
| "kind_validate (PS_Bin p) = bin_validate p"

fun kind_token_0 :: "pool_kind_state \<Rightarrow> asset_id" where
  "kind_token_0 (PS_Cpmm p) = cp_token_0 p"
| "kind_token_0 (PS_Clmm p) = cl_token_0 p"
| "kind_token_0 (PS_Bin p) = bn_token_0 p"

fun kind_token_1 :: "pool_kind_state \<Rightarrow> asset_id" where
  "kind_token_1 (PS_Cpmm p) = cp_token_1 p"
| "kind_token_1 (PS_Clmm p) = cl_token_1 p"
| "kind_token_1 (PS_Bin p) = bn_token_1 p"

fun kind_fee_bps :: "pool_kind_state \<Rightarrow> bps" where
  "kind_fee_bps (PS_Cpmm p) = cp_fee_bps p"
| "kind_fee_bps (PS_Clmm p) = cl_fee_bps p"
| "kind_fee_bps (PS_Bin p) = bn_fee_bps p"

fun kind_str :: "pool_kind_state \<Rightarrow> string" where
  "kind_str (PS_Cpmm _) = ''cpmm''"
| "kind_str (PS_Clmm _) = ''clmm''"
| "kind_str (PS_Bin _) = ''bin''"

record pool_state_envelope =
  pe_pool_id :: pool_id
  pe_sequence :: sequence
  pe_observed_at_ms :: i64
  pe_state :: pool_kind_state

definition state_envelope_validate :: "pool_state_envelope \<Rightarrow> market_type_error + unit" where
  "state_envelope_validate e =
     bindR (pool_id_validate (pe_pool_id e)) (\<lambda>_.
     bindR (sequence_validate (pe_sequence e)) (\<lambda>_.
     if pe_observed_at_ms e \<le> 0 then Inl (InvalidTimestamp (pe_observed_at_ms e))
     else bindR (kind_validate (pe_state e)) (\<lambda>_.
       if asset_chain (kind_token_0 (pe_state e)) \<noteq> pid_chain (pe_pool_id e)
       then Inl ChainMismatch else Inr ())))"

section \<open>Deltas\<close>

record cpmm_pool_delta =
  cpd_reserve_0 :: "atomic_amount option"
  cpd_reserve_1 :: "atomic_amount option"
  cpd_total_lp_supply :: "atomic_amount option"
  cpd_fee_bps :: "bps option"

definition fee_validate :: "bps option \<Rightarrow> market_type_error + unit" where
  "fee_validate fee = (case fee of None \<Rightarrow> Inr () | Some f \<Rightarrow> bps_validate f)"

definition cpmm_delta_validate :: "cpmm_pool_delta \<Rightarrow> market_type_error + unit" where
  "cpmm_delta_validate d = fee_validate (cpd_fee_bps d)"

record clmm_pool_delta =
  cld_current_tick :: "i32 option"
  cld_sqrt_price_x64 :: "u128 option"
  cld_liquidity :: "u128 option"
  cld_fee_bps :: "bps option"
  cld_ticks :: "clmm_tick list"

fun clmm_delta_ticks_validate :: "clmm_tick list \<Rightarrow> market_type_error + unit" where
  "clmm_delta_ticks_validate [] = Inr ()"
| "clmm_delta_ticks_validate (tick # others) =
     (if \<not> (MIN_TICK \<le> tick_index tick \<and> tick_index tick \<le> MAX_TICK)
      then Inl (TickOutOfRange (tick_index tick) MIN_TICK MAX_TICK)
      else if tick_liquidity_gross tick < unsigned_abs (tick_liquidity_net tick)
      then Inl (InvalidTickLiquidity (tick_index tick))
      else if tick_liquidity_gross tick = 0 \<and> tick_liquidity_net tick \<noteq> 0
      then Inl (InvalidTickLiquidity (tick_index tick))
      else if list_ex (\<lambda>other. tick_index tick = tick_index other) others
      then Inl (DuplicateClmmTick (tick_index tick))
      else clmm_delta_ticks_validate others)"

definition clmm_delta_validate :: "clmm_pool_delta \<Rightarrow> market_type_error + unit" where
  "clmm_delta_validate d =
     bindR (case cld_current_tick d of
              None \<Rightarrow> Inr ()
            | Some ct \<Rightarrow> if \<not> (MIN_TICK \<le> ct \<and> ct \<le> MAX_TICK)
                         then Inl (TickOutOfRange ct MIN_TICK MAX_TICK) else Inr ()) (\<lambda>_.
     bindR (case cld_sqrt_price_x64 d of
              None \<Rightarrow> Inr ()
            | Some sq \<Rightarrow> if sq = 0 then Inl ZeroPrice else Inr ()) (\<lambda>_.
     bindR (fee_validate (cld_fee_bps d)) (\<lambda>_.
     if MAX_CLMM_DELTA_TICKS < length (cld_ticks d)
     then Inl (ClmmTicksExceeded (length (cld_ticks d)) MAX_CLMM_DELTA_TICKS)
     else clmm_delta_ticks_validate (cld_ticks d))))"

record bin_pool_delta =
  bnd_active_bin_id :: "i32 option"
  bnd_bin_step :: "u16 option"
  bnd_fee_bps :: "bps option"
  bnd_bins :: "liquidity_bin list"

fun delta_bins_validate :: "liquidity_bin list \<Rightarrow> market_type_error + unit" where
  "delta_bins_validate [] = Inr ()"
| "delta_bins_validate (bin # others) =
     (if \<not> (MIN_BIN_ID \<le> bin_id bin \<and> bin_id bin \<le> MAX_BIN_ID)
      then Inl (BinOutOfRange (bin_id bin) MIN_BIN_ID MAX_BIN_ID)
      else if list_ex (\<lambda>other. bin_id bin = bin_id other) others
      then Inl (DuplicateBin (bin_id bin))
      else delta_bins_validate others)"

definition bin_delta_validate :: "bin_pool_delta \<Rightarrow> market_type_error + unit" where
  "bin_delta_validate d =
     bindR (case bnd_active_bin_id d of
              None \<Rightarrow> Inr ()
            | Some i \<Rightarrow> if \<not> (MIN_BIN_ID \<le> i \<and> i \<le> MAX_BIN_ID)
                        then Inl (BinOutOfRange i MIN_BIN_ID MAX_BIN_ID) else Inr ()) (\<lambda>_.
     bindR (case bnd_bin_step d of
              None \<Rightarrow> Inr ()
            | Some step \<Rightarrow> if step = 0 \<or> MAX_BIN_STEP_BPS < step
                           then Inl (InvalidBinStep step) else Inr ()) (\<lambda>_.
     bindR (fee_validate (bnd_fee_bps d)) (\<lambda>_.
     if MAX_BIN_DELTA_BINS < length (bnd_bins d)
     then Inl (BinsExceeded (length (bnd_bins d)) MAX_BIN_DELTA_BINS)
     else delta_bins_validate (bnd_bins d))))"

datatype pool_kind_delta =
    PD_Cpmm cpmm_pool_delta
  | PD_Clmm clmm_pool_delta
  | PD_Bin bin_pool_delta

fun kind_delta_validate :: "pool_kind_delta \<Rightarrow> market_type_error + unit" where
  "kind_delta_validate (PD_Cpmm d) = cpmm_delta_validate d"
| "kind_delta_validate (PD_Clmm d) = clmm_delta_validate d"
| "kind_delta_validate (PD_Bin d) = bin_delta_validate d"

fun kind_delta_str :: "pool_kind_delta \<Rightarrow> string" where
  "kind_delta_str (PD_Cpmm _) = ''cpmm''"
| "kind_delta_str (PD_Clmm _) = ''clmm''"
| "kind_delta_str (PD_Bin _) = ''bin''"

record 'd pool_delta_envelope =
  de_pool_id :: pool_id
  de_sequence_range :: sequence_range
  de_observed_at_ms :: i64
  de_delta :: 'd

text \<open>The four envelope types run the same checks around the validation of their payload.\<close>

definition delta_envelope_validate ::
  "('d \<Rightarrow> market_type_error + unit) \<Rightarrow> 'd pool_delta_envelope \<Rightarrow> market_type_error + unit" where
  "delta_envelope_validate validate e =
     bindR (pool_id_validate (de_pool_id e)) (\<lambda>_.
     bindR (range_validate (de_sequence_range e)) (\<lambda>_.
     if de_observed_at_ms e \<le> 0 then Inl (InvalidTimestamp (de_observed_at_ms e))
     else bindR (validate (de_delta e)) (\<lambda>_. Inr ())))"

definition pool_delta_validate :: "pool_kind_delta pool_delta_envelope \<Rightarrow> market_type_error + unit" where
  "pool_delta_validate = delta_envelope_validate kind_delta_validate"

definition cpmm_delta_envelope_validate :: "cpmm_pool_delta pool_delta_envelope \<Rightarrow> market_type_error + unit" where
  "cpmm_delta_envelope_validate = delta_envelope_validate cpmm_delta_validate"

definition clmm_delta_envelope_validate :: "clmm_pool_delta pool_delta_envelope \<Rightarrow> market_type_error + unit" where
  "clmm_delta_envelope_validate = delta_envelope_validate clmm_delta_validate"

definition bin_delta_envelope_validate :: "bin_pool_delta pool_delta_envelope \<Rightarrow> market_type_error + unit" where
  "bin_delta_envelope_validate = delta_envelope_validate bin_delta_validate"

section \<open>Lemmas\<close>

text \<open>What validation says of a list of ticks or bins.\<close>

definition tick_ok :: "u32 \<Rightarrow> clmm_tick \<Rightarrow> bool" where
  "tick_ok spacing t \<longleftrightarrow>
     MIN_TICK \<le> tick_index t \<and> tick_index t \<le> MAX_TICK \<and> as_i32 spacing dvd tick_index t \<and>
     unsigned_abs (tick_liquidity_net t) \<le> tick_liquidity_gross t"

definition bin_ok :: "i32 \<Rightarrow> liquidity_bin \<Rightarrow> bool" where
  "bin_ok active b \<longleftrightarrow>
     MIN_BIN_ID \<le> bin_id b \<and> bin_id b \<le> MAX_BIN_ID \<and> \<not> (bin_reserve_0 b = 0 \<and> bin_reserve_1 b = 0) \<and>
     (bin_id b < active \<longrightarrow> bin_reserve_0 b = 0) \<and> (active < bin_id b \<longrightarrow> bin_reserve_1 b = 0)"

lemma clmm_ticks_validate_iff:
  "clmm_ticks_validate spacing prev ticks = Inr () \<longleftrightarrow>
     (\<forall>t\<in>set ticks. tick_ok spacing t) \<and>
     sorted_wrt (<) (map tick_index (case prev of None \<Rightarrow> ticks | Some p \<Rightarrow> p # ticks))"
proof (induction ticks arbitrary: prev)
  case Nil
  then show ?case by (auto split: option.splits)
next
  case (Cons t ts)
  have "sorted_wrt (<) (map tick_index (p # t # ts)) \<longleftrightarrow>
      tick_index p < tick_index t \<and> sorted_wrt (<) (map tick_index (t # ts))" for p
    by (auto dest: less_trans)
  then show ?case
    by (cases prev) (auto simp: Cons.IH tick_ok_def rust_rem_eq_0_iff result_iff not_less
        split: option.splits)
qed

lemma bins_validate_iff:
  "bins_validate active prev bins = Inr () \<longleftrightarrow>
     (\<forall>b\<in>set bins. bin_ok active b) \<and>
     sorted_wrt (<) (map bin_id (case prev of None \<Rightarrow> bins | Some p \<Rightarrow> p # bins))"
proof (induction bins arbitrary: prev)
  case Nil
  then show ?case by (auto split: option.splits)
next
  case (Cons b bs)
  have "sorted_wrt (<) (map bin_id (p # b # bs)) \<longleftrightarrow>
      bin_id p < bin_id b \<and> sorted_wrt (<) (map bin_id (b # bs))" for p
    by (auto dest: less_trans)
  then show ?case
    by (cases prev) (auto simp: Cons.IH bin_ok_def result_iff not_less split: option.splits)
qed

lemma clmm_delta_ticks_distinct:
  "clmm_delta_ticks_validate ticks = Inr () \<Longrightarrow> distinct (map tick_index ticks)"
  by (induction ticks) (auto simp: list_ex_iff split: if_splits)

lemma delta_bins_distinct: "delta_bins_validate bins = Inr () \<Longrightarrow> distinct (map bin_id bins)"
  by (induction bins) (auto simp: list_ex_iff split: if_splits)

text \<open>
  The spacing is cast to a signed integer before the remainder is taken, so a spacing of \<open>2 ^ 32 - 1\<close> is
  the divisor -1 and a tick that is no multiple of the spacing passes the check.
\<close>

lemma clmm_spacing_wraps:
  "clmm_ticks_validate 4294967295 None [\<lparr>tick_index = 1, tick_liquidity_gross = 0, tick_liquidity_net = 0\<rparr>] = Inr () \<and>
   \<not> uint (4294967295 :: u32) dvd 1"
  by (simp add: MIN_TICK_def MAX_TICK_def rust_rem_def as_i32_def unsigned_abs_def)

end
