(* ===== verification/Cpmm.thy ===== *)
theory Cpmm
  imports Wide_Arith Pool_State
begin

text \<open>
  The constant-product simulator: \<open>crates/simulation/src/cpmm.rs\<close> with the error types of
  \<open>crates/simulation/src/error.rs\<close>. The steps 8 to 12 of \<open>simulate_cpmm_exact_input\<close>, all
  its arithmetic, are \<open>cpmm_swap_math\<close>; the guards before them and the construction of the
  quote after them are in the function itself. The lemmas read the arithmetic on natural
  numbers (\<open>fee_of\<close>, \<open>effective\<close>, \<open>swap_out\<close>).
\<close>

section \<open>Errors, requests and quotes\<close>

datatype simulation_error =
    SE_InvalidPoolState market_type_error
  | SE_ZeroInputAmount
  | SE_ZeroReserve
  | SE_InvalidFeeBps u16
  | SE_AssetNotFoundInPool asset_id
  | SE_OutputAssetMismatch asset_id asset_id
  | SE_ChainMismatch
  | SE_ZeroEffectiveInput
  | SE_ZeroOutputAmount
  | SE_ImpossibleOutput
  | SE_ArithmeticOverflow
  | SE_InvariantViolated

datatype cpmm_simulation_error_class =
    CE_InvalidPoolState
  | CE_ZeroInputAmount
  | CE_ZeroReserve
  | CE_InvalidFeeBps
  | CE_AssetNotFoundInPool
  | CE_OutputAssetMismatch
  | CE_ChainMismatch
  | CE_ZeroEffectiveInput
  | CE_ZeroOutputAmount
  | CE_ImpossibleOutput
  | CE_ArithmeticOverflow
  | CE_InvariantViolated

fun error_class :: "simulation_error \<Rightarrow> cpmm_simulation_error_class" where
  "error_class (SE_InvalidPoolState _) = CE_InvalidPoolState"
| "error_class SE_ZeroInputAmount = CE_ZeroInputAmount"
| "error_class SE_ZeroReserve = CE_ZeroReserve"
| "error_class (SE_InvalidFeeBps _) = CE_InvalidFeeBps"
| "error_class (SE_AssetNotFoundInPool _) = CE_AssetNotFoundInPool"
| "error_class (SE_OutputAssetMismatch _ _) = CE_OutputAssetMismatch"
| "error_class SE_ChainMismatch = CE_ChainMismatch"
| "error_class SE_ZeroEffectiveInput = CE_ZeroEffectiveInput"
| "error_class SE_ZeroOutputAmount = CE_ZeroOutputAmount"
| "error_class SE_ImpossibleOutput = CE_ImpossibleOutput"
| "error_class SE_ArithmeticOverflow = CE_ArithmeticOverflow"
| "error_class SE_InvariantViolated = CE_InvariantViolated"

record exact_input_request =
  ei_token_in :: asset_id
  ei_amount_in :: atomic_amount
  ei_token_out :: "asset_id option"

definition exact_input_new :: "asset_id \<Rightarrow> atomic_amount \<Rightarrow> exact_input_request" where
  "exact_input_new token_in amount_in =
     \<lparr>ei_token_in = token_in, ei_amount_in = amount_in, ei_token_out = None\<rparr>"

definition exact_input_new_directed ::
  "asset_id \<Rightarrow> atomic_amount \<Rightarrow> asset_id \<Rightarrow> exact_input_request" where
  "exact_input_new_directed token_in amount_in token_out =
     \<lparr>ei_token_in = token_in, ei_amount_in = amount_in, ei_token_out = Some token_out\<rparr>"

record cpmm_simulation_quote =
  cq_input :: asset_amount
  cq_output :: asset_amount
  cq_pool_fee :: asset_amount
  cq_effective_input :: asset_amount
  cq_fee_bps :: bps
  cq_resulting_reserve_0 :: atomic_amount
  cq_resulting_reserve_1 :: atomic_amount
  cq_resulting_reserve_in :: atomic_amount
  cq_resulting_reserve_out :: atomic_amount

definition quote_price_ratio :: "cpmm_simulation_quote \<Rightarrow> simulation_error + price_ratio" where
  "quote_price_ratio q =
     map_err (\<lambda>_. SE_ZeroOutputAmount)
       (price_ratio_new (aa_amount (cq_output q)) (aa_amount (cq_input q)))"

record exact_output_request =
  eo_token_in :: asset_id
  eo_amount_out :: atomic_amount
  eo_token_out :: "asset_id option"

record cpmm_exact_output_quote =
  xq_input :: asset_amount
  xq_requested_output :: asset_amount
  xq_output :: asset_amount
  xq_pool_fee :: asset_amount
  xq_effective_input :: asset_amount
  xq_fee_bps :: bps
  xq_resulting_reserve_0 :: atomic_amount
  xq_resulting_reserve_1 :: atomic_amount
  xq_resulting_reserve_in :: atomic_amount
  xq_resulting_reserve_out :: atomic_amount

definition output_overshoot :: "cpmm_exact_output_quote \<Rightarrow> atomic_amount" where
  "output_overshoot q = saturating_sub (aa_amount (xq_output q)) (aa_amount (xq_requested_output q))"

section \<open>Exact input\<close>

text \<open>Direction of the swap: whether the input is token 0, for a token of the pool.\<close>

definition swap_direction :: "asset_id \<Rightarrow> asset_id \<Rightarrow> asset_id \<Rightarrow> simulation_error + bool" where
  "swap_direction token_in token_0 token_1 =
     (if token_in = token_0 then Inr True
      else if token_in = token_1 then Inr False
      else Inl (SE_AssetNotFoundInPool token_in))"

definition check_token_out :: "asset_id option \<Rightarrow> asset_id \<Rightarrow> simulation_error + unit" where
  "check_token_out requested token_out =
     (case requested of
        None \<Rightarrow> Inr ()
      | Some caller_out \<Rightarrow>
          if caller_out \<noteq> token_out then Inl (SE_OutputAssetMismatch token_out caller_out)
          else Inr ())"

text \<open>
  Fee, effective input, output and the resulting reserves of the input and the output side,
  with every check of the source in its order.
\<close>

definition cpmm_swap_math ::
  "u128 \<Rightarrow> u128 \<Rightarrow> u128 \<Rightarrow> u16 \<Rightarrow> simulation_error + (u128 \<times> u128 \<times> u128 \<times> u128 \<times> u128)" where
  "cpmm_swap_math amount_in_val reserve_in reserve_out fee_bps_val =
     bindR (ok_or SE_ArithmeticOverflow (checked_mul amount_in_val (ucast fee_bps_val))) (\<lambda>fee_numerator.
     let fee_val = fee_numerator div 10000 in
     bindR (ok_or SE_ArithmeticOverflow (checked_sub amount_in_val fee_val)) (\<lambda>effective_input_val.
     if effective_input_val = 0 then Inl SE_ZeroEffectiveInput
     else
       let (num_hi, num_lo) = mul_u128_wide effective_input_val reserve_out in
       bindR (ok_or SE_ArithmeticOverflow (checked_add reserve_in effective_input_val)) (\<lambda>denominator.
       bindR (ok_or SE_ArithmeticOverflow (div_u256_by_u128_floor num_hi num_lo denominator)) (\<lambda>amount_out_val.
       if amount_out_val = 0 then Inl SE_ZeroOutputAmount
       else if reserve_out \<le> amount_out_val then Inl SE_ImpossibleOutput
       else
         bindR (ok_or SE_ArithmeticOverflow (checked_add reserve_in amount_in_val)) (\<lambda>resulting_reserve_in.
         bindR (ok_or SE_ArithmeticOverflow (checked_sub reserve_out amount_out_val)) (\<lambda>resulting_reserve_out.
         if cmp_u128_products resulting_reserve_in resulting_reserve_out reserve_in reserve_out = Less
         then Inl SE_InvariantViolated
         else Inr (fee_val, effective_input_val, amount_out_val,
                   resulting_reserve_in, resulting_reserve_out)))))))"

definition simulate_cpmm_exact_input ::
  "cpmm_pool_state \<Rightarrow> exact_input_request \<Rightarrow> simulation_error + cpmm_simulation_quote" where
  "simulate_cpmm_exact_input pool request =
     bindR (map_err SE_InvalidPoolState (cpmm_validate pool)) (\<lambda>_.
     if ei_amount_in request = 0 then Inl SE_ZeroInputAmount
     else if cp_reserve_0 pool = 0 \<or> cp_reserve_1 pool = 0 then Inl SE_ZeroReserve
     else if asset_chain (ei_token_in request) \<noteq> asset_chain (cp_token_0 pool)
     then Inl SE_ChainMismatch
     else bindR (swap_direction (ei_token_in request) (cp_token_0 pool) (cp_token_1 pool)) (\<lambda>is_token_0_in.
     let (token_out, reserve_in, reserve_out) =
           (if is_token_0_in then (cp_token_1 pool, cp_reserve_0 pool, cp_reserve_1 pool)
            else (cp_token_0 pool, cp_reserve_1 pool, cp_reserve_0 pool)) in
     bindR (check_token_out (ei_token_out request) token_out) (\<lambda>_.
     let fee_bps_val = cp_fee_bps pool in
     if BPS_MAX \<le> fee_bps_val then Inl (SE_InvalidFeeBps fee_bps_val)
     else
       let amount_in_val = ei_amount_in request in
       bindR (cpmm_swap_math amount_in_val reserve_in reserve_out fee_bps_val)
         (\<lambda>(fee_val, effective_input_val, amount_out_val, resulting_reserve_in, resulting_reserve_out).
       let (resulting_reserve_0, resulting_reserve_1) =
             (if is_token_0_in then (resulting_reserve_in, resulting_reserve_out)
              else (resulting_reserve_out, resulting_reserve_in)) in
       Inr \<lparr>cq_input = \<lparr>aa_asset = ei_token_in request, aa_amount = ei_amount_in request\<rparr>,
            cq_output = \<lparr>aa_asset = token_out, aa_amount = amount_out_val\<rparr>,
            cq_pool_fee = \<lparr>aa_asset = ei_token_in request, aa_amount = fee_val\<rparr>,
            cq_effective_input = \<lparr>aa_asset = ei_token_in request, aa_amount = effective_input_val\<rparr>,
            cq_fee_bps = cp_fee_bps pool,
            cq_resulting_reserve_0 = resulting_reserve_0,
            cq_resulting_reserve_1 = resulting_reserve_1,
            cq_resulting_reserve_in = resulting_reserve_in,
            cq_resulting_reserve_out = resulting_reserve_out\<rparr>))))"

definition simulate_cpmm_swap ::
  "cpmm_pool_state \<Rightarrow> asset_id \<Rightarrow> atomic_amount \<Rightarrow> simulation_error + cpmm_simulation_quote" where
  "simulate_cpmm_swap pool token_in amount_in =
     simulate_cpmm_exact_input pool (exact_input_new token_in amount_in)"

definition simulate_cpmm_swap_directed ::
  "cpmm_pool_state \<Rightarrow> asset_id \<Rightarrow> atomic_amount \<Rightarrow> asset_id \<Rightarrow> simulation_error + cpmm_simulation_quote" where
  "simulate_cpmm_swap_directed pool token_in amount_in token_out =
     simulate_cpmm_exact_input pool (exact_input_new_directed token_in amount_in token_out)"

section \<open>Exact output\<close>

text \<open>Steps 8 to 10: the gross input the closed form asks for.\<close>

definition required_input :: "u128 \<Rightarrow> u128 \<Rightarrow> u128 \<Rightarrow> u16 \<Rightarrow> simulation_error + u128" where
  "required_input requested_out reserve_in reserve_out fee_bps_val =
     (if reserve_out \<le> requested_out then Inl SE_ImpossibleOutput
      else
        let denominator = reserve_out - requested_out;
            (numerator_hi, numerator_lo) = mul_u128_wide reserve_in requested_out in
        bindR (ok_or SE_ArithmeticOverflow
                 (div_u256_by_u128_ceil numerator_hi numerator_lo denominator)) (\<lambda>effective_min.
        if effective_min = 0 then Inl SE_InvariantViolated
        else
          let fee_denominator = 10000 - ucast fee_bps_val;
              (scaled_hi, scaled_lo) = mul_u128_wide 10000 (effective_min - 1);
              (threshold_lo, carry) = overflowing_add scaled_lo 1 in
          bindR (if carry then ok_or SE_ArithmeticOverflow (checked_add scaled_hi 1)
                 else Inr scaled_hi) (\<lambda>threshold_hi.
          bindR (ok_or SE_ArithmeticOverflow
                   (div_u256_by_u128_ceil threshold_hi threshold_lo fee_denominator)) (\<lambda>amount_in.
          if amount_in = 0 then Inl SE_InvariantViolated else Inr amount_in))))"

text \<open>Steps 11 to 13: the realised quote and the check that one unit less is not enough.\<close>

definition check_previous ::
  "cpmm_pool_state \<Rightarrow> asset_id \<Rightarrow> asset_id \<Rightarrow> u128 \<Rightarrow> u128 \<Rightarrow> simulation_error + unit" where
  "check_previous pool token_in token_out amount_in requested_out =
     (if 1 < amount_in then
        case simulate_cpmm_exact_input pool
               (exact_input_new_directed token_in (amount_in - 1) token_out) of
          Inr previous \<Rightarrow>
            if requested_out \<le> aa_amount (cq_output previous) then Inl SE_InvariantViolated
            else Inr ()
        | Inl SE_ZeroOutputAmount \<Rightarrow> Inr ()
        | Inl SE_ZeroEffectiveInput \<Rightarrow> Inr ()
        | Inl other \<Rightarrow> Inl other
      else Inr ())"

definition simulate_cpmm_exact_output ::
  "cpmm_pool_state \<Rightarrow> exact_output_request \<Rightarrow> simulation_error + cpmm_exact_output_quote" where
  "simulate_cpmm_exact_output pool request =
     bindR (map_err SE_InvalidPoolState (cpmm_validate pool)) (\<lambda>_.
     if eo_amount_out request = 0 then Inl SE_ZeroOutputAmount
     else if cp_reserve_0 pool = 0 \<or> cp_reserve_1 pool = 0 then Inl SE_ZeroReserve
     else if asset_chain (eo_token_in request) \<noteq> asset_chain (cp_token_0 pool)
     then Inl SE_ChainMismatch
     else bindR (swap_direction (eo_token_in request) (cp_token_0 pool) (cp_token_1 pool)) (\<lambda>is_token_0_in.
     let (token_out, reserve_in, reserve_out) =
           (if is_token_0_in then (cp_token_1 pool, cp_reserve_0 pool, cp_reserve_1 pool)
            else (cp_token_0 pool, cp_reserve_1 pool, cp_reserve_0 pool)) in
     bindR (check_token_out (eo_token_out request) token_out) (\<lambda>_.
     let fee_bps_val = cp_fee_bps pool in
     if BPS_MAX \<le> fee_bps_val then Inl (SE_InvalidFeeBps fee_bps_val)
     else
       let requested_out = eo_amount_out request in
       bindR (required_input requested_out reserve_in reserve_out fee_bps_val) (\<lambda>amount_in.
       bindR (simulate_cpmm_exact_input pool
                (exact_input_new_directed (eo_token_in request) amount_in token_out)) (\<lambda>realized.
       if aa_amount (cq_output realized) < requested_out then Inl SE_InvariantViolated
       else bindR (check_previous pool (eo_token_in request) token_out amount_in requested_out) (\<lambda>_.
       Inr \<lparr>xq_input = cq_input realized,
            xq_requested_output = \<lparr>aa_asset = token_out, aa_amount = eo_amount_out request\<rparr>,
            xq_output = cq_output realized,
            xq_pool_fee = cq_pool_fee realized,
            xq_effective_input = cq_effective_input realized,
            xq_fee_bps = cq_fee_bps realized,
            xq_resulting_reserve_0 = cq_resulting_reserve_0 realized,
            xq_resulting_reserve_1 = cq_resulting_reserve_1 realized,
            xq_resulting_reserve_in = cq_resulting_reserve_in realized,
            xq_resulting_reserve_out = cq_resulting_reserve_out realized\<rparr>))))))"

section \<open>The arithmetic on natural numbers\<close>

definition fee_of :: "nat \<Rightarrow> nat \<Rightarrow> nat" where
  "fee_of a f = a * f div 10000"

definition effective :: "nat \<Rightarrow> nat \<Rightarrow> nat" where
  "effective a f = a - fee_of a f"

definition swap_out :: "nat \<Rightarrow> nat \<Rightarrow> nat \<Rightarrow> nat" where
  "swap_out e rin rout = e * rout div (rin + e)"

lemma effective_ceil:
  assumes "f \<le> 10000"
  shows "effective a f = ceil_div (a * (10000 - f)) 10000"
proof (rule antisym)
  have "a * f \<le> a * 10000" using assms by simp
  have d: "a * (10000 - f) = a * 10000 - a * f" by (simp add: diff_mult_distrib2)
  have m: "a * f = fee_of a f * 10000 + a * f mod 10000" "a * f mod 10000 < 10000"
    by (simp_all add: fee_of_def)
  show "ceil_div (a * (10000 - f)) 10000 \<le> effective a f"
    using m \<open>a * f \<le> a * 10000\<close> by (subst ceil_div_le_iff) (simp_all add: d effective_def diff_mult_distrib)
  show "effective a f \<le> ceil_div (a * (10000 - f)) 10000"
  proof (rule ccontr)
    assume "\<not> ?thesis"
    then have "ceil_div (a * (10000 - f)) 10000 \<le> effective a f - 1" "0 < effective a f" by simp_all
    then have "a * (10000 - f) \<le> (effective a f - 1) * 10000" by (subst (asm) ceil_div_le_iff) simp_all
    with m \<open>0 < effective a f\<close> \<open>a * f \<le> a * 10000\<close> show False
      by (simp add: d effective_def diff_mult_distrib)
  qed
qed

lemma effective_bounds: "effective a f \<le> a" "f < 10000 \<Longrightarrow> 0 < a \<Longrightarrow> 0 < effective a f"
proof -
  show "effective a f \<le> a" by (simp add: effective_def)
  assume "f < 10000" "0 < a"
  then have "a * f < a * 10000" by simp
  then have "fee_of a f < a" by (simp add: fee_of_def div_less_iff_less_mult)
  then show "0 < effective a f" by (simp add: effective_def)
qed

lemma effective_mono: "f \<le> 10000 \<Longrightarrow> a \<le> b \<Longrightarrow> effective a f \<le> effective b f"
  by (simp add: effective_ceil ceil_div_mono)

text \<open>The least gross input whose effective part reaches \<open>m\<close>.\<close>

lemma effective_ge_iff:
  assumes "f < 10000" and "0 < m"
  shows "m \<le> effective a f \<longleftrightarrow> ceil_div (10000 * (m - 1) + 1) (10000 - f) \<le> a"
proof -
  have "m \<le> effective a f \<longleftrightarrow> m - 1 < ceil_div (a * (10000 - f)) 10000"
    using assms by (auto simp: effective_ceil)
  also have "\<dots> \<longleftrightarrow> (m - 1) * 10000 < a * (10000 - f)" by (simp add: less_ceil_div_iff)
  also have "\<dots> \<longleftrightarrow> 10000 * (m - 1) + 1 \<le> a * (10000 - f)" by (simp add: mult.commute Suc_le_eq)
  also have "\<dots> \<longleftrightarrow> ceil_div (10000 * (m - 1) + 1) (10000 - f) \<le> a"
    using assms(1) by (simp add: ceil_div_le_iff)
  finally show ?thesis .
qed

lemma swap_out_ge_iff:
  assumes "0 < rin" and "r < rout"
  shows "r \<le> swap_out e rin rout \<longleftrightarrow> ceil_div (rin * r) (rout - r) \<le> e"
proof -
  have "r \<le> swap_out e rin rout \<longleftrightarrow> r * (rin + e) \<le> e * rout"
    using assms(1) by (simp add: swap_out_def less_eq_div_iff_mult_less_eq)
  also have "\<dots> \<longleftrightarrow> rin * r \<le> e * (rout - r)"
  proof -
    obtain d where "rout = r + d" using assms(2) by (metis less_imp_add_positive)
    then show ?thesis by (auto simp: algebra_simps)
  qed
  also have "\<dots> \<longleftrightarrow> ceil_div (rin * r) (rout - r) \<le> e"
    using assms(2) by (simp add: ceil_div_le_iff)
  finally show ?thesis .
qed

lemma swap_out_less: "0 < rin \<Longrightarrow> 0 < rout \<Longrightarrow> swap_out e rin rout < rout"
  by (simp add: swap_out_def div_less_iff_less_mult algebra_simps)

lemma swap_out_mult: "0 < rin \<Longrightarrow> swap_out e rin rout * (rin + e) \<le> e * rout"
  by (simp add: swap_out_def)

lemma swap_out_mono:
  assumes "0 < rin" and "e \<le> e'"
  shows "swap_out e rin rout \<le> swap_out e' rin rout"
proof (cases "rout = 0")
  case False
  let ?r = "swap_out e rin rout"
  have "?r < rout" using assms(1) False by (simp add: swap_out_less)
  then show ?thesis using assms swap_out_ge_iff [of rin ?r rout] by (meson order_refl order_trans)
qed (simp add: swap_out_def)

text \<open>The constant product never shrinks: the pool keeps the fee and the rounding.\<close>

lemma product_kept:
  assumes "0 < rin" and "0 < rout" and "e \<le> a"
  shows "rin * rout \<le> (rin + a) * (rout - swap_out e rin rout)"
proof -
  let ?o = "swap_out e rin rout"
  have "?o \<le> rout" using swap_out_less [OF assms(1,2)] by (simp add: less_imp_le)
  moreover have "?o * (rin + e) \<le> e * rout" using swap_out_mult [OF assms(1)] .
  ultimately have "rin * rout \<le> (rin + e) * (rout - ?o)"
    by (auto simp: diff_mult_distrib2 algebra_simps)
  also have "\<dots> \<le> (rin + a) * (rout - ?o)" using assms(3) by simp
  finally show ?thesis .
qed

section \<open>The machine arithmetic computes it\<close>

lemma unat_ucast_fee: "unat (ucast (f :: u16) :: u128) = unat f"
proof -
  have "unat f < 2 ^ 128" using unat_bound [of f] by simp
  then show ?thesis by (simp add: unat_narrow)
qed

text \<open>What \<open>cpmm_swap_math\<close> returns, on every branch, for arguments that pass the guards.\<close>

definition swap_result ::
  "nat \<Rightarrow> nat \<Rightarrow> nat \<Rightarrow> nat \<Rightarrow> simulation_error + (u128 \<times> u128 \<times> u128 \<times> u128 \<times> u128)" where
  "swap_result a rin rout f =
     (let e = effective a f; out = swap_out e rin rout in
      if 2 ^ 128 \<le> a * f \<or> 2 ^ 128 \<le> rin + e then Inl SE_ArithmeticOverflow
      else if out = 0 then Inl SE_ZeroOutputAmount
      else if 2 ^ 128 \<le> rin + a then Inl SE_ArithmeticOverflow
      else Inr (of_nat (fee_of a f), of_nat e, of_nat out, of_nat (rin + a), of_nat (rout - out)))"

lemma of_nat_unat_eq: "unat w = n \<Longrightarrow> w = of_nat n"
  by auto

lemma checked_add_of_nat:
  "checked_add a b = (if unat a + unat b < 2 ^ LENGTH('a) then Some (of_nat (unat a + unat b)) else None)"
  for a b :: "'a::len word"
  by (simp add: checked_add_def)

text \<open>The tail of the computation, from the effective input on.\<close>

definition cpmm_swap_tail ::
  "u128 \<Rightarrow> u128 \<Rightarrow> u128 \<Rightarrow> u128 \<Rightarrow> u128 \<Rightarrow> simulation_error + (u128 \<times> u128 \<times> u128 \<times> u128 \<times> u128)" where
  "cpmm_swap_tail a rin rout fee eff =
     (let (num_hi, num_lo) = mul_u128_wide eff rout in
      bindR (ok_or SE_ArithmeticOverflow (checked_add rin eff)) (\<lambda>denominator.
      bindR (ok_or SE_ArithmeticOverflow (div_u256_by_u128_floor num_hi num_lo denominator)) (\<lambda>out.
      if out = 0 then Inl SE_ZeroOutputAmount
      else if rout \<le> out then Inl SE_ImpossibleOutput
      else
        bindR (ok_or SE_ArithmeticOverflow (checked_add rin a)) (\<lambda>rin'.
        bindR (ok_or SE_ArithmeticOverflow (checked_sub rout out)) (\<lambda>rout'.
        if cmp_u128_products rin' rout' rin rout = Less then Inl SE_InvariantViolated
        else Inr (fee, eff, out, rin', rout'))))))"

lemma cpmm_swap_tail_eq:
  assumes "rin \<noteq> 0" "rout \<noteq> 0" "eff \<le> a"
  defines "out \<equiv> swap_out (unat eff) (unat rin) (unat rout)"
  shows "cpmm_swap_tail a rin rout fee eff =
    (if 2 ^ 128 \<le> unat rin + unat eff then Inl SE_ArithmeticOverflow
     else if out = 0 then Inl SE_ZeroOutputAmount
     else if 2 ^ 128 \<le> unat rin + unat a then Inl SE_ArithmeticOverflow
     else Inr (fee, eff, of_nat out, of_nat (unat rin + unat a), of_nat (unat rout - out)))"
proof -
  have p: "0 < unat rin" "0 < unat rout" using assms by (simp_all add: unat_gt_0)
  have out_less: "out < unat rout" using swap_out_less [OF p] by (simp add: out_def)
  then have uout: "unat (of_nat out :: u128) = out"
    using u128_bound [of rout] by (simp add: unat_of_nat_bound)
  obtain hi lo where hl: "mul_u128_wide eff rout = (hi, lo)" by fastforce
  have add: "checked_add rin a = (if unat rin + unat a < 2 ^ 128 then Some (of_nat (unat rin + unat a)) else None)"
    by (simp add: checked_add_of_nat)
  have sub: "checked_sub rout (of_nat out) = Some (of_nat (unat rout - out))"
    using out_less u128_bound [of rout]
    by (simp add: checked_sub_Some_iff uout unat_of_nat_bound del: of_nat_diff)
  have kept: "unat rin * unat rout \<le> (unat rin + unat a) * (unat rout - out)"
    unfolding out_def using assms(3) by (intro product_kept p) (simp add: word_le_nat_alt)
  show ?thesis
  proof (cases "checked_add rin eff")
    case None
    then have "2 ^ 128 \<le> unat rin + unat eff" by (simp add: checked_add_None_iff)
    with None show ?thesis by (simp add: cpmm_swap_tail_def hl)
  next
    case (Some den)
    then have den: "unat den = unat rin + unat eff" by (simp only: checked_add_Some_iff)
    have small: "unat rin + unat eff < 2 ^ 128" using u128_bound [of den] by (simp only: den)
    have "den \<noteq> 0" using den p by (metis add_is_0 less_not_refl unat_0)
    moreover have "unat (of_nat out :: u128) = unat eff * unat rout div unat den"
      using uout by (simp only: den out_def swap_out_def)
    ultimately have "div_u256_by_u128_floor hi lo den = Some (of_nat out)"
      using mul_div_floor_Some_iff [where a = eff and b = rout and den = den and q = "of_nat out"]
      by (simp add: hl)
    moreover have "(of_nat out :: u128) = 0 \<longleftrightarrow> out = 0" using uout by (metis unat_eq_0 of_nat_0)
    moreover have "\<not> rout \<le> of_nat out" using out_less by (simp add: word_le_nat_alt uout)
    ultimately show ?thesis
      using Some small kept u128_bound [of rout] unat_add_no_overflow [of rin a]
      by (auto simp: cpmm_swap_tail_def hl add sub cmp_u128_products_eq unat_of_nat_bound not_less
          simp del: of_nat_diff)
  qed
qed

lemma cpmm_swap_math_eq:
  assumes pos: "a \<noteq> 0" "rin \<noteq> 0" "rout \<noteq> 0" and f: "f < BPS_MAX"
  shows "cpmm_swap_math a rin rout f = swap_result (unat a) (unat rin) (unat rout) (unat f)"
proof (cases "checked_mul a (ucast f)")
  case None
  then have "2 ^ 128 \<le> unat a * unat f" by (simp add: checked_mul_None_iff unat_ucast_fee)
  with None show ?thesis by (simp add: cpmm_swap_math_def swap_result_def)
next
  case (Some m)
  define A F E where d: "A = unat a" "F = unat f" "E = effective A F"
  have "0 < A" using pos by (simp add: d unat_gt_0)
  moreover have "F < 10000" using f by (simp add: d BPS_MAX_def word_less_nat_alt)
  ultimately have E: "0 < E" "E \<le> A" by (simp_all add: d effective_bounds)
  have m: "unat m = A * F" using Some by (simp add: checked_mul_Some_iff unat_ucast_fee d)
  have AF: "A * F < 2 ^ 128" using u128_bound [of m] by (simp only: m)
  have fee: "unat (m div 10000) = fee_of A F" by (simp add: unat_div m fee_of_def)
  have ueff: "unat (of_nat E :: u128) = E"
    using E(2) u128_bound [of a] by (simp add: unat_of_nat_bound d)
  have sub: "checked_sub a (m div 10000) = Some (of_nat E)"
    using E by (simp only: checked_sub_Some_iff fee ueff) (simp add: d effective_def)
  have "(of_nat E :: u128) \<noteq> 0" using E(1) ueff by (metis less_not_refl unat_0)
  then have "cpmm_swap_math a rin rout f = cpmm_swap_tail a rin rout (m div 10000) (of_nat E)"
    by (simp add: cpmm_swap_math_def cpmm_swap_tail_def Some sub)
  also have "\<dots> = swap_result A (unat rin) (unat rout) F"
    using E(2) AF pos of_nat_unat_eq [OF fee]
    by (subst cpmm_swap_tail_eq) (simp_all add: word_le_nat_alt ueff swap_result_def Let_def flip: d)
  finally show ?thesis by (simp only: d)
qed


section \<open>The two simulators\<close>

text \<open>The sides of a swap, and when a pool and a pair of tokens pass the guards.\<close>

definition token_out_of :: "cpmm_pool_state \<Rightarrow> asset_id \<Rightarrow> asset_id" where
  "token_out_of pool t = (if t = cp_token_0 pool then cp_token_1 pool else cp_token_0 pool)"

definition reserve_in_of :: "cpmm_pool_state \<Rightarrow> asset_id \<Rightarrow> u128" where
  "reserve_in_of pool t = (if t = cp_token_0 pool then cp_reserve_0 pool else cp_reserve_1 pool)"

definition reserve_out_of :: "cpmm_pool_state \<Rightarrow> asset_id \<Rightarrow> u128" where
  "reserve_out_of pool t = (if t = cp_token_0 pool then cp_reserve_1 pool else cp_reserve_0 pool)"

definition swap_ready :: "cpmm_pool_state \<Rightarrow> asset_id \<Rightarrow> asset_id option \<Rightarrow> bool" where
  "swap_ready pool t t_out \<longleftrightarrow>
     cpmm_validate pool = Inr () \<and> cp_reserve_0 pool \<noteq> 0 \<and> cp_reserve_1 pool \<noteq> 0 \<and>
     (t = cp_token_0 pool \<or> t = cp_token_1 pool) \<and>
     (t_out = None \<or> t_out = Some (token_out_of pool t)) \<and> cp_fee_bps pool < BPS_MAX"

definition swap_result_of ::
  "cpmm_pool_state \<Rightarrow> asset_id \<Rightarrow> u128 \<Rightarrow> simulation_error + (u128 \<times> u128 \<times> u128 \<times> u128 \<times> u128)" where
  "swap_result_of pool t a =
     swap_result (unat a) (unat (reserve_in_of pool t)) (unat (reserve_out_of pool t)) (unat (cp_fee_bps pool))"

definition quote_of ::
  "cpmm_pool_state \<Rightarrow> asset_id \<Rightarrow> u128 \<Rightarrow> u128 \<times> u128 \<times> u128 \<times> u128 \<times> u128 \<Rightarrow> cpmm_simulation_quote" where
  "quote_of pool t a = (\<lambda>(fee, eff, out, rin', rout').
     \<lparr>cq_input = \<lparr>aa_asset = t, aa_amount = a\<rparr>,
      cq_output = \<lparr>aa_asset = token_out_of pool t, aa_amount = out\<rparr>,
      cq_pool_fee = \<lparr>aa_asset = t, aa_amount = fee\<rparr>,
      cq_effective_input = \<lparr>aa_asset = t, aa_amount = eff\<rparr>,
      cq_fee_bps = cp_fee_bps pool,
      cq_resulting_reserve_0 = (if t = cp_token_0 pool then rin' else rout'),
      cq_resulting_reserve_1 = (if t = cp_token_0 pool then rout' else rin'),
      cq_resulting_reserve_in = rin',
      cq_resulting_reserve_out = rout'\<rparr>)"

lemma validate_same_chain:
  "cpmm_validate pool = Inr () \<Longrightarrow> asset_chain (cp_token_0 pool) = asset_chain (cp_token_1 pool)"
  by (auto simp: cpmm_validate_def pool_tokens_validate_def result_iff split: if_splits)

lemmas swap_sides = token_out_of_def reserve_in_of_def reserve_out_of_def

lemma swap_ready_reserves:
  "swap_ready pool t t_out \<Longrightarrow> reserve_in_of pool t \<noteq> 0 \<and> reserve_out_of pool t \<noteq> 0"
  by (auto simp: swap_ready_def swap_sides)

lemma simulate_ready:
  assumes "swap_ready pool (ei_token_in req) (ei_token_out req)" and "ei_amount_in req \<noteq> 0"
  shows "simulate_cpmm_exact_input pool req =
    bindR (swap_result_of pool (ei_token_in req) (ei_amount_in req))
      (\<lambda>r. Inr (quote_of pool (ei_token_in req) (ei_amount_in req) r))"
proof -
  let ?t = "ei_token_in req"
  have chain: "asset_chain ?t = asset_chain (cp_token_0 pool)"
    using assms(1) validate_same_chain by (auto simp: swap_ready_def)
  have math: "cpmm_swap_math (ei_amount_in req) (reserve_in_of pool ?t) (reserve_out_of pool ?t) (cp_fee_bps pool)
      = swap_result_of pool ?t (ei_amount_in req)"
    unfolding swap_result_of_def using assms swap_ready_reserves [OF assms(1)]
    by (intro cpmm_swap_math_eq) (simp_all add: swap_ready_def)
  show ?thesis
    using assms chain math
    by (auto simp: simulate_cpmm_exact_input_def swap_ready_def swap_direction_def check_token_out_def
        Let_def swap_sides quote_of_def case_prod_beta split: if_splits option.splits
        intro!: arg_cong [where f = "bindR _"])
qed

lemma simulate_not_ready:
  assumes "\<not> (swap_ready pool (ei_token_in req) (ei_token_out req) \<and> ei_amount_in req \<noteq> 0)"
  shows "\<exists>e. simulate_cpmm_exact_input pool req = Inl e \<and>
    error_class e \<in> {CE_InvalidPoolState, CE_ZeroInputAmount, CE_ZeroReserve, CE_ChainMismatch,
      CE_AssetNotFoundInPool, CE_OutputAssetMismatch, CE_InvalidFeeBps}"
  using assms
  by (cases "cpmm_validate pool")
    (auto simp: simulate_cpmm_exact_input_def swap_ready_def swap_direction_def check_token_out_def
      Let_def token_out_of_def not_less split: option.splits)

text \<open>The 256-bit increment of the exact-output inversion never overflows.\<close>

lemma wide_increment:
  assumes "mul_u128_wide 10000 w = (hi, lo)" and "overflowing_add lo 1 = (lo', carry)"
  shows "\<exists>hi'. (if carry then ok_or e (checked_add hi 1) else Inr hi) = Inr hi' \<and>
    u256 hi' lo' = 10000 * unat w + 1"
proof -
  have v: "u256 hi lo = 10000 * unat w" using mul_u128_wide_u256 [OF assms(1)] by simp
  have lo': "lo' = lo + 1" "carry \<longleftrightarrow> 2 ^ 128 \<le> unat lo + 1"
    using assms(2) by (auto simp: overflowing_add_def)
  show ?thesis
  proof (cases carry)
    case False
    then have "unat lo' = unat lo + 1" using lo' by (simp add: unat_add_no_overflow)
    with False v show ?thesis by (auto simp: u256_def)
  next
    case True
    have "unat lo = 2 ^ 128 - 1" using True lo' u128_bound [of lo] by simp
    then have "unat lo' = 0" unfolding lo' by (subst unat_word_ariths(1)) simp
    moreover have "unat hi + 1 < 2 ^ 128"
    proof -
      have "unat hi * 2 ^ 128 \<le> 10000 * unat w" using v by (simp add: u256_def)
      with u128_bound [of w] show ?thesis by simp
    qed
    then obtain hi' where "checked_add hi 1 = Some hi'" "unat hi' = unat hi + 1"
      by (simp add: checked_add_def unat_add_no_overflow)
    ultimately show ?thesis
      using True v \<open>unat lo = 2 ^ 128 - 1\<close> by (auto simp: u256_def)
  qed
qed

lemma div_u256_by_u128_ceil_of_nat:
  "den \<noteq> 0 \<Longrightarrow> div_u256_by_u128_ceil hi lo den =
     (let c = ceil_div (u256 hi lo) (unat den) in if c < 2 ^ 128 then Some (of_nat c) else None)"
proof (cases "div_u256_by_u128_ceil hi lo den")
  case None
  assume den: "den \<noteq> 0"
  have "\<not> ceil_div (u256 hi lo) (unat den) < 2 ^ 128"
  proof
    assume "ceil_div (u256 hi lo) (unat den) < 2 ^ 128"
    then have "div_u256_by_u128_ceil hi lo den = Some (of_nat (ceil_div (u256 hi lo) (unat den)))"
      using den by (simp add: div_u256_by_u128_ceil_fits unat_of_nat_bound)
    with None show False by simp
  qed
  with None show ?thesis by simp
next
  case (Some q)
  assume "den \<noteq> 0"
  have "unat q = ceil_div (u256 hi lo) (unat den)"
    using Some by (simp only: div_u256_by_u128_ceil_fits)
  with Some u128_bound [of q] of_nat_unat_eq [OF this] show ?thesis by (simp add: Let_def)
qed

text \<open>The gross input in closed form, and what the machine computes of it.\<close>

definition effective_min :: "nat \<Rightarrow> nat \<Rightarrow> nat \<Rightarrow> nat" where
  "effective_min r rin rout = ceil_div (rin * r) (rout - r)"

definition gross_min :: "nat \<Rightarrow> nat \<Rightarrow> nat" where
  "gross_min m f = ceil_div (10000 * (m - 1) + 1) (10000 - f)"

lemma effective_min_pos: "0 < r \<Longrightarrow> 0 < rin \<Longrightarrow> r < rout \<Longrightarrow> 0 < effective_min r rin rout"
  by (simp add: effective_min_def less_ceil_div_iff)

lemma gross_min_pos: "f < 10000 \<Longrightarrow> 0 < gross_min m f"
  by (simp add: gross_min_def less_ceil_div_iff)

lemma required_input_eq:
  assumes "r \<noteq> 0" "rin \<noteq> 0" "r < rout" "f < BPS_MAX"
  defines "m \<equiv> effective_min (unat r) (unat rin) (unat rout)"
  shows "required_input r rin rout f =
    (if 2 ^ 128 \<le> m \<or> 2 ^ 128 \<le> gross_min m (unat f) then Inl SE_ArithmeticOverflow
     else Inr (of_nat (gross_min m (unat f))))"
proof -
  have less: "unat r < unat rout" using assms(3) by (simp add: word_less_nat_alt)
  have f: "unat f < 10000" using assms(4) by (simp add: BPS_MAX_def word_less_nat_alt)
  have m_pos: "0 < m" using assms less by (simp add: m_def effective_min_pos unat_gt_0)
  have den: "unat (rout - r) = unat rout - unat r" using less by (simp add: unat_sub_no_underflow)
  then have den0: "rout - r \<noteq> 0" using less by auto
  obtain nh nl where n: "mul_u128_wide rin r = (nh, nl)" by fastforce
  then have nv: "u256 nh nl = unat rin * unat r" by (rule mul_u128_wide_u256)
  have m: "div_u256_by_u128_ceil nh nl (rout - r) = (if m < 2 ^ 128 then Some (of_nat m) else None)"
    by (simp only: div_u256_by_u128_ceil_of_nat [OF den0] nv den m_def effective_min_def Let_def)
  show ?thesis
  proof (cases "m < 2 ^ 128")
    case False
    with m n assms(3) show ?thesis by (simp add: required_input_def)
  next
    case True
    then have um: "unat (of_nat m :: u128) = m" by (simp add: unat_of_nat_bound)
    then have um1: "unat (of_nat m - 1 :: u128) = m - 1" using m_pos by (simp add: unat_sub_no_underflow)
    have fd: "unat (10000 - ucast f :: u128) = 10000 - unat f"
      using f by (simp add: unat_sub_no_underflow unat_ucast_fee)
    then have fd0: "(10000 - ucast f :: u128) \<noteq> 0" using f by (metis unat_0 zero_less_diff less_not_refl)
    obtain sh sl tl c where s: "mul_u128_wide 10000 (of_nat m - 1) = (sh, sl)" "overflowing_add sl 1 = (tl, c)"
      by fastforce
    obtain th where th: "(if c then ok_or SE_ArithmeticOverflow (checked_add sh 1) else Inr sh) = Inr th"
      "u256 th tl = 10000 * (m - 1) + 1"
      using wide_increment [OF s] um1 by metis
    have a: "div_u256_by_u128_ceil th tl (10000 - ucast f)
        = (if gross_min m (unat f) < 2 ^ 128 then Some (of_nat (gross_min m (unat f))) else None)"
      by (simp only: div_u256_by_u128_ceil_of_nat [OF fd0] th fd gross_min_def Let_def)
    have "(of_nat m :: u128) \<noteq> 0" using um m_pos by auto
    moreover have "(of_nat (gross_min m (unat f)) :: u128) \<noteq> 0" if "gross_min m (unat f) < 2 ^ 128"
      using gross_min_pos [OF f, of m] unat_of_nat_bound [where 'a = 128, of "gross_min m (unat f)"] that by auto
    ultimately show ?thesis
      using True m n assms(3) s th(1) a by (simp add: required_input_def Let_def)
  qed
qed


lemma output_enough_iff:
  assumes "0 < rin" and "0 < r" and "r < rout" and "f < 10000"
  shows "r \<le> swap_out (effective a f) rin rout \<longleftrightarrow> gross_min (effective_min r rin rout) f \<le> a"
  using assms
  by (simp add: swap_out_ge_iff effective_ge_iff effective_min_pos gross_min_def flip: effective_min_def)

lemma swap_result_Inr_iff:
  "swap_result a rin rout f = Inr r \<longleftrightarrow>
     a * f < 2 ^ 128 \<and> rin + a < 2 ^ 128 \<and> 0 < swap_out (effective a f) rin rout \<and>
     r = (of_nat (fee_of a f), of_nat (effective a f), of_nat (swap_out (effective a f) rin rout),
          of_nat (rin + a), of_nat (rout - swap_out (effective a f) rin rout))"
proof -
  have "rin + effective a f \<le> rin + a" using effective_bounds(1) [of a f] by simp
  then show ?thesis
    by (cases r) (simp add: swap_result_def Let_def not_le, linarith?, auto)
qed

lemma swap_result_errors:
  "swap_result a rin rout f = Inl e \<Longrightarrow> e = SE_ArithmeticOverflow \<or> e = SE_ZeroOutputAmount"
  by (auto simp: swap_result_def Let_def split: if_splits)

lemma swap_result_smaller:
  assumes "swap_result a rin rout f = Inr r" and "a' \<le> a"
  shows "(\<exists>r'. swap_result a' rin rout f = Inr r') \<or> swap_result a' rin rout f = Inl SE_ZeroOutputAmount"
proof -
  have "a * f < 2 ^ 128" "rin + a < 2 ^ 128" using assms(1) by (simp_all add: swap_result_Inr_iff)
  moreover have "a' * f < 2 ^ 128" by (rule le_less_trans [OF mult_le_mono1 [OF assms(2)] calculation(1)])
  ultimately show ?thesis
    using assms(2) effective_bounds(1) [of a' f] by (auto simp: swap_result_def Let_def)
qed

definition output_quote :: "atomic_amount \<Rightarrow> cpmm_simulation_quote \<Rightarrow> cpmm_exact_output_quote" where
  "output_quote r q =
     \<lparr>xq_input = cq_input q,
      xq_requested_output = \<lparr>aa_asset = aa_asset (cq_output q), aa_amount = r\<rparr>,
      xq_output = cq_output q, xq_pool_fee = cq_pool_fee q, xq_effective_input = cq_effective_input q,
      xq_fee_bps = cq_fee_bps q, xq_resulting_reserve_0 = cq_resulting_reserve_0 q,
      xq_resulting_reserve_1 = cq_resulting_reserve_1 q,
      xq_resulting_reserve_in = cq_resulting_reserve_in q,
      xq_resulting_reserve_out = cq_resulting_reserve_out q\<rparr>"

lemma unat_output:
  assumes "swap_ready pool t t_out" and "swap_result_of pool t a = Inr r"
  shows "unat (aa_amount (cq_output (quote_of pool t a r))) =
    swap_out (effective (unat a) (unat (cp_fee_bps pool))) (unat (reserve_in_of pool t)) (unat (reserve_out_of pool t))"
proof -
  have "swap_out e (unat (reserve_in_of pool t)) (unat (reserve_out_of pool t)) < 2 ^ 128" for e
    using swap_out_less [of "unat (reserve_in_of pool t)" "unat (reserve_out_of pool t)" e]
      swap_ready_reserves [OF assms(1)] u128_bound [of "reserve_out_of pool t"]
    by (simp add: unat_gt_0)
  with assms(2) show ?thesis
    by (auto simp: swap_result_of_def swap_result_Inr_iff quote_of_def unat_of_nat_bound)
qed

lemma fee_bound: "f < BPS_MAX \<Longrightarrow> unat f < 10000"
  by (simp add: BPS_MAX_def word_less_nat_alt)

lemma simulate_directed:
  assumes "swap_ready pool t t_out" and "a \<noteq> 0"
  shows "simulate_cpmm_exact_input pool (exact_input_new_directed t a (token_out_of pool t)) =
    bindR (swap_result_of pool t a) (\<lambda>r. Inr (quote_of pool t a r))"
  using simulate_ready [of pool "exact_input_new_directed t a (token_out_of pool t)"] assms
  by (simp add: exact_input_new_directed_def swap_ready_def)

lemma check_previous_ok:
  assumes ready: "swap_ready pool t t_out" and res: "swap_result_of pool t a = Inr res"
    and less: "\<And>b. b < unat a \<Longrightarrow>
      swap_out (effective b (unat (cp_fee_bps pool))) (unat (reserve_in_of pool t)) (unat (reserve_out_of pool t)) < unat r"
  shows "check_previous pool t (token_out_of pool t) a r = Inr ()"
proof (cases "1 < a")
  case True
  have u: "unat (a - 1) = unat a - 1" "unat (a - 1) < unat a"
    using True by (simp_all add: unat_sub_no_underflow word_less_nat_alt)
  have nz: "a - 1 \<noteq> 0" using True by auto
  consider r' where "swap_result_of pool t (a - 1) = Inr r'"
    | "swap_result_of pool t (a - 1) = Inl SE_ZeroOutputAmount"
    using swap_result_smaller [OF res [unfolded swap_result_of_def], of "unat (a - 1)"] u
    by (auto simp: swap_result_of_def)
  then show ?thesis
  proof cases
    case 1
    then have "aa_amount (cq_output (quote_of pool t (a - 1) r')) < r"
      using unat_output [OF ready 1] less [OF u(2)] by (simp add: word_less_nat_alt)
    with True 1 nz show ?thesis
      by (simp add: check_previous_def simulate_directed [OF ready])
  next
    case 2
    with True nz show ?thesis by (simp add: check_previous_def simulate_directed [OF ready])
  qed
qed (simp add: check_previous_def)

lemma required_input_unat:
  assumes "swap_ready pool t t_out" and "r \<noteq> 0" and "r < reserve_out_of pool t"
    and "required_input r (reserve_in_of pool t) (reserve_out_of pool t) (cp_fee_bps pool) = Inr a"
  shows "a \<noteq> 0"
    and "unat r \<le> swap_out (effective b (unat (cp_fee_bps pool))) (unat (reserve_in_of pool t))
           (unat (reserve_out_of pool t)) \<longleftrightarrow> unat a \<le> b"
proof -
  have f: "cp_fee_bps pool < BPS_MAX" using assms(1) by (simp add: swap_ready_def)
  have rin: "reserve_in_of pool t \<noteq> 0" using swap_ready_reserves [OF assms(1)] by simp
  let ?g = "gross_min (effective_min (unat r) (unat (reserve_in_of pool t)) (unat (reserve_out_of pool t)))
    (unat (cp_fee_bps pool))"
  have "a = of_nat ?g" "?g < 2 ^ 128"
    using assms(4) by (auto simp: required_input_eq [OF assms(2) rin assms(3) f] not_le split: if_splits)
  then have a: "unat a = ?g" by (simp add: unat_of_nat_bound)
  then show "a \<noteq> 0" using gross_min_pos [OF fee_bound [OF f]] by (metis less_not_refl unat_0)
  show "unat r \<le> swap_out (effective b (unat (cp_fee_bps pool))) (unat (reserve_in_of pool t))
      (unat (reserve_out_of pool t)) \<longleftrightarrow> unat a \<le> b"
    unfolding a using assms rin fee_bound [OF f]
    by (intro output_enough_iff) (simp_all add: unat_gt_0 word_less_nat_alt)
qed

text \<open>
  In a ready pool the exact-output simulator is the closed form followed by the exact-input
  simulator: its two confirming checks always pass.
\<close>

lemma exact_output_ready:
  assumes ready: "swap_ready pool (eo_token_in req) (eo_token_out req)"
    and r: "eo_amount_out req \<noteq> 0" "eo_amount_out req < reserve_out_of pool (eo_token_in req)"
  shows "simulate_cpmm_exact_output pool req =
    bindR (required_input (eo_amount_out req) (reserve_in_of pool (eo_token_in req))
             (reserve_out_of pool (eo_token_in req)) (cp_fee_bps pool)) (\<lambda>a.
    bindR (swap_result_of pool (eo_token_in req) a) (\<lambda>res.
    Inr (output_quote (eo_amount_out req) (quote_of pool (eo_token_in req) a res))))"
    (is "_ = bindR ?req ?k")
proof -
  let ?t = "eo_token_in req" and ?r = "eo_amount_out req"
  define rest where "rest = (\<lambda>a. bindR (simulate_cpmm_exact_input pool
      (exact_input_new_directed ?t a (token_out_of pool ?t))) (\<lambda>q.
    if aa_amount (cq_output q) < ?r then Inl SE_InvariantViolated
    else bindR (check_previous pool ?t (token_out_of pool ?t) a ?r) (\<lambda>_.
      Inr ((output_quote ?r q)\<lparr>xq_requested_output := \<lparr>aa_asset = token_out_of pool ?t, aa_amount = ?r\<rparr>\<rparr>))))"
  have chain: "asset_chain ?t = asset_chain (cp_token_0 pool)"
    using ready validate_same_chain by (auto simp: swap_ready_def)
  have "simulate_cpmm_exact_output pool req = bindR ?req rest"
  proof -
    have "check_token_out (eo_token_out req) (token_out_of pool ?t) = Inr ()"
      using ready by (auto simp: swap_ready_def check_token_out_def)
    moreover have "?t \<noteq> cp_token_0 pool \<Longrightarrow> ?t = cp_token_1 pool" "\<not> BPS_MAX \<le> cp_fee_bps pool"
      "cpmm_validate pool = Inr ()" "cp_reserve_0 pool \<noteq> 0" "cp_reserve_1 pool \<noteq> 0"
      using ready by (auto simp: swap_ready_def)
    ultimately show ?thesis
      using r(1) chain
      by (cases "?t = cp_token_0 pool")
        (simp_all add: simulate_cpmm_exact_output_def swap_direction_def Let_def swap_sides rest_def output_quote_def
          cong: if_cong)
  qed
  moreover have "rest a = ?k a" if a: "?req = Inr a" for a
  proof (cases "swap_result_of pool ?t a")
    case (Inl e)
    then show ?thesis
      by (simp add: rest_def simulate_directed [OF ready required_input_unat(1) [OF ready r a]])
  next
    case (Inr res)
    note enough = required_input_unat(2) [OF ready r a]
    have "\<not> aa_amount (cq_output (quote_of pool ?t a res)) < ?r"
      using enough [of "unat a"] unat_output [OF ready Inr] by (simp add: word_less_nat_alt not_less)
    moreover have "check_previous pool ?t (token_out_of pool ?t) a ?r = Inr ()"
      by (rule check_previous_ok [OF ready Inr]) (simp add: enough flip: not_le)
    ultimately show ?thesis
      by (simp add: rest_def simulate_directed [OF ready required_input_unat(1) [OF ready r a]] Inr
          output_quote_def quote_of_def case_prod_beta)
  qed
  ultimately show ?thesis by (cases ?req) simp_all
qed


lemma exact_output_not_ready:
  assumes "\<not> (swap_ready pool (eo_token_in req) (eo_token_out req) \<and> eo_amount_out req \<noteq> 0 \<and>
    eo_amount_out req < reserve_out_of pool (eo_token_in req))"
  shows "\<exists>e. simulate_cpmm_exact_output pool req = Inl e \<and>
    error_class e \<in> {CE_InvalidPoolState, CE_ZeroOutputAmount, CE_ZeroReserve, CE_ChainMismatch,
      CE_AssetNotFoundInPool, CE_OutputAssetMismatch, CE_InvalidFeeBps, CE_ImpossibleOutput}"
  using assms
  by (cases "cpmm_validate pool")
    (auto simp: simulate_cpmm_exact_output_def swap_ready_def swap_direction_def check_token_out_def
      required_input_def Let_def swap_sides not_less split: option.splits)

lemma exact_input_Inr:
  assumes "simulate_cpmm_exact_input pool req = Inr q"
  obtains r where "swap_ready pool (ei_token_in req) (ei_token_out req)" and "ei_amount_in req \<noteq> 0"
    and "swap_result_of pool (ei_token_in req) (ei_amount_in req) = Inr r"
    and "q = quote_of pool (ei_token_in req) (ei_amount_in req) r"
proof -
  have ok: "swap_ready pool (ei_token_in req) (ei_token_out req)" "ei_amount_in req \<noteq> 0"
    using assms simulate_not_ready [of pool req] by auto
  with assms that show thesis by (auto simp: simulate_ready [OF ok] result_iff)
qed

lemma exact_output_Inr:
  assumes "simulate_cpmm_exact_output pool req = Inr q"
  obtains a r where "swap_ready pool (eo_token_in req) (eo_token_out req)" and "eo_amount_out req \<noteq> 0"
    and "eo_amount_out req < reserve_out_of pool (eo_token_in req)"
    and "required_input (eo_amount_out req) (reserve_in_of pool (eo_token_in req))
      (reserve_out_of pool (eo_token_in req)) (cp_fee_bps pool) = Inr a"
    and "swap_result_of pool (eo_token_in req) a = Inr r"
    and "q = output_quote (eo_amount_out req) (quote_of pool (eo_token_in req) a r)"
proof -
  have ok: "swap_ready pool (eo_token_in req) (eo_token_out req)" "eo_amount_out req \<noteq> 0"
    "eo_amount_out req < reserve_out_of pool (eo_token_in req)"
    using assms exact_output_not_ready [of pool req] by auto
  with assms that show thesis by (auto simp: exact_output_ready [OF ok] result_iff)
qed

text \<open>The fields of a quote as numbers.\<close>

lemma quote_values:
  assumes ready: "swap_ready pool t t_out" and res: "swap_result_of pool t a = Inr r"
  defines "A \<equiv> unat a" and "R \<equiv> unat (reserve_in_of pool t)" and "S \<equiv> unat (reserve_out_of pool t)"
    and "F \<equiv> unat (cp_fee_bps pool)" and "q \<equiv> quote_of pool t a r"
  defines "out \<equiv> swap_out (effective A F) R S"
  shows "unat (aa_amount (cq_pool_fee q)) = fee_of A F"
    and "unat (aa_amount (cq_effective_input q)) = effective A F"
    and "unat (aa_amount (cq_output q)) = out"
    and "unat (cq_resulting_reserve_in q) = R + A"
    and "unat (cq_resulting_reserve_out q) = S - out"
    and "0 < R" and "0 < out" and "out < S" and "fee_of A F + effective A F = A"
proof -
  show pos: "0 < R" using swap_ready_reserves [OF ready] by (simp add: R_def unat_gt_0)
  have "0 < S" using swap_ready_reserves [OF ready] by (simp add: S_def unat_gt_0)
  with pos show less: "out < S" by (simp add: out_def swap_out_less)
  have "F < 10000" using ready fee_bound by (simp add: F_def swap_ready_def)
  then have "A * F \<le> A * 10000" by simp
  then have fee: "fee_of A F \<le> A" using div_le_mono [of "A * F" "A * 10000" 10000] by (simp add: fee_of_def)
  then show "fee_of A F + effective A F = A" by (simp add: effective_def)
  have small: "R + A < 2 ^ 128" "S < 2 ^ 128" "A < 2 ^ 128" "0 < out"
    using res u128_bound by (simp_all add: swap_result_of_def swap_result_Inr_iff out_def A_def R_def S_def F_def)
  then show "0 < out" by simp
  have q: "q = quote_of pool t a (of_nat (fee_of A F), of_nat (effective A F), of_nat out,
      of_nat (R + A), of_nat (S - out))"
    using res by (simp add: q_def swap_result_of_def swap_result_Inr_iff out_def A_def R_def S_def F_def)
  show "unat (aa_amount (cq_pool_fee q)) = fee_of A F"
    using fee small by (simp add: q quote_of_def unat_of_nat_bound)
  show "unat (aa_amount (cq_effective_input q)) = effective A F"
    using effective_bounds(1) [of A F] small by (simp add: q quote_of_def unat_of_nat_bound)
  show "unat (aa_amount (cq_output q)) = out"
    using less small by (simp add: q quote_of_def unat_of_nat_bound)
  show "unat (cq_resulting_reserve_in q) = R + A"
    using small by (simp add: q quote_of_def unat_of_nat_bound del: of_nat_add)
  show "unat (cq_resulting_reserve_out q) = S - out"
    using small by (simp add: q quote_of_def unat_of_nat_bound del: of_nat_diff)
qed

lemma quote_reserves:
  "cq_resulting_reserve_0 (quote_of pool t a r) = (if t = cp_token_0 pool
     then cq_resulting_reserve_in (quote_of pool t a r) else cq_resulting_reserve_out (quote_of pool t a r))"
  "cq_resulting_reserve_1 (quote_of pool t a r) = (if t = cp_token_0 pool
     then cq_resulting_reserve_out (quote_of pool t a r) else cq_resulting_reserve_in (quote_of pool t a r))"
  "aa_asset (cq_output (quote_of pool t a r)) = token_out_of pool t"
  by (simp_all add: quote_of_def case_prod_beta)

lemma quote_of_input: "cq_input (quote_of pool t a r) = \<lparr>aa_asset = t, aa_amount = a\<rparr>"
  by (simp add: quote_of_def case_prod_beta)

lemma swap_back_le:
  assumes "0 < R" and "0 < S" and "e \<le> a" and "e' \<le> swap_out e R S"
  shows "swap_out e' (S - swap_out e R S) (R + a) \<le> a"
proof -
  let ?o = "swap_out e R S"
  have less: "?o < S" using swap_out_less assms by blast
  have "?o * R \<le> e * (S - ?o)"
    using swap_out_mult [OF assms(1), of e S] less by (simp add: algebra_simps diff_mult_distrib2)
  also have "\<dots> \<le> a * (S - ?o)" using assms(3) by simp
  finally have "?o * R + a * ?o \<le> a * S"
    using less by (simp add: diff_mult_distrib2 le_diff_conv2)
  then have "?o * (R + a) \<le> a * S" by (simp add: algebra_simps)
  then have "swap_out ?o (S - ?o) (R + a) \<le> a"
    using less assms(2) div_le_mono [of "?o * (R + a)" "a * S" S] by (simp add: swap_out_def)
  moreover have "swap_out e' (S - ?o) (R + a) \<le> swap_out ?o (S - ?o) (R + a)"
    using less assms(4) by (intro swap_out_mono) simp_all
  ultimately show ?thesis by simp
qed

text \<open>Swapping at most the output of a swap back in the resulting pool gives back at most what was paid in.\<close>

lemma swap_back_no_gain:
  assumes "simulate_cpmm_exact_input pool req = Inr q" and n: "unat n \<le> unat (aa_amount (cq_output q))"
    and "simulate_cpmm_exact_input
           (pool\<lparr>cp_reserve_0 := cq_resulting_reserve_0 q, cp_reserve_1 := cq_resulting_reserve_1 q\<rparr>)
           \<lparr>ei_token_in = aa_asset (cq_output q), ei_amount_in = n, ei_token_out = t_out\<rparr>
         = Inr q'"
  shows "aa_asset (cq_output q') = ei_token_in req \<and> aa_amount (cq_output q') \<le> ei_amount_in req"
  using assms(1)
proof (cases rule: exact_input_Inr)
  case (1 r)
  let ?t = "ei_token_in req"
    and ?pool = "pool\<lparr>cp_reserve_0 := cq_resulting_reserve_0 q, cp_reserve_1 := cq_resulting_reserve_1 q\<rparr>"
  note v = quote_values [OF 1(1,3), folded 1(4)]
  have tok: "cp_token_0 pool \<noteq> cp_token_1 pool" "?t = cp_token_0 pool \<or> ?t = cp_token_1 pool"
    using 1(1) by (auto simp: swap_ready_def cpmm_validate_def pool_tokens_validate_def result_iff split: if_splits)
  have sides: "token_out_of ?pool (token_out_of pool ?t) = ?t"
    "reserve_in_of ?pool (token_out_of pool ?t) = cq_resulting_reserve_out q"
    "reserve_out_of ?pool (token_out_of pool ?t) = cq_resulting_reserve_in q"
    using tok by (auto simp: swap_sides 1(4) quote_reserves)
  have asset: "aa_asset (cq_output q) = token_out_of pool ?t" by (simp add: 1(4) quote_reserves)
  from assms(3) show ?thesis
  proof (cases rule: exact_input_Inr)
    case (1 r')
    note w = quote_values [OF 1(1,3), folded 1(4), simplified, unfolded asset sides v]
    have "0 < unat (reserve_out_of pool ?t)" using v by simp
    from swap_back_le [OF v(6) this effective_bounds(1) le_trans [OF effective_bounds(1) n [unfolded v(3)]]]
    have "unat (aa_amount (cq_output q')) \<le> unat (ei_amount_in req)" unfolding w(3) .
    moreover have "aa_asset (cq_output q') = ?t" using 1(4) by (simp add: quote_reserves asset sides)
    ultimately show ?thesis by (simp add: word_le_nat_alt)
  qed
qed

section \<open>Properties\<close>

definition sample_pool :: cpmm_pool_state where
  "sample_pool =
     \<lparr>cp_token_0 = \<lparr>asset_chain = Base, asset_address = ''a''\<rparr>,
      cp_token_1 = \<lparr>asset_chain = Base, asset_address = ''b''\<rparr>,
      cp_decimals_0 = 18, cp_decimals_1 = 6, cp_reserve_0 = 1000000, cp_reserve_1 = 2000000,
      cp_total_lp_supply = None, cp_fee_bps = 30\<rparr>"

lemma sample_pool_ready: "swap_ready sample_pool (cp_token_0 sample_pool) None"
  "swap_ready sample_pool (cp_token_1 sample_pool) None"
  by (simp_all add: swap_ready_def sample_pool_def cpmm_validate_def pool_tokens_validate_def
      asset_validate_def chain_validate_def ensure_asset_address_def ws_defs MAX_DECIMALS_def BPS_MAX_def)

definition sample_request :: "u128 \<Rightarrow> exact_output_request" where
  "sample_request r = \<lparr>eo_token_in = cp_token_0 sample_pool, eo_amount_out = r, eo_token_out = None\<rparr>"

lemmas sample_eval = sample_pool_def exact_input_new_def swap_result_of_def swap_result_def swap_sides
  quote_of_def effective_def fee_of_def swap_out_def Let_def

lemma sample_input_quote:
  "\<exists>q. simulate_cpmm_exact_input sample_pool (exact_input_new (cp_token_0 sample_pool) 1000) = Inr q \<and>
     1000 \<le> aa_amount (cq_output q)"
  using sample_pool_ready by (subst simulate_ready) (simp_all add: sample_eval)

lemma sample_output_quote:
  "\<exists>q. simulate_cpmm_exact_output sample_pool (sample_request 1000) = Inr q \<and> aa_amount (xq_input q) = 502"
  using sample_pool_ready
  by (subst exact_output_ready)
    (simp_all add: sample_eval sample_request_def required_input_eq effective_min_def gross_min_def
      ceil_div_def BPS_MAX_def output_quote_def)

text \<open>C11. An exact-input swap succeeds exactly when the pool and the tokens pass the guards, the
  fee product and the new input reserve fit 128 bits and the output is not zero; the quote then
  holds the fee rounded down, the rest as effective input, the constant-product output rounded
  down, and both new reserves.\<close>

theorem cpmm_exact_input_spec:
  "let t = ei_token_in req; a = unat (ei_amount_in req); f = unat (cp_fee_bps pool);
       rin = unat (reserve_in_of pool t); rout = unat (reserve_out_of pool t);
       e = a - a * f div 10000; out = e * rout div (rin + e)
   in simulate_cpmm_exact_input pool req = Inr q \<longleftrightarrow>
        swap_ready pool t (ei_token_out req) \<and> 0 < a \<and> a * f < 2 ^ 128 \<and> rin + a < 2 ^ 128 \<and> 0 < out \<and>
        q = quote_of pool t (ei_amount_in req)
              (of_nat (a * f div 10000), of_nat e, of_nat out, of_nat (rin + a), of_nat (rout - out))"
proof (cases "swap_ready pool (ei_token_in req) (ei_token_out req) \<and> ei_amount_in req \<noteq> 0")
  case True
  then show ?thesis
    by (auto simp: simulate_ready result_iff swap_result_of_def swap_result_Inr_iff Let_def
        effective_def fee_of_def swap_out_def unat_gt_0)
next
  case False
  with simulate_not_ready [OF False] show ?thesis by (auto simp: Let_def unat_gt_0)
qed

text \<open>C14. A successful exact-input swap never shrinks the product of the reserves, splits the
  input into fee and effective input without loss, and pays out a positive amount below the
  output reserve.\<close>

theorem cpmm_exact_input_safe:
  assumes "simulate_cpmm_exact_input pool req = Inr q"
  shows "unat (cp_reserve_0 pool) * unat (cp_reserve_1 pool)
           \<le> unat (cq_resulting_reserve_0 q) * unat (cq_resulting_reserve_1 q) \<and>
    unat (aa_amount (cq_pool_fee q)) + unat (aa_amount (cq_effective_input q)) = unat (ei_amount_in req) \<and>
    0 < aa_amount (cq_output q) \<and> aa_amount (cq_output q) < reserve_out_of pool (ei_token_in req)"
  using assms
proof (cases rule: exact_input_Inr)
  case (1 r)
  note v = quote_values [OF 1(1,3), folded 1(4)]
  have "0 < unat (reserve_out_of pool (ei_token_in req))" using v by simp
  from product_kept [OF v(6) this effective_bounds(1), of "unat (ei_amount_in req)" "unat (cp_fee_bps pool)"]
  have "unat (reserve_in_of pool (ei_token_in req)) * unat (reserve_out_of pool (ei_token_in req))
      \<le> unat (cq_resulting_reserve_in q) * unat (cq_resulting_reserve_out q)"
    by (simp only: v)
  then have "unat (cp_reserve_0 pool) * unat (cp_reserve_1 pool)
      \<le> unat (cq_resulting_reserve_0 q) * unat (cq_resulting_reserve_1 q)"
    by (auto simp: 1(4) quote_reserves swap_sides mult.commute split: if_splits)
  with v show ?thesis by (simp add: word_less_nat_alt)
qed

theorem cpmm_exact_input_safe_witness:
  "\<exists>q. simulate_cpmm_exact_input sample_pool (exact_input_new (cp_token_0 sample_pool) 1000) = Inr q \<and>
     unat (cp_reserve_0 sample_pool) * unat (cp_reserve_1 sample_pool)
       \<le> unat (cq_resulting_reserve_0 q) * unat (cq_resulting_reserve_1 q)"
  using sample_input_quote cpmm_exact_input_safe by blast

text \<open>The defensive checks of the exact-input simulator never fire: no pool and no request
  makes it report a zero effective input, an impossible output or a violated invariant.\<close>

theorem cpmm_exact_input_checks_pass:
  "simulate_cpmm_exact_input pool req \<notin>
     {Inl SE_ZeroEffectiveInput, Inl SE_ImpossibleOutput, Inl SE_InvariantViolated}"
proof (cases "swap_ready pool (ei_token_in req) (ei_token_out req) \<and> ei_amount_in req \<noteq> 0")
  case True
  then show ?thesis
    by (auto simp: simulate_ready result_iff swap_result_of_def dest!: swap_result_errors)
next
  case False
  with simulate_not_ready [OF False] show ?thesis by auto
qed

text \<open>C1. The exact-output quote is exact and minimal: its output covers the request and is what
  the exact-input simulator pays for its input, and an input the exact-input simulator accepts
  covers the request exactly when it is at least the quoted input.\<close>

theorem cpmm_exact_output_minimal:
  assumes "simulate_cpmm_exact_output pool req = Inr q"
  shows "eo_amount_out req \<le> aa_amount (xq_output q) \<and>
    (\<exists>p. simulate_cpmm_exact_input pool (exact_input_new_directed (eo_token_in req)
        (aa_amount (xq_input q)) (aa_asset (xq_output q))) = Inr p \<and> cq_output p = xq_output q) \<and>
    (\<forall>a p t_out. simulate_cpmm_exact_input pool
        \<lparr>ei_token_in = eo_token_in req, ei_amount_in = a, ei_token_out = t_out\<rparr> = Inr p \<longrightarrow>
      (eo_amount_out req \<le> aa_amount (cq_output p) \<longleftrightarrow> aa_amount (xq_input q) \<le> a))"
  using assms
proof (cases rule: exact_output_Inr)
  case (1 a r)
  note enough = required_input_unat(2) [OF 1(1-4)]
  have "eo_amount_out req \<le> aa_amount (xq_output q)"
    using enough [of "unat a"] unat_output [OF 1(1,5)] by (simp add: 1(6) output_quote_def word_le_nat_alt)
  moreover have "\<exists>p. simulate_cpmm_exact_input pool (exact_input_new_directed (eo_token_in req)
      (aa_amount (xq_input q)) (aa_asset (xq_output q))) = Inr p \<and> cq_output p = xq_output q"
    using 1(5) required_input_unat(1) [OF 1(1-4)]
    by (simp add: 1(6) output_quote_def quote_reserves quote_of_input simulate_directed [OF 1(1)])
  moreover have "eo_amount_out req \<le> aa_amount (cq_output p) \<longleftrightarrow> aa_amount (xq_input q) \<le> b"
    if "simulate_cpmm_exact_input pool
        \<lparr>ei_token_in = eo_token_in req, ei_amount_in = b, ei_token_out = t_out\<rparr> = Inr p" for b p t_out
    using that
  proof (cases rule: exact_input_Inr)
    case (1 r')
    then show ?thesis
      using enough [of "unat b"] unat_output [OF 1(1,3)] \<open>q = _\<close>
      by (simp add: output_quote_def quote_of_def case_prod_beta word_le_nat_alt)
  qed
  ultimately show ?thesis by blast
qed

theorem cpmm_exact_output_minimal_witness:
  "\<exists>q. simulate_cpmm_exact_output sample_pool (sample_request 1000) = Inr q \<and>
     1000 \<le> aa_amount (xq_output q) \<and> aa_amount (xq_input q) = 502"
proof -
  obtain q where q: "simulate_cpmm_exact_output sample_pool (sample_request 1000) = Inr q"
    "aa_amount (xq_input q) = 502"
    using sample_output_quote by blast
  with cpmm_exact_output_minimal [OF q(1)] show ?thesis by (auto simp: sample_request_def)
qed

text \<open>C15. The exact-output simulator is complete: if any input is accepted and pays at least a
  positive amount, the request for that amount gets a quote.\<close>

theorem cpmm_exact_output_complete:
  assumes "simulate_cpmm_exact_input pool
      \<lparr>ei_token_in = t, ei_amount_in = a, ei_token_out = t_out\<rparr> = Inr p"
    and "0 < r" and "r \<le> aa_amount (cq_output p)"
  shows "\<exists>q. simulate_cpmm_exact_output pool
      \<lparr>eo_token_in = t, eo_amount_out = r, eo_token_out = t_out\<rparr> = Inr q"
  using assms(1)
proof (cases rule: exact_input_Inr)
  case (1 res)
  then have ready: "swap_ready pool t t_out" and res: "swap_result_of pool t a = Inr res"
    and p: "p = quote_of pool t a res" by simp_all
  define A R S F where d: "A = unat a" "R = unat (reserve_in_of pool t)"
    "S = unat (reserve_out_of pool t)" "F = unat (cp_fee_bps pool)"
  define m g where mg: "m = effective_min (unat r) R S" "g = gross_min m F"
  have pos: "0 < R" "0 < S" using swap_ready_reserves [OF ready] by (simp_all add: d unat_gt_0)
  have F: "F < 10000" "cp_fee_bps pool < BPS_MAX"
    using ready fee_bound by (simp_all add: d swap_ready_def)
  have r: "0 < unat r" "unat r \<le> swap_out (effective A F) R S"
    using assms(2,3) unat_output [OF ready res] by (simp_all add: p d word_le_nat_alt unat_gt_0)
  have rS: "unat r < S" by (rule le_less_trans [OF r(2) swap_out_less [OF pos]])
  have "g \<le> A" "m \<le> effective A F"
    using r output_enough_iff [OF pos(1) r(1) rS F(1)] swap_out_ge_iff [OF pos(1) rS]
    by (simp_all add: mg effective_min_def)
  then have "g \<le> A" "m \<le> A" using effective_bounds(1) [of A F] by simp_all
  then have fits: "g \<le> A" "m < 2 ^ 128" "g < 2 ^ 128" using u128_bound [of a] by (simp_all add: d)
  have lt: "r < reserve_out_of pool t" "r \<noteq> 0" using rS r by (auto simp: d word_less_nat_alt)
  have req: "required_input r (reserve_in_of pool t) (reserve_out_of pool t) (cp_fee_bps pool) = Inr (of_nat g)"
    using swap_ready_reserves [OF ready] lt F(2) fits
    by (simp add: required_input_eq mg d)
  have "unat (of_nat g :: u128) = g" using fits(3) by (simp add: unat_of_nat_bound)
  moreover have "0 < swap_out (effective g F) R S"
    using output_enough_iff [OF pos(1) r(1) rS F(1), of g] r(1) by (simp add: mg)
  ultimately obtain res' where "swap_result_of pool t (of_nat g) = Inr res'"
    using swap_result_smaller [OF res [unfolded swap_result_of_def], of g] fits(1)
    by (auto simp: swap_result_of_def swap_result_def Let_def d split: if_splits)
  then show ?thesis
    using exact_output_ready [of pool "\<lparr>eo_token_in = t, eo_amount_out = r, eo_token_out = t_out\<rparr>"]
      ready lt req by simp
qed

theorem cpmm_exact_output_complete_witness:
  "\<exists>q. simulate_cpmm_exact_output sample_pool (sample_request 1000) = Inr q"
proof -
  obtain p where "simulate_cpmm_exact_input sample_pool (exact_input_new (cp_token_0 sample_pool) 1000) = Inr p"
    "1000 \<le> aa_amount (cq_output p)"
    using sample_input_quote by blast
  with cpmm_exact_output_complete [of sample_pool "cp_token_0 sample_pool" 1000 None p 1000]
  show ?thesis by (simp add: exact_input_new_def sample_request_def)
qed

text \<open>The exact-output simulator never reports a violated invariant: its closed form always
  agrees with the exact-input simulator, so its confirming checks pass.\<close>

theorem cpmm_exact_output_checks_pass:
  "simulate_cpmm_exact_output pool req \<noteq> Inl SE_InvariantViolated"
proof (cases "swap_ready pool (eo_token_in req) (eo_token_out req) \<and> eo_amount_out req \<noteq> 0 \<and>
    eo_amount_out req < reserve_out_of pool (eo_token_in req)")
  case True
  then have "reserve_in_of pool (eo_token_in req) \<noteq> 0" "cp_fee_bps pool < BPS_MAX"
    using swap_ready_reserves by (blast, simp add: swap_ready_def)
  with True have "required_input (eo_amount_out req) (reserve_in_of pool (eo_token_in req))
      (reserve_out_of pool (eo_token_in req)) (cp_fee_bps pool) \<noteq> Inl SE_InvariantViolated"
    by (simp add: required_input_eq)
  with True show ?thesis
    by (auto simp: exact_output_ready result_iff swap_result_of_def dest: swap_result_errors)
next
  case False
  with exact_output_not_ready [OF False] show ?thesis by auto
qed

text \<open>A round trip never gains: swapping the output of a swap back in the resulting pool
  returns the input asset, and at most the amount that was paid in.\<close>

theorem cpmm_round_trip_no_profit:
  assumes "simulate_cpmm_exact_input pool req = Inr q"
    and "simulate_cpmm_exact_input
           (pool\<lparr>cp_reserve_0 := cq_resulting_reserve_0 q, cp_reserve_1 := cq_resulting_reserve_1 q\<rparr>)
           \<lparr>ei_token_in = aa_asset (cq_output q), ei_amount_in = aa_amount (cq_output q), ei_token_out = t_out\<rparr>
         = Inr q'"
  shows "aa_asset (cq_output q') = ei_token_in req \<and> aa_amount (cq_output q') \<le> ei_amount_in req"
  using swap_back_no_gain [OF assms(1) order_refl assms(2)] .

theorem cpmm_round_trip_no_profit_witness:
  "\<exists>q q'. simulate_cpmm_exact_input sample_pool (exact_input_new (cp_token_0 sample_pool) 1000) = Inr q \<and>
     simulate_cpmm_exact_input
       (sample_pool\<lparr>cp_reserve_0 := cq_resulting_reserve_0 q, cp_reserve_1 := cq_resulting_reserve_1 q\<rparr>)
       \<lparr>ei_token_in = aa_asset (cq_output q), ei_amount_in = aa_amount (cq_output q), ei_token_out = None\<rparr>
       = Inr q' \<and> aa_amount (cq_output q') \<le> 1000"
proof -
  let ?q = "quote_of sample_pool (cp_token_0 sample_pool) 1000 (3, 997, 1992, 1001000, 1998008)"
  let ?pool = "sample_pool\<lparr>cp_reserve_0 := cq_resulting_reserve_0 ?q, cp_reserve_1 := cq_resulting_reserve_1 ?q\<rparr>"
  let ?req = "\<lparr>ei_token_in = aa_asset (cq_output ?q), ei_amount_in = aa_amount (cq_output ?q), ei_token_out = None\<rparr>"
  have q: "simulate_cpmm_exact_input sample_pool (exact_input_new (cp_token_0 sample_pool) 1000) = Inr ?q"
    using sample_pool_ready by (subst simulate_ready) (simp_all add: sample_eval)
  have "swap_ready ?pool (aa_asset (cq_output ?q)) None"
    using sample_pool_ready(2) by (simp add: swap_ready_def sample_eval cpmm_validate_def)
  then have "\<exists>q'. simulate_cpmm_exact_input ?pool ?req = Inr q'"
    by (subst simulate_ready) (simp_all add: sample_eval)
  then obtain q' where q': "simulate_cpmm_exact_input ?pool ?req = Inr q'" by blast
  have "aa_amount (cq_output q') \<le> 1000"
    using cpmm_round_trip_no_profit [OF q q'] by (simp add: exact_input_new_def)
  with q q' show ?thesis by (intro exI conjI)
qed

end
