(* ===== verification/Pool_Reducers.thy ===== *)
theory Pool_Reducers
  imports Pool_State
begin

text \<open>
  The maintained local pool states: \<open>crates/market-types/src/pool.rs\<close>, \<open>CpmmPoolReducer\<close>,
  \<open>ClmmPoolReducer\<close>, \<open>BinPoolReducer\<close> and the dispatching \<open>PoolReducer\<close>. The three
  reducers share their fields (\<open>pool_reducer\<close>; the two bounded ones add the bound) and the
  control flow of \<open>reset_with_snapshot\<close>, \<open>apply_snapshot\<close> and \<open>apply_delta\<close>, which is
  written once and instantiated with each reducer's own checks and staging. A method that
  takes \<open>&mut self\<close> returns the reducer beside its result. The locale
  \<open>sequenced_reducer\<close> states what a consumer of a reducer relies on: the reducer refines
  the stream tracker and keeps its well-formedness.
\<close>

section \<open>Fields and shared control flow\<close>

record 's pool_reducer =
  rd_pool_id :: pool_id
  rd_sequence :: sequence
  rd_timestamp_ms :: i64
  rd_state :: 's
  rd_resync_required :: bool

record 's bounded_reducer = "'s pool_reducer" +
  rd_max :: usize

type_synonym cpmm_pool_reducer = "cpmm_pool_state pool_reducer"
type_synonym clmm_pool_reducer = "clmm_pool_state bounded_reducer"
type_synonym bin_pool_reducer = "bin_pool_state bounded_reducer"

definition reducer_trigger_resync :: "('s, 'z) pool_reducer_scheme \<Rightarrow> ('s, 'z) pool_reducer_scheme" where
  "reducer_trigger_resync r = r\<lparr>rd_resync_required := True\<rparr>"

definition install_snapshot ::
  "('s, 'z) pool_reducer_scheme \<Rightarrow> sequence \<Rightarrow> i64 \<Rightarrow> 's \<Rightarrow> ('s, 'z) pool_reducer_scheme" where
  "install_snapshot r sequence timestamp_ms state =
     r\<lparr>rd_sequence := sequence, rd_timestamp_ms := timestamp_ms, rd_state := state,
       rd_resync_required := False\<rparr>"

text \<open>The argument \<open>checked\<close> is the outcome of the guards of the method.\<close>

definition reset_checked ::
  "market_type_error + unit \<Rightarrow> ('s, 'z) pool_reducer_scheme \<Rightarrow> sequence \<Rightarrow> i64 \<Rightarrow> 's \<Rightarrow>
   ('s, 'z) pool_reducer_scheme \<times> (market_type_error + unit)" where
  "reset_checked checked r sequence timestamp_ms state =
     (case checked of
        Inl e \<Rightarrow> (r, Inl e)
      | Inr _ \<Rightarrow> (install_snapshot r sequence timestamp_ms state, Inr ()))"

definition snapshot_checked ::
  "market_type_error + unit \<Rightarrow> ('s, 'z) pool_reducer_scheme \<Rightarrow> sequence \<Rightarrow> i64 \<Rightarrow> 's \<Rightarrow>
   ('s, 'z) pool_reducer_scheme \<times> (market_type_error + snapshot_classification)" where
  "snapshot_checked checked r sequence timestamp_ms state =
     (case checked of
        Inl e \<Rightarrow> (r, Inl e)
      | Inr _ \<Rightarrow>
          if sequence < rd_sequence r then (r, Inr (SC_Stale sequence (rd_sequence r)))
          else if sequence = rd_sequence r then (r, Inr (SC_Duplicate (rd_sequence r)))
          else (install_snapshot r sequence timestamp_ms state, Inr (SC_Accepted sequence)))"

text \<open>\<open>staged\<close> is the new state the contiguous delta builds, or the error that rejects it.\<close>

definition delta_staged ::
  "market_type_error + unit \<Rightarrow> market_type_error + 's \<Rightarrow> ('s, 'z) pool_reducer_scheme \<Rightarrow>
   sequence_range \<Rightarrow> i64 \<Rightarrow> ('s, 'z) pool_reducer_scheme \<times> (market_type_error + delta_classification)" where
  "delta_staged delta_valid staged r sequence_range timestamp_ms =
     (if rd_resync_required r
      then (r, Inr (DC_ResyncRequired (sequence_next (rd_sequence r)) (sr_start sequence_range)))
      else
        case bindR (range_validate sequence_range) (\<lambda>_.
             if timestamp_ms \<le> 0 then Inl (InvalidTimestamp timestamp_ms) else delta_valid) of
          Inl e \<Rightarrow> (r, Inl e)
        | Inr _ \<Rightarrow>
            if sr_end sequence_range < rd_sequence r
            then (r, Inr (DC_Stale (sr_end sequence_range) (rd_sequence r)))
            else if sr_end sequence_range = rd_sequence r
            then (r, Inr (DC_Duplicate (rd_sequence r)))
            else if sr_start sequence_range \<noteq> sequence_next (rd_sequence r)
            then (r\<lparr>rd_resync_required := True\<rparr>,
                  Inr (DC_ResyncRequired (sequence_next (rd_sequence r)) (sr_start sequence_range)))
            else
              case staged of
                Inl e \<Rightarrow> (r, Inl e)
              | Inr state \<Rightarrow>
                  (r\<lparr>rd_state := state, rd_sequence := sr_end sequence_range,
                     rd_timestamp_ms := timestamp_ms\<rparr>,
                   Inr (DC_Contiguous (sr_end sequence_range))))"

text \<open>
  Staged updates of the sorted vectors of ticks and bins: an element is removed when the
  update is empty, replaced when its key is present, inserted before the first larger key
  otherwise.
\<close>

definition upsert :: "('a \<Rightarrow> int) \<Rightarrow> ('a \<Rightarrow> bool) \<Rightarrow> 'a list \<Rightarrow> 'a \<Rightarrow> 'a list" where
  "upsert key dead xs x =
     (if dead x then
        (case position (\<lambda>t. key t = key x) xs of
           Some pos \<Rightarrow> vec_remove pos xs
         | None \<Rightarrow> xs)
      else case position (\<lambda>t. key t = key x) xs of
        Some pos \<Rightarrow> xs[pos := x]
      | None \<Rightarrow>
          let pos = (case position (\<lambda>t. key x < key t) xs of None \<Rightarrow> length xs | Some p \<Rightarrow> p)
          in vec_insert pos x xs)"

section \<open>The constant-product reducer\<close>

definition cpmm_reducer_new ::
  "pool_id \<Rightarrow> sequence \<Rightarrow> i64 \<Rightarrow> cpmm_pool_state \<Rightarrow> market_type_error + cpmm_pool_reducer" where
  "cpmm_reducer_new pid sequence timestamp_ms state =
     bindR (pool_id_validate pid) (\<lambda>_.
     bindR (sequence_validate sequence) (\<lambda>_.
     if timestamp_ms \<le> 0 then Inl (InvalidTimestamp timestamp_ms)
     else bindR (cpmm_validate state) (\<lambda>_.
     if asset_chain (cp_token_0 state) \<noteq> pid_chain pid then Inl ChainMismatch
     else if cp_reserve_0 state = 0 \<or> cp_reserve_1 state = 0 then Inl ZeroAmount
     else Inr \<lparr>rd_pool_id = pid, rd_sequence = sequence, rd_timestamp_ms = timestamp_ms,
               rd_state = state, rd_resync_required = False\<rparr>)))"

definition cpmm_reducer_from_envelope :: "pool_state_envelope \<Rightarrow> market_type_error + cpmm_pool_reducer" where
  "cpmm_reducer_from_envelope env =
     bindR (state_envelope_validate env) (\<lambda>_.
     case pe_state env of
       PS_Cpmm cpmm \<Rightarrow> cpmm_reducer_new (pe_pool_id env) (pe_sequence env) (pe_observed_at_ms env) cpmm
     | other \<Rightarrow> Inl (PoolKindMismatch ''cpmm'' (kind_str other)))"

definition cpmm_check_snapshot ::
  "cpmm_pool_reducer \<Rightarrow> sequence \<Rightarrow> i64 \<Rightarrow> cpmm_pool_state \<Rightarrow> market_type_error + unit" where
  "cpmm_check_snapshot r sequence timestamp_ms state =
     bindR (sequence_validate sequence) (\<lambda>_.
     if timestamp_ms \<le> 0 then Inl (InvalidTimestamp timestamp_ms)
     else bindR (cpmm_validate state) (\<lambda>_.
     if asset_chain (cp_token_0 state) \<noteq> pid_chain (rd_pool_id r) then Inl ChainMismatch
     else if cp_token_0 state \<noteq> cp_token_0 (rd_state r) \<or> cp_token_1 state \<noteq> cp_token_1 (rd_state r)
     then Inl TargetMismatch
     else if cp_reserve_0 state = 0 \<or> cp_reserve_1 state = 0 then Inl ZeroAmount
     else Inr ()))"

definition cpmm_reset_with_snapshot ::
  "cpmm_pool_reducer \<Rightarrow> sequence \<Rightarrow> i64 \<Rightarrow> cpmm_pool_state \<Rightarrow> cpmm_pool_reducer \<times> (market_type_error + unit)" where
  "cpmm_reset_with_snapshot r sequence timestamp_ms state =
     reset_checked (cpmm_check_snapshot r sequence timestamp_ms state) r sequence timestamp_ms state"

definition cpmm_apply_snapshot ::
  "cpmm_pool_reducer \<Rightarrow> sequence \<Rightarrow> i64 \<Rightarrow> cpmm_pool_state \<Rightarrow>
   cpmm_pool_reducer \<times> (market_type_error + snapshot_classification)" where
  "cpmm_apply_snapshot r sequence timestamp_ms state =
     snapshot_checked (cpmm_check_snapshot r sequence timestamp_ms state) r sequence timestamp_ms state"

text \<open>The guards of the methods on envelopes, with the payload of the expected kind.\<close>

definition cpmm_open_envelope :: "cpmm_pool_reducer \<Rightarrow> pool_state_envelope \<Rightarrow> market_type_error + cpmm_pool_state" where
  "cpmm_open_envelope r env =
     bindR (state_envelope_validate env) (\<lambda>_.
     if pe_pool_id env \<noteq> rd_pool_id r then Inl TargetMismatch
     else case pe_state env of
       PS_Cpmm c \<Rightarrow> Inr c
     | other \<Rightarrow> Inl (PoolKindMismatch ''cpmm'' (kind_str other)))"

definition cpmm_reset_with_envelope ::
  "cpmm_pool_reducer \<Rightarrow> pool_state_envelope \<Rightarrow> cpmm_pool_reducer \<times> (market_type_error + unit)" where
  "cpmm_reset_with_envelope r env =
     (case cpmm_open_envelope r env of
        Inl e \<Rightarrow> (r, Inl e)
      | Inr c \<Rightarrow> cpmm_reset_with_snapshot r (pe_sequence env) (pe_observed_at_ms env) c)"

definition cpmm_apply_snapshot_envelope ::
  "cpmm_pool_reducer \<Rightarrow> pool_state_envelope \<Rightarrow> cpmm_pool_reducer \<times> (market_type_error + snapshot_classification)" where
  "cpmm_apply_snapshot_envelope r env =
     (case cpmm_open_envelope r env of
        Inl e \<Rightarrow> (r, Inl e)
      | Inr c \<Rightarrow> cpmm_apply_snapshot r (pe_sequence env) (pe_observed_at_ms env) c)"

definition cpmm_stage :: "cpmm_pool_state \<Rightarrow> cpmm_pool_delta \<Rightarrow> market_type_error + cpmm_pool_state" where
  "cpmm_stage state delta =
     bindR (case cpd_reserve_0 delta of
              None \<Rightarrow> Inr state
            | Some r0 \<Rightarrow> if r0 = 0 then Inl ZeroAmount else Inr (state\<lparr>cp_reserve_0 := r0\<rparr>)) (\<lambda>staged.
     bindR (case cpd_reserve_1 delta of
              None \<Rightarrow> Inr staged
            | Some r1 \<Rightarrow> if r1 = 0 then Inl ZeroAmount else Inr (staged\<lparr>cp_reserve_1 := r1\<rparr>)) (\<lambda>staged.
     let staged = (case cpd_total_lp_supply delta of
                     None \<Rightarrow> staged | Some total_lp \<Rightarrow> staged\<lparr>cp_total_lp_supply := Some total_lp\<rparr>);
         staged = (case cpd_fee_bps delta of None \<Rightarrow> staged | Some fee \<Rightarrow> staged\<lparr>cp_fee_bps := fee\<rparr>) in
     if cp_reserve_0 staged = 0 \<or> cp_reserve_1 staged = 0 then Inl ZeroAmount
     else bindR (cpmm_validate staged) (\<lambda>_. Inr staged)))"

definition cpmm_apply_delta ::
  "cpmm_pool_reducer \<Rightarrow> sequence_range \<Rightarrow> i64 \<Rightarrow> cpmm_pool_delta \<Rightarrow>
   cpmm_pool_reducer \<times> (market_type_error + delta_classification)" where
  "cpmm_apply_delta r sequence_range timestamp_ms delta =
     delta_staged (cpmm_delta_validate delta) (cpmm_stage (rd_state r) delta) r sequence_range timestamp_ms"

definition cpmm_apply_delta_envelope ::
  "cpmm_pool_reducer \<Rightarrow> cpmm_pool_delta pool_delta_envelope \<Rightarrow>
   cpmm_pool_reducer \<times> (market_type_error + delta_classification)" where
  "cpmm_apply_delta_envelope r env =
     (case cpmm_delta_envelope_validate env of
        Inl e \<Rightarrow> (r, Inl e)
      | Inr _ \<Rightarrow>
          if de_pool_id env \<noteq> rd_pool_id r then (r, Inl TargetMismatch)
          else cpmm_apply_delta r (de_sequence_range env) (de_observed_at_ms env) (de_delta env))"

definition cpmm_to_envelope :: "cpmm_pool_reducer \<Rightarrow> pool_state_envelope" where
  "cpmm_to_envelope r =
     \<lparr>pe_pool_id = rd_pool_id r, pe_sequence = rd_sequence r, pe_observed_at_ms = rd_timestamp_ms r,
      pe_state = PS_Cpmm (rd_state r)\<rparr>"

section \<open>The concentrated-liquidity reducer\<close>

definition clmm_reducer_new ::
  "pool_id \<Rightarrow> sequence \<Rightarrow> i64 \<Rightarrow> clmm_pool_state \<Rightarrow> usize \<Rightarrow> market_type_error + clmm_pool_reducer" where
  "clmm_reducer_new pid sequence timestamp_ms state max_ticks =
     bindR (pool_id_validate pid) (\<lambda>_.
     bindR (sequence_validate sequence) (\<lambda>_.
     if timestamp_ms \<le> 0 then Inl (InvalidTimestamp timestamp_ms)
     else if max_ticks = 0 \<or> MAX_CLMM_TICKS < max_ticks
     then Inl (ClmmTicksExceeded max_ticks MAX_CLMM_TICKS)
     else bindR (clmm_validate state) (\<lambda>_.
     if asset_chain (cl_token_0 state) \<noteq> pid_chain pid then Inl ChainMismatch
     else if cl_sqrt_price_x64 state = 0 then Inl ZeroPrice
     else if max_ticks < length (cl_ticks state)
     then Inl (ClmmTicksExceeded (length (cl_ticks state)) max_ticks)
     else Inr \<lparr>rd_pool_id = pid, rd_sequence = sequence, rd_timestamp_ms = timestamp_ms,
               rd_state = state, rd_resync_required = False, rd_max = max_ticks\<rparr>)))"

definition clmm_reducer_from_envelope ::
  "pool_state_envelope \<Rightarrow> usize \<Rightarrow> market_type_error + clmm_pool_reducer" where
  "clmm_reducer_from_envelope env max_ticks =
     bindR (state_envelope_validate env) (\<lambda>_.
     case pe_state env of
       PS_Clmm clmm \<Rightarrow>
         clmm_reducer_new (pe_pool_id env) (pe_sequence env) (pe_observed_at_ms env) clmm max_ticks
     | other \<Rightarrow> Inl (PoolKindMismatch ''clmm'' (kind_str other)))"

definition clmm_check_snapshot ::
  "clmm_pool_reducer \<Rightarrow> sequence \<Rightarrow> i64 \<Rightarrow> clmm_pool_state \<Rightarrow> market_type_error + unit" where
  "clmm_check_snapshot r sequence timestamp_ms state =
     bindR (sequence_validate sequence) (\<lambda>_.
     if timestamp_ms \<le> 0 then Inl (InvalidTimestamp timestamp_ms)
     else bindR (clmm_validate state) (\<lambda>_.
     if asset_chain (cl_token_0 state) \<noteq> pid_chain (rd_pool_id r) then Inl ChainMismatch
     else if cl_token_0 state \<noteq> cl_token_0 (rd_state r) \<or> cl_token_1 state \<noteq> cl_token_1 (rd_state r)
     then Inl TargetMismatch
     else if cl_tick_spacing state \<noteq> cl_tick_spacing (rd_state r) then Inl TargetMismatch
     else if cl_sqrt_price_x64 state = 0 then Inl ZeroPrice
     else if rd_max r < length (cl_ticks state)
     then Inl (ClmmTicksExceeded (length (cl_ticks state)) (rd_max r))
     else Inr ()))"

definition clmm_reset_with_snapshot ::
  "clmm_pool_reducer \<Rightarrow> sequence \<Rightarrow> i64 \<Rightarrow> clmm_pool_state \<Rightarrow> clmm_pool_reducer \<times> (market_type_error + unit)" where
  "clmm_reset_with_snapshot r sequence timestamp_ms state =
     reset_checked (clmm_check_snapshot r sequence timestamp_ms state) r sequence timestamp_ms state"

definition clmm_apply_snapshot ::
  "clmm_pool_reducer \<Rightarrow> sequence \<Rightarrow> i64 \<Rightarrow> clmm_pool_state \<Rightarrow>
   clmm_pool_reducer \<times> (market_type_error + snapshot_classification)" where
  "clmm_apply_snapshot r sequence timestamp_ms state =
     snapshot_checked (clmm_check_snapshot r sequence timestamp_ms state) r sequence timestamp_ms state"

definition clmm_open_envelope :: "clmm_pool_reducer \<Rightarrow> pool_state_envelope \<Rightarrow> market_type_error + clmm_pool_state" where
  "clmm_open_envelope r env =
     bindR (state_envelope_validate env) (\<lambda>_.
     if pe_pool_id env \<noteq> rd_pool_id r then Inl TargetMismatch
     else case pe_state env of
       PS_Clmm c \<Rightarrow> Inr c
     | other \<Rightarrow> Inl (PoolKindMismatch ''clmm'' (kind_str other)))"

definition clmm_reset_with_envelope ::
  "clmm_pool_reducer \<Rightarrow> pool_state_envelope \<Rightarrow> clmm_pool_reducer \<times> (market_type_error + unit)" where
  "clmm_reset_with_envelope r env =
     (case clmm_open_envelope r env of
        Inl e \<Rightarrow> (r, Inl e)
      | Inr c \<Rightarrow> clmm_reset_with_snapshot r (pe_sequence env) (pe_observed_at_ms env) c)"

definition clmm_apply_snapshot_envelope ::
  "clmm_pool_reducer \<Rightarrow> pool_state_envelope \<Rightarrow> clmm_pool_reducer \<times> (market_type_error + snapshot_classification)" where
  "clmm_apply_snapshot_envelope r env =
     (case clmm_open_envelope r env of
        Inl e \<Rightarrow> (r, Inl e)
      | Inr c \<Rightarrow> clmm_apply_snapshot r (pe_sequence env) (pe_observed_at_ms env) c)"

fun clmm_alignment :: "u32 \<Rightarrow> clmm_tick list \<Rightarrow> market_type_error + unit" where
  "clmm_alignment spacing [] = Inr ()"
| "clmm_alignment spacing (tick # ticks) =
     (if rust_rem (tick_index tick) (as_i32 spacing) \<noteq> 0
      then Inl (TickSpacingMismatch (tick_index tick) spacing)
      else clmm_alignment spacing ticks)"

abbreviation upsert_tick :: "clmm_tick list \<Rightarrow> clmm_tick \<Rightarrow> clmm_tick list" where
  "upsert_tick \<equiv> upsert tick_index (\<lambda>t. tick_liquidity_gross t = 0)"

definition clmm_stage ::
  "usize \<Rightarrow> clmm_pool_state \<Rightarrow> clmm_pool_delta \<Rightarrow> market_type_error + clmm_pool_state" where
  "clmm_stage max_ticks state delta =
     bindR (clmm_alignment (cl_tick_spacing state) (cld_ticks delta)) (\<lambda>_.
     let staged = (case cld_current_tick delta of None \<Rightarrow> state | Some ct \<Rightarrow> state\<lparr>cl_current_tick := ct\<rparr>) in
     bindR (case cld_sqrt_price_x64 delta of
              None \<Rightarrow> Inr staged
            | Some sq \<Rightarrow> if sq = 0 then Inl ZeroPrice else Inr (staged\<lparr>cl_sqrt_price_x64 := sq\<rparr>)) (\<lambda>staged.
     let staged = (case cld_liquidity delta of None \<Rightarrow> staged | Some liq \<Rightarrow> staged\<lparr>cl_liquidity := liq\<rparr>);
         staged = (case cld_fee_bps delta of None \<Rightarrow> staged | Some fee \<Rightarrow> staged\<lparr>cl_fee_bps := fee\<rparr>);
         staged = staged\<lparr>cl_ticks := foldl upsert_tick (cl_ticks staged) (cld_ticks delta)\<rparr> in
     if max_ticks < length (cl_ticks staged)
     then Inl (ClmmTicksExceeded (length (cl_ticks staged)) max_ticks)
     else bindR (clmm_validate staged) (\<lambda>_. Inr staged)))"

definition clmm_apply_delta ::
  "clmm_pool_reducer \<Rightarrow> sequence_range \<Rightarrow> i64 \<Rightarrow> clmm_pool_delta \<Rightarrow>
   clmm_pool_reducer \<times> (market_type_error + delta_classification)" where
  "clmm_apply_delta r sequence_range timestamp_ms delta =
     delta_staged (clmm_delta_validate delta) (clmm_stage (rd_max r) (rd_state r) delta) r
       sequence_range timestamp_ms"

definition clmm_apply_delta_envelope ::
  "clmm_pool_reducer \<Rightarrow> clmm_pool_delta pool_delta_envelope \<Rightarrow>
   clmm_pool_reducer \<times> (market_type_error + delta_classification)" where
  "clmm_apply_delta_envelope r env =
     (case clmm_delta_envelope_validate env of
        Inl e \<Rightarrow> (r, Inl e)
      | Inr _ \<Rightarrow>
          if de_pool_id env \<noteq> rd_pool_id r then (r, Inl TargetMismatch)
          else clmm_apply_delta r (de_sequence_range env) (de_observed_at_ms env) (de_delta env))"

definition clmm_to_envelope :: "clmm_pool_reducer \<Rightarrow> pool_state_envelope" where
  "clmm_to_envelope r =
     \<lparr>pe_pool_id = rd_pool_id r, pe_sequence = rd_sequence r, pe_observed_at_ms = rd_timestamp_ms r,
      pe_state = PS_Clmm (rd_state r)\<rparr>"

section \<open>The bin reducer\<close>

definition bin_reducer_new ::
  "pool_id \<Rightarrow> sequence \<Rightarrow> i64 \<Rightarrow> bin_pool_state \<Rightarrow> usize \<Rightarrow> market_type_error + bin_pool_reducer" where
  "bin_reducer_new pid sequence timestamp_ms state max_bins =
     bindR (pool_id_validate pid) (\<lambda>_.
     bindR (sequence_validate sequence) (\<lambda>_.
     if timestamp_ms \<le> 0 then Inl (InvalidTimestamp timestamp_ms)
     else if max_bins = 0 \<or> MAX_BIN_COUNT < max_bins then Inl (BinsExceeded max_bins MAX_BIN_COUNT)
     else bindR (bin_validate state) (\<lambda>_.
     if asset_chain (bn_token_0 state) \<noteq> pid_chain pid then Inl ChainMismatch
     else if max_bins < length (bn_bins state)
     then Inl (BinsExceeded (length (bn_bins state)) max_bins)
     else Inr \<lparr>rd_pool_id = pid, rd_sequence = sequence, rd_timestamp_ms = timestamp_ms,
               rd_state = state, rd_resync_required = False, rd_max = max_bins\<rparr>)))"

definition bin_reducer_from_envelope ::
  "pool_state_envelope \<Rightarrow> usize \<Rightarrow> market_type_error + bin_pool_reducer" where
  "bin_reducer_from_envelope env max_bins =
     bindR (state_envelope_validate env) (\<lambda>_.
     case pe_state env of
       PS_Bin bin \<Rightarrow>
         bin_reducer_new (pe_pool_id env) (pe_sequence env) (pe_observed_at_ms env) bin max_bins
     | other \<Rightarrow> Inl (PoolKindMismatch ''bin'' (kind_str other)))"

definition bin_check_snapshot ::
  "bin_pool_reducer \<Rightarrow> sequence \<Rightarrow> i64 \<Rightarrow> bin_pool_state \<Rightarrow> market_type_error + unit" where
  "bin_check_snapshot r sequence timestamp_ms state =
     bindR (sequence_validate sequence) (\<lambda>_.
     if timestamp_ms \<le> 0 then Inl (InvalidTimestamp timestamp_ms)
     else bindR (bin_validate state) (\<lambda>_.
     if asset_chain (bn_token_0 state) \<noteq> pid_chain (rd_pool_id r) then Inl ChainMismatch
     else if bn_token_0 state \<noteq> bn_token_0 (rd_state r) \<or> bn_token_1 state \<noteq> bn_token_1 (rd_state r)
     then Inl TargetMismatch
     else if rd_max r < length (bn_bins state)
     then Inl (BinsExceeded (length (bn_bins state)) (rd_max r))
     else Inr ()))"

definition bin_reset_with_snapshot ::
  "bin_pool_reducer \<Rightarrow> sequence \<Rightarrow> i64 \<Rightarrow> bin_pool_state \<Rightarrow> bin_pool_reducer \<times> (market_type_error + unit)" where
  "bin_reset_with_snapshot r sequence timestamp_ms state =
     reset_checked (bin_check_snapshot r sequence timestamp_ms state) r sequence timestamp_ms state"

definition bin_apply_snapshot ::
  "bin_pool_reducer \<Rightarrow> sequence \<Rightarrow> i64 \<Rightarrow> bin_pool_state \<Rightarrow>
   bin_pool_reducer \<times> (market_type_error + snapshot_classification)" where
  "bin_apply_snapshot r sequence timestamp_ms state =
     snapshot_checked (bin_check_snapshot r sequence timestamp_ms state) r sequence timestamp_ms state"

definition bin_open_envelope :: "bin_pool_reducer \<Rightarrow> pool_state_envelope \<Rightarrow> market_type_error + bin_pool_state" where
  "bin_open_envelope r env =
     bindR (state_envelope_validate env) (\<lambda>_.
     if pe_pool_id env \<noteq> rd_pool_id r then Inl TargetMismatch
     else case pe_state env of
       PS_Bin b \<Rightarrow> Inr b
     | other \<Rightarrow> Inl (PoolKindMismatch ''bin'' (kind_str other)))"

definition bin_reset_with_envelope ::
  "bin_pool_reducer \<Rightarrow> pool_state_envelope \<Rightarrow> bin_pool_reducer \<times> (market_type_error + unit)" where
  "bin_reset_with_envelope r env =
     (case bin_open_envelope r env of
        Inl e \<Rightarrow> (r, Inl e)
      | Inr b \<Rightarrow> bin_reset_with_snapshot r (pe_sequence env) (pe_observed_at_ms env) b)"

definition bin_apply_snapshot_envelope ::
  "bin_pool_reducer \<Rightarrow> pool_state_envelope \<Rightarrow> bin_pool_reducer \<times> (market_type_error + snapshot_classification)" where
  "bin_apply_snapshot_envelope r env =
     (case bin_open_envelope r env of
        Inl e \<Rightarrow> (r, Inl e)
      | Inr b \<Rightarrow> bin_apply_snapshot r (pe_sequence env) (pe_observed_at_ms env) b)"

abbreviation upsert_bin :: "liquidity_bin list \<Rightarrow> liquidity_bin \<Rightarrow> liquidity_bin list" where
  "upsert_bin \<equiv> upsert bin_id (\<lambda>b. bin_reserve_0 b = 0 \<and> bin_reserve_1 b = 0)"

definition bin_stage ::
  "usize \<Rightarrow> bin_pool_state \<Rightarrow> bin_pool_delta \<Rightarrow> market_type_error + bin_pool_state" where
  "bin_stage max_bins state delta =
     (let staged = (case bnd_active_bin_id delta of None \<Rightarrow> state | Some i \<Rightarrow> state\<lparr>bn_active_bin_id := i\<rparr>);
          staged = (case bnd_bin_step delta of None \<Rightarrow> staged | Some step \<Rightarrow> staged\<lparr>bn_bin_step := step\<rparr>);
          staged = (case bnd_fee_bps delta of None \<Rightarrow> staged | Some fee \<Rightarrow> staged\<lparr>bn_fee_bps := fee\<rparr>);
          staged = staged\<lparr>bn_bins := foldl upsert_bin (bn_bins staged) (bnd_bins delta)\<rparr> in
      if max_bins < length (bn_bins staged)
      then Inl (BinsExceeded (length (bn_bins staged)) max_bins)
      else bindR (bin_validate staged) (\<lambda>_. Inr staged))"

definition bin_apply_delta ::
  "bin_pool_reducer \<Rightarrow> sequence_range \<Rightarrow> i64 \<Rightarrow> bin_pool_delta \<Rightarrow>
   bin_pool_reducer \<times> (market_type_error + delta_classification)" where
  "bin_apply_delta r sequence_range timestamp_ms delta =
     delta_staged (bin_delta_validate delta) (bin_stage (rd_max r) (rd_state r) delta) r
       sequence_range timestamp_ms"

definition bin_apply_delta_envelope ::
  "bin_pool_reducer \<Rightarrow> bin_pool_delta pool_delta_envelope \<Rightarrow>
   bin_pool_reducer \<times> (market_type_error + delta_classification)" where
  "bin_apply_delta_envelope r env =
     (case bin_delta_envelope_validate env of
        Inl e \<Rightarrow> (r, Inl e)
      | Inr _ \<Rightarrow>
          if de_pool_id env \<noteq> rd_pool_id r then (r, Inl TargetMismatch)
          else bin_apply_delta r (de_sequence_range env) (de_observed_at_ms env) (de_delta env))"

definition bin_to_envelope :: "bin_pool_reducer \<Rightarrow> pool_state_envelope" where
  "bin_to_envelope r =
     \<lparr>pe_pool_id = rd_pool_id r, pe_sequence = rd_sequence r, pe_observed_at_ms = rd_timestamp_ms r,
      pe_state = PS_Bin (rd_state r)\<rparr>"

section \<open>The dispatching reducer\<close>

datatype any_reducer =
    PR_Cpmm cpmm_pool_reducer
  | PR_Clmm clmm_pool_reducer
  | PR_Bin bin_pool_reducer

definition reducer_with_bounds ::
  "pool_state_envelope \<Rightarrow> usize \<Rightarrow> usize \<Rightarrow> market_type_error + any_reducer" where
  "reducer_with_bounds env max_ticks max_bins =
     bindR (state_envelope_validate env) (\<lambda>_.
     case pe_state env of
       PS_Cpmm cpmm \<Rightarrow>
         bindR (cpmm_reducer_new (pe_pool_id env) (pe_sequence env) (pe_observed_at_ms env) cpmm)
           (\<lambda>r. Inr (PR_Cpmm r))
     | PS_Clmm clmm \<Rightarrow>
         bindR (clmm_reducer_new (pe_pool_id env) (pe_sequence env) (pe_observed_at_ms env) clmm max_ticks)
           (\<lambda>r. Inr (PR_Clmm r))
     | PS_Bin bin \<Rightarrow>
         bindR (bin_reducer_new (pe_pool_id env) (pe_sequence env) (pe_observed_at_ms env) bin max_bins)
           (\<lambda>r. Inr (PR_Bin r)))"

definition any_reducer_new :: "pool_state_envelope \<Rightarrow> market_type_error + any_reducer" where
  "any_reducer_new env = reducer_with_bounds env MAX_CLMM_TICKS MAX_BIN_COUNT"

fun any_pool_id :: "any_reducer \<Rightarrow> pool_id" where
  "any_pool_id (PR_Cpmm r) = rd_pool_id r"
| "any_pool_id (PR_Clmm r) = rd_pool_id r"
| "any_pool_id (PR_Bin r) = rd_pool_id r"

fun any_sequence :: "any_reducer \<Rightarrow> sequence" where
  "any_sequence (PR_Cpmm r) = rd_sequence r"
| "any_sequence (PR_Clmm r) = rd_sequence r"
| "any_sequence (PR_Bin r) = rd_sequence r"

fun any_timestamp_ms :: "any_reducer \<Rightarrow> i64" where
  "any_timestamp_ms (PR_Cpmm r) = rd_timestamp_ms r"
| "any_timestamp_ms (PR_Clmm r) = rd_timestamp_ms r"
| "any_timestamp_ms (PR_Bin r) = rd_timestamp_ms r"

fun any_is_resync_required :: "any_reducer \<Rightarrow> bool" where
  "any_is_resync_required (PR_Cpmm r) = rd_resync_required r"
| "any_is_resync_required (PR_Clmm r) = rd_resync_required r"
| "any_is_resync_required (PR_Bin r) = rd_resync_required r"

fun any_trigger_resync :: "any_reducer \<Rightarrow> any_reducer" where
  "any_trigger_resync (PR_Cpmm r) = PR_Cpmm (reducer_trigger_resync r)"
| "any_trigger_resync (PR_Clmm r) = PR_Clmm (reducer_trigger_resync r)"
| "any_trigger_resync (PR_Bin r) = PR_Bin (reducer_trigger_resync r)"

fun any_state :: "any_reducer \<Rightarrow> pool_kind_state" where
  "any_state (PR_Cpmm r) = PS_Cpmm (rd_state r)"
| "any_state (PR_Clmm r) = PS_Clmm (rd_state r)"
| "any_state (PR_Bin r) = PS_Bin (rd_state r)"

fun any_to_envelope :: "any_reducer \<Rightarrow> pool_state_envelope" where
  "any_to_envelope (PR_Cpmm r) = cpmm_to_envelope r"
| "any_to_envelope (PR_Clmm r) = clmm_to_envelope r"
| "any_to_envelope (PR_Bin r) = bin_to_envelope r"

fun reducer_kind_str :: "any_reducer \<Rightarrow> string" where
  "reducer_kind_str (PR_Cpmm _) = ''cpmm''"
| "reducer_kind_str (PR_Clmm _) = ''clmm''"
| "reducer_kind_str (PR_Bin _) = ''bin''"

definition any_reset_with_envelope ::
  "any_reducer \<Rightarrow> pool_state_envelope \<Rightarrow> any_reducer \<times> (market_type_error + unit)" where
  "any_reset_with_envelope self env =
     (case state_envelope_validate env of
        Inl e \<Rightarrow> (self, Inl e)
      | Inr _ \<Rightarrow>
          if pe_pool_id env \<noteq> any_pool_id self then (self, Inl TargetMismatch)
          else case (self, pe_state env) of
            (PR_Cpmm r, PS_Cpmm c) \<Rightarrow>
              map_prod PR_Cpmm id (cpmm_reset_with_snapshot r (pe_sequence env) (pe_observed_at_ms env) c)
          | (PR_Clmm r, PS_Clmm c) \<Rightarrow>
              map_prod PR_Clmm id (clmm_reset_with_snapshot r (pe_sequence env) (pe_observed_at_ms env) c)
          | (PR_Bin r, PS_Bin b) \<Rightarrow>
              map_prod PR_Bin id (bin_reset_with_snapshot r (pe_sequence env) (pe_observed_at_ms env) b)
          | (_, other) \<Rightarrow> (self, Inl (PoolKindMismatch (reducer_kind_str self) (kind_str other))))"

definition any_apply_snapshot ::
  "any_reducer \<Rightarrow> pool_state_envelope \<Rightarrow> any_reducer \<times> (market_type_error + snapshot_classification)" where
  "any_apply_snapshot self env =
     (case state_envelope_validate env of
        Inl e \<Rightarrow> (self, Inl e)
      | Inr _ \<Rightarrow>
          if pe_pool_id env \<noteq> any_pool_id self then (self, Inl TargetMismatch)
          else case (self, pe_state env) of
            (PR_Cpmm r, PS_Cpmm c) \<Rightarrow>
              map_prod PR_Cpmm id (cpmm_apply_snapshot r (pe_sequence env) (pe_observed_at_ms env) c)
          | (PR_Clmm r, PS_Clmm c) \<Rightarrow>
              map_prod PR_Clmm id (clmm_apply_snapshot r (pe_sequence env) (pe_observed_at_ms env) c)
          | (PR_Bin r, PS_Bin b) \<Rightarrow>
              map_prod PR_Bin id (bin_apply_snapshot r (pe_sequence env) (pe_observed_at_ms env) b)
          | (_, other) \<Rightarrow> (self, Inl (PoolKindMismatch (reducer_kind_str self) (kind_str other))))"

definition any_apply_delta ::
  "any_reducer \<Rightarrow> pool_kind_delta pool_delta_envelope \<Rightarrow> any_reducer \<times> (market_type_error + delta_classification)" where
  "any_apply_delta self env =
     (case pool_delta_validate env of
        Inl e \<Rightarrow> (self, Inl e)
      | Inr _ \<Rightarrow>
          if de_pool_id env \<noteq> any_pool_id self then (self, Inl TargetMismatch)
          else case (self, de_delta env) of
            (PR_Cpmm r, PD_Cpmm d) \<Rightarrow>
              map_prod PR_Cpmm id (cpmm_apply_delta r (de_sequence_range env) (de_observed_at_ms env) d)
          | (PR_Clmm r, PD_Clmm d) \<Rightarrow>
              map_prod PR_Clmm id (clmm_apply_delta r (de_sequence_range env) (de_observed_at_ms env) d)
          | (PR_Bin r, PD_Bin d) \<Rightarrow>
              map_prod PR_Bin id (bin_apply_delta r (de_sequence_range env) (de_observed_at_ms env) d)
          | (_, other) \<Rightarrow> (self, Inl (PoolKindMismatch (reducer_kind_str self) (kind_delta_str other))))"

section \<open>The contract of a reducer\<close>

text \<open>A message sent to a reducer, and the reducer after it.\<close>

datatype ('s, 'd) reducer_message = Msg_snapshot 's | Msg_delta 'd | Msg_resync

fun reducer_step ::
  "('r \<Rightarrow> 's \<Rightarrow> 'r \<times> 'x) \<Rightarrow> ('r \<Rightarrow> 'd \<Rightarrow> 'r \<times> 'y) \<Rightarrow> ('r \<Rightarrow> 'r) \<Rightarrow>
   'r \<Rightarrow> ('s, 'd) reducer_message \<Rightarrow> 'r" where
  "reducer_step snapshot delta resync r (Msg_snapshot s) = fst (snapshot r s)"
| "reducer_step snapshot delta resync r (Msg_delta d) = fst (delta r d)"
| "reducer_step snapshot delta resync r Msg_resync = resync r"

text \<open>
  A reducer of states \<open>'r\<close> fed with snapshot messages and delta messages. \<open>wf\<close> is its
  invariant, \<open>data\<close> the pool state it publishes and \<open>tracker_of\<close> the stream tracker it
  refines. Rejected messages change nothing; an answered message is answered as the tracker
  answers it; only a contiguous delta or an accepted snapshot changes the published state.
\<close>

locale sequenced_reducer =
  fixes wf :: "'r \<Rightarrow> bool"
    and data :: "'r \<Rightarrow> 'a"
    and tracker_of :: "'r \<Rightarrow> stream_tracker"
    and snapshot :: "'r \<Rightarrow> 's \<Rightarrow> 'r \<times> (market_type_error + snapshot_classification)"
    and snapshot_seq :: "'s \<Rightarrow> sequence"
    and snapshot_time :: "'s \<Rightarrow> i64"
    and delta :: "'r \<Rightarrow> 'd \<Rightarrow> 'r \<times> (market_type_error + delta_classification)"
    and delta_range :: "'d \<Rightarrow> sequence_range"
    and delta_time :: "'d \<Rightarrow> i64"
    and resync :: "'r \<Rightarrow> 'r"
  assumes snapshot_wf: "wf r \<Longrightarrow> wf (fst (snapshot r s))"
    and delta_wf: "wf r \<Longrightarrow> wf (fst (delta r d))"
    and resync_wf: "wf r \<Longrightarrow> wf (resync r)"
    and snapshot_rejected: "snapshot r s = (r', Inl e) \<Longrightarrow> r' = r"
    and delta_rejected: "delta r d = (r', Inl e) \<Longrightarrow> r' = r"
    and snapshot_answered: "snapshot r s = (r', Inr k) \<Longrightarrow>
      \<exists>t. apply_snapshot_sequence (tracker_of r) (snapshot_seq s) (snapshot_time s) = (t, k) \<and>
          tracker_of r' = t\<lparr>st_baseline_sequence := None\<rparr>"
    and delta_answered: "delta r d = (r', Inr c) \<Longrightarrow>
      apply_delta_range (tracker_of r) (delta_range d) (delta_time d) = (tracker_of r', c)"
    and resync_tracked: "tracker_of (resync r) = trigger_resync (tracker_of r)"
    and snapshot_kept: "snapshot r s = (r', Inr k) \<Longrightarrow> (\<And>n. k \<noteq> SC_Accepted n) \<Longrightarrow> data r' = data r"
    and delta_kept: "delta r d = (r', Inr c) \<Longrightarrow> (\<And>n. c \<noteq> DC_Contiguous n) \<Longrightarrow> data r' = data r"
    and resync_kept: "data (resync r) = data r"
    and no_baseline: "st_baseline_sequence (tracker_of r) = None"
begin

abbreviation step :: "'r \<Rightarrow> ('s, 'd) reducer_message \<Rightarrow> 'r" where
  "step \<equiv> reducer_step snapshot delta resync"

lemma step_wf: "wf r \<Longrightarrow> wf (step r m)"
  by (cases m) (simp_all add: snapshot_wf delta_wf resync_wf)

lemma run_wf: "wf r \<Longrightarrow> wf (foldl step r ms)"
  by (induction ms arbitrary: r) (simp_all add: step_wf)

text \<open>What a message does to the tracker: nothing, or what the tracker does by itself.\<close>

lemma step_cases:
  obtains (rejected) "step r m = r"
  | (snapshot) s t k where "m = Msg_snapshot s"
      "apply_snapshot_sequence (tracker_of r) (snapshot_seq s) (snapshot_time s) = (t, k)"
      "tracker_of (step r m) = t\<lparr>st_baseline_sequence := None\<rparr>"
      "(\<And>n. k \<noteq> SC_Accepted n) \<Longrightarrow> data (step r m) = data r"
  | (delta) d c where "m = Msg_delta d"
      "apply_delta_range (tracker_of r) (delta_range d) (delta_time d) = (tracker_of (step r m), c)"
      "(\<And>n. c \<noteq> DC_Contiguous n) \<Longrightarrow> data (step r m) = data r"
  | (resync) "m = Msg_resync" "tracker_of (step r m) = trigger_resync (tracker_of r)"
      "data (step r m) = data r"
proof (cases m)
  case (Msg_snapshot s)
  obtain r' x where s: "snapshot r s = (r', x)" by fastforce
  show ?thesis
  proof (cases x)
    case (Inl e)
    with s snapshot_rejected that(1) show ?thesis by (auto simp: Msg_snapshot)
  next
    case (Inr k)
    with s snapshot_answered obtain t where
      "apply_snapshot_sequence (tracker_of r) (snapshot_seq s) (snapshot_time s) = (t, k)"
      "tracker_of r' = t\<lparr>st_baseline_sequence := None\<rparr>" by blast
    with s Inr snapshot_kept that(2) show ?thesis by (simp add: Msg_snapshot)
  qed
next
  case (Msg_delta d)
  obtain r' x where d: "delta r d = (r', x)" by fastforce
  show ?thesis
  proof (cases x)
    case (Inl e)
    with d delta_rejected that(1) show ?thesis by (auto simp: Msg_delta)
  next
    case (Inr c)
    with d delta_answered delta_kept that(3) show ?thesis by (simp add: Msg_delta)
  qed
next
  case Msg_resync
  with that(4) show ?thesis by (simp add: resync_tracked resync_kept)
qed

lemma step_monotone:
  "position_le (st_current_sequence (tracker_of r)) (st_current_sequence (tracker_of (step r m)))"
proof (cases rule: step_cases [where r = r and m = m, case_names rejected snapshot delta resync])
  case (snapshot s t k)
  with stream_step_monotone [of "tracker_of r" "Ev_snapshot (snapshot_seq s) (snapshot_time s)"]
  show ?thesis by simp
next
  case (delta d c)
  with stream_step_monotone [of "tracker_of r" "Ev_delta (delta_range d) (delta_time d)"]
  show ?thesis by simp
next
  case resync
  with stream_step_monotone [of "tracker_of r" Ev_trigger_resync] show ?thesis by simp
qed simp

lemma run_monotone:
  "position_le (st_current_sequence (tracker_of r)) (st_current_sequence (tracker_of (foldl step r ms)))"
proof (induction ms arbitrary: r)
  case (Cons m ms)
  show ?case using position_le_trans [OF step_monotone Cons.IH] by simp
qed simp

text \<open>In resync, only a snapshot beyond the current sequence has an effect.\<close>

lemma step_latched:
  assumes "st_resync_required (tracker_of r)"
    and "\<And>s. m = Msg_snapshot s \<Longrightarrow> \<exists>c. st_current_sequence (tracker_of r) = Some c \<and> snapshot_seq s \<le> c"
  shows "data (step r m) = data r \<and> tracker_of (step r m) = tracker_of r"
proof (cases rule: step_cases [where r = r and m = m, case_names rejected snapshot delta resync])
  case (snapshot s t k)
  with assms(2) have "(\<forall>n. k \<noteq> SC_Accepted n) \<and> t = tracker_of r"
    by (auto simp: apply_snapshot_sequence_def split: if_splits)
  with snapshot no_baseline show ?thesis by simp
next
  case (delta d c)
  then have "(\<forall>n. c \<noteq> DC_Contiguous n) \<and> tracker_of (step r m) = tracker_of r"
    using assms(1) by (auto elim!: apply_delta_range_cases)
  with delta show ?thesis by simp
next
  case resync
  with assms(1) show ?thesis by (simp add: trigger_resync_def)
qed simp

lemma run_latched:
  assumes "st_resync_required (tracker_of r)"
    and "\<forall>s. Msg_snapshot s \<in> set ms \<longrightarrow>
      (\<exists>c. st_current_sequence (tracker_of r) = Some c \<and> snapshot_seq s \<le> c)"
  shows "data (foldl step r ms) = data r \<and> tracker_of (foldl step r ms) = tracker_of r"
  using assms
proof (induction ms arbitrary: r)
  case (Cons m ms)
  have "data (step r m) = data r \<and> tracker_of (step r m) = tracker_of r"
    using Cons.prems by (intro step_latched) auto
  with Cons.IH [of "step r m"] Cons.prems show ?case by auto
qed simp

end

section \<open>The reducers keep the contract\<close>

definition reducer_tracker :: "('s, 'z) pool_reducer_scheme \<Rightarrow> stream_tracker" where
  "reducer_tracker r =
     \<lparr>st_target = FT_Pool (rd_pool_id r), st_baseline_sequence = None,
      st_current_sequence = Some (rd_sequence r), st_last_timestamp_ms = Some (rd_timestamp_ms r),
      st_resync_required = rd_resync_required r\<rparr>"

definition reducer_meta_wf :: "('s, 'z) pool_reducer_scheme \<Rightarrow> bool" where
  "reducer_meta_wf r \<longleftrightarrow>
     pool_id_validate (rd_pool_id r) = Inr () \<and> rd_sequence r \<noteq> 0 \<and> 0 < rd_timestamp_ms r"

lemma delta_staged_rejected: "delta_staged v st r rng ts = (r', Inl e) \<Longrightarrow> r' = r"
  by (auto simp: delta_staged_def split: if_splits sum.splits)

lemma delta_staged_answered:
  "delta_staged v st r rng ts = (r', Inr c) \<Longrightarrow>
     apply_delta_range (reducer_tracker r) rng ts = (reducer_tracker r', c)"
  by (auto simp: delta_staged_def apply_delta_range_def classify_delta_range_def reducer_tracker_def Let_def
      split: if_splits sum.splits)

lemma delta_staged_kept:
  "delta_staged v st r rng ts = (r', Inr c) \<Longrightarrow> (\<exists>n. c = DC_Contiguous n) \<or> rd_state r' = rd_state r"
  by (auto simp: delta_staged_def split: if_splits sum.splits)

lemma delta_staged_preserves:
  assumes "P r" and "P (r\<lparr>rd_resync_required := True\<rparr>)"
    and "\<And>x. st = Inr x \<Longrightarrow> v = Inr () \<Longrightarrow> sr_end rng \<noteq> 0 \<Longrightarrow> 0 < ts \<Longrightarrow>
      P (r\<lparr>rd_state := x, rd_sequence := sr_end rng, rd_timestamp_ms := ts\<rparr>)"
  shows "P (fst (delta_staged v st r rng ts))"
  using assms
  by (cases st; cases v) (auto simp: delta_staged_def range_validate_def)

lemma snapshot_checked_rejected: "snapshot_checked v r s ts x = (r', Inl e) \<Longrightarrow> r' = r"
  by (auto simp: snapshot_checked_def split: if_splits sum.splits)

lemma snapshot_checked_answered:
  "snapshot_checked v r s ts x = (r', Inr c) \<Longrightarrow>
     \<exists>t. apply_snapshot_sequence (reducer_tracker r) s ts = (t, c) \<and>
         reducer_tracker r' = t\<lparr>st_baseline_sequence := None\<rparr>"
  by (auto simp: snapshot_checked_def apply_snapshot_sequence_def accept_snapshot_sequence_def
      reducer_tracker_def install_snapshot_def split: if_splits sum.splits)

lemma snapshot_checked_kept:
  "snapshot_checked v r s ts x = (r', Inr c) \<Longrightarrow> (\<exists>n. c = SC_Accepted n) \<or> rd_state r' = rd_state r"
  by (auto simp: snapshot_checked_def split: if_splits sum.splits)

lemma snapshot_checked_preserves:
  "P r \<Longrightarrow> (v = Inr () \<Longrightarrow> P (install_snapshot r s ts x)) \<Longrightarrow> P (fst (snapshot_checked v r s ts x))"
  by (cases v) (auto simp: snapshot_checked_def)

lemma reset_checked_preserves:
  "P r \<Longrightarrow> (v = Inr () \<Longrightarrow> P (install_snapshot r s ts x)) \<Longrightarrow> P (fst (reset_checked v r s ts x))"
  by (cases v) (auto simp: reset_checked_def)

text \<open>The invariants.\<close>

definition cpmm_wf :: "cpmm_pool_reducer \<Rightarrow> bool" where
  "cpmm_wf r \<longleftrightarrow> reducer_meta_wf r \<and> cpmm_validate (rd_state r) = Inr () \<and>
     asset_chain (cp_token_0 (rd_state r)) = pid_chain (rd_pool_id r) \<and>
     cp_reserve_0 (rd_state r) \<noteq> 0 \<and> cp_reserve_1 (rd_state r) \<noteq> 0"

definition clmm_wf :: "clmm_pool_reducer \<Rightarrow> bool" where
  "clmm_wf r \<longleftrightarrow> reducer_meta_wf r \<and> clmm_validate (rd_state r) = Inr () \<and>
     asset_chain (cl_token_0 (rd_state r)) = pid_chain (rd_pool_id r) \<and>
     cl_sqrt_price_x64 (rd_state r) \<noteq> 0 \<and> length (cl_ticks (rd_state r)) \<le> rd_max r \<and>
     0 < rd_max r \<and> rd_max r \<le> MAX_CLMM_TICKS"

definition bin_wf :: "bin_pool_reducer \<Rightarrow> bool" where
  "bin_wf r \<longleftrightarrow> reducer_meta_wf r \<and> bin_validate (rd_state r) = Inr () \<and>
     asset_chain (bn_token_0 (rd_state r)) = pid_chain (rd_pool_id r) \<and>
     length (bn_bins (rd_state r)) \<le> rd_max r \<and> 0 < rd_max r \<and> rd_max r \<le> MAX_BIN_COUNT"

fun any_wf :: "any_reducer \<Rightarrow> bool" where
  "any_wf (PR_Cpmm r) = cpmm_wf r"
| "any_wf (PR_Clmm r) = clmm_wf r"
| "any_wf (PR_Bin r) = bin_wf r"

lemmas reducer_wf_defs = cpmm_wf_def clmm_wf_def bin_wf_def reducer_meta_wf_def

lemma cpmm_stage_ok:
  "cpmm_stage st d = Inr st' \<Longrightarrow> cpmm_validate st' = Inr () \<and> cp_reserve_0 st' \<noteq> 0 \<and> cp_reserve_1 st' \<noteq> 0 \<and>
     cp_token_0 st' = cp_token_0 st"
  by (auto simp: cpmm_stage_def result_iff Let_def split: option.splits if_splits)

lemma clmm_stage_ok:
  "clmm_stage m st d = Inr st' \<Longrightarrow> clmm_validate st' = Inr () \<and> length (cl_ticks st') \<le> m \<and>
     cl_token_0 st' = cl_token_0 st \<and> (cl_sqrt_price_x64 st \<noteq> 0 \<longrightarrow> cl_sqrt_price_x64 st' \<noteq> 0) \<and>
     cl_ticks st' = foldl upsert_tick (cl_ticks st) (cld_ticks d)"
  by (auto simp: clmm_stage_def result_iff Let_def split: option.splits if_splits)

lemma bin_stage_ok:
  "bin_stage m st d = Inr st' \<Longrightarrow> bin_validate st' = Inr () \<and> length (bn_bins st') \<le> m \<and>
     bn_token_0 st' = bn_token_0 st \<and> bn_bins st' = foldl upsert_bin (bn_bins st) (bnd_bins d)"
  by (auto simp: bin_stage_def result_iff Let_def split: option.splits if_splits)

lemma cpmm_check_ok:
  "cpmm_check_snapshot r s ts x = Inr () \<Longrightarrow> cpmm_wf r \<Longrightarrow> cpmm_wf (install_snapshot r s ts x)"
  by (auto simp: cpmm_check_snapshot_def reducer_wf_defs install_snapshot_def sequence_validate_def
      result_iff split: if_splits)

lemma clmm_check_ok:
  "clmm_check_snapshot r s ts x = Inr () \<Longrightarrow> clmm_wf r \<Longrightarrow> clmm_wf (install_snapshot r s ts x)"
  by (auto simp: clmm_check_snapshot_def reducer_wf_defs install_snapshot_def sequence_validate_def
      result_iff split: if_splits)

lemma bin_check_ok:
  "bin_check_snapshot r s ts x = Inr () \<Longrightarrow> bin_wf r \<Longrightarrow> bin_wf (install_snapshot r s ts x)"
  by (auto simp: bin_check_snapshot_def reducer_wf_defs install_snapshot_def sequence_validate_def
      result_iff split: if_splits)

lemma cpmm_snapshot_wf: "cpmm_wf r \<Longrightarrow> cpmm_wf (fst (cpmm_apply_snapshot r s ts x))"
  unfolding cpmm_apply_snapshot_def by (rule snapshot_checked_preserves) (simp_all add: cpmm_check_ok)

lemma clmm_snapshot_wf: "clmm_wf r \<Longrightarrow> clmm_wf (fst (clmm_apply_snapshot r s ts x))"
  unfolding clmm_apply_snapshot_def by (rule snapshot_checked_preserves) (simp_all add: clmm_check_ok)

lemma bin_snapshot_wf: "bin_wf r \<Longrightarrow> bin_wf (fst (bin_apply_snapshot r s ts x))"
  unfolding bin_apply_snapshot_def by (rule snapshot_checked_preserves) (simp_all add: bin_check_ok)

lemma cpmm_reset_wf: "cpmm_wf r \<Longrightarrow> cpmm_wf (fst (cpmm_reset_with_snapshot r s ts x))"
  unfolding cpmm_reset_with_snapshot_def by (rule reset_checked_preserves) (simp_all add: cpmm_check_ok)

lemma clmm_reset_wf: "clmm_wf r \<Longrightarrow> clmm_wf (fst (clmm_reset_with_snapshot r s ts x))"
  unfolding clmm_reset_with_snapshot_def by (rule reset_checked_preserves) (simp_all add: clmm_check_ok)

lemma bin_reset_wf: "bin_wf r \<Longrightarrow> bin_wf (fst (bin_reset_with_snapshot r s ts x))"
  unfolding bin_reset_with_snapshot_def by (rule reset_checked_preserves) (simp_all add: bin_check_ok)

lemma cpmm_delta_wf: "cpmm_wf r \<Longrightarrow> cpmm_wf (fst (cpmm_apply_delta r rng ts d))"
  unfolding cpmm_apply_delta_def
  by (rule delta_staged_preserves) (auto simp: reducer_wf_defs dest!: cpmm_stage_ok)

lemma clmm_delta_wf: "clmm_wf r \<Longrightarrow> clmm_wf (fst (clmm_apply_delta r rng ts d))"
  unfolding clmm_apply_delta_def
  by (rule delta_staged_preserves) (auto simp: reducer_wf_defs dest!: clmm_stage_ok)

lemma bin_delta_wf: "bin_wf r \<Longrightarrow> bin_wf (fst (bin_apply_delta r rng ts d))"
  unfolding bin_apply_delta_def
  by (rule delta_staged_preserves) (auto simp: reducer_wf_defs dest!: bin_stage_ok)

lemma resync_wf:
  "cpmm_wf r \<Longrightarrow> cpmm_wf (reducer_trigger_resync r)"
  "clmm_wf r' \<Longrightarrow> clmm_wf (reducer_trigger_resync r')"
  "bin_wf r'' \<Longrightarrow> bin_wf (reducer_trigger_resync r'')"
  by (simp_all add: reducer_wf_defs reducer_trigger_resync_def)

lemma reducer_trigger_tracked: "reducer_tracker (reducer_trigger_resync r) = trigger_resync (reducer_tracker r)"
  by (simp add: reducer_tracker_def reducer_trigger_resync_def trigger_resync_def)

lemmas snapshot_checked_facts = snapshot_checked_rejected snapshot_checked_answered snapshot_checked_kept

lemmas delta_staged_facts = delta_staged_rejected delta_staged_answered delta_staged_kept

interpretation cpr: sequenced_reducer cpmm_wf rd_state reducer_tracker
  cpmm_apply_snapshot_envelope pe_sequence pe_observed_at_ms
  cpmm_apply_delta_envelope de_sequence_range de_observed_at_ms reducer_trigger_resync
proof
  fix r r' :: cpmm_pool_reducer and s d e k c
  note defs = cpmm_apply_snapshot_envelope_def cpmm_apply_snapshot_def
    cpmm_apply_delta_envelope_def cpmm_apply_delta_def
  show "cpmm_wf r \<Longrightarrow> cpmm_wf (fst (cpmm_apply_snapshot_envelope r s))"
    by (auto simp: cpmm_apply_snapshot_envelope_def cpmm_snapshot_wf split: sum.splits)
  show "cpmm_wf r \<Longrightarrow> cpmm_wf (fst (cpmm_apply_delta_envelope r d))"
    by (auto simp: cpmm_apply_delta_envelope_def cpmm_delta_wf split: sum.splits)
  show "cpmm_wf r \<Longrightarrow> cpmm_wf (reducer_trigger_resync r)" by (rule resync_wf)
  show "cpmm_apply_snapshot_envelope r s = (r', Inl e) \<Longrightarrow> r' = r"
    by (auto simp: defs split: sum.splits dest: snapshot_checked_facts)
  show "cpmm_apply_delta_envelope r d = (r', Inl e) \<Longrightarrow> r' = r"
    by (auto simp: defs split: sum.splits if_splits dest: delta_staged_facts)
  show "cpmm_apply_snapshot_envelope r s = (r', Inr k) \<Longrightarrow>
      \<exists>t. apply_snapshot_sequence (reducer_tracker r) (pe_sequence s) (pe_observed_at_ms s) = (t, k) \<and>
          reducer_tracker r' = t\<lparr>st_baseline_sequence := None\<rparr>"
    by (auto simp: defs split: sum.splits dest: snapshot_checked_facts)
  show "cpmm_apply_delta_envelope r d = (r', Inr c) \<Longrightarrow>
      apply_delta_range (reducer_tracker r) (de_sequence_range d) (de_observed_at_ms d) = (reducer_tracker r', c)"
    by (auto simp: defs split: sum.splits if_splits dest: delta_staged_facts)
  show "cpmm_apply_snapshot_envelope r s = (r', Inr k) \<Longrightarrow> (\<And>n. k \<noteq> SC_Accepted n) \<Longrightarrow> rd_state r' = rd_state r"
    by (auto simp: defs split: sum.splits dest: snapshot_checked_facts)
  show "cpmm_apply_delta_envelope r d = (r', Inr c) \<Longrightarrow> (\<And>n. c \<noteq> DC_Contiguous n) \<Longrightarrow> rd_state r' = rd_state r"
    by (auto simp: defs split: sum.splits if_splits dest: delta_staged_facts)
qed (simp_all add: reducer_trigger_tracked, simp_all add: reducer_trigger_resync_def reducer_tracker_def)

interpretation clr: sequenced_reducer clmm_wf rd_state reducer_tracker
  clmm_apply_snapshot_envelope pe_sequence pe_observed_at_ms
  clmm_apply_delta_envelope de_sequence_range de_observed_at_ms reducer_trigger_resync
proof
  fix r r' :: clmm_pool_reducer and s d e k c
  note defs = clmm_apply_snapshot_envelope_def clmm_apply_snapshot_def
    clmm_apply_delta_envelope_def clmm_apply_delta_def
  show "clmm_wf r \<Longrightarrow> clmm_wf (fst (clmm_apply_snapshot_envelope r s))"
    by (auto simp: clmm_apply_snapshot_envelope_def clmm_snapshot_wf split: sum.splits)
  show "clmm_wf r \<Longrightarrow> clmm_wf (fst (clmm_apply_delta_envelope r d))"
    by (auto simp: clmm_apply_delta_envelope_def clmm_delta_wf split: sum.splits)
  show "clmm_wf r \<Longrightarrow> clmm_wf (reducer_trigger_resync r)" by (rule resync_wf)
  show "clmm_apply_snapshot_envelope r s = (r', Inl e) \<Longrightarrow> r' = r"
    by (auto simp: defs split: sum.splits dest: snapshot_checked_facts)
  show "clmm_apply_delta_envelope r d = (r', Inl e) \<Longrightarrow> r' = r"
    by (auto simp: defs split: sum.splits if_splits dest: delta_staged_facts)
  show "clmm_apply_snapshot_envelope r s = (r', Inr k) \<Longrightarrow>
      \<exists>t. apply_snapshot_sequence (reducer_tracker r) (pe_sequence s) (pe_observed_at_ms s) = (t, k) \<and>
          reducer_tracker r' = t\<lparr>st_baseline_sequence := None\<rparr>"
    by (auto simp: defs split: sum.splits dest: snapshot_checked_facts)
  show "clmm_apply_delta_envelope r d = (r', Inr c) \<Longrightarrow>
      apply_delta_range (reducer_tracker r) (de_sequence_range d) (de_observed_at_ms d) = (reducer_tracker r', c)"
    by (auto simp: defs split: sum.splits if_splits dest: delta_staged_facts)
  show "clmm_apply_snapshot_envelope r s = (r', Inr k) \<Longrightarrow> (\<And>n. k \<noteq> SC_Accepted n) \<Longrightarrow> rd_state r' = rd_state r"
    by (auto simp: defs split: sum.splits dest: snapshot_checked_facts)
  show "clmm_apply_delta_envelope r d = (r', Inr c) \<Longrightarrow> (\<And>n. c \<noteq> DC_Contiguous n) \<Longrightarrow> rd_state r' = rd_state r"
    by (auto simp: defs split: sum.splits if_splits dest: delta_staged_facts)
qed (simp_all add: reducer_trigger_tracked, simp_all add: reducer_trigger_resync_def reducer_tracker_def)

interpretation bnr: sequenced_reducer bin_wf rd_state reducer_tracker
  bin_apply_snapshot_envelope pe_sequence pe_observed_at_ms
  bin_apply_delta_envelope de_sequence_range de_observed_at_ms reducer_trigger_resync
proof
  fix r r' :: bin_pool_reducer and s d e k c
  note defs = bin_apply_snapshot_envelope_def bin_apply_snapshot_def
    bin_apply_delta_envelope_def bin_apply_delta_def
  show "bin_wf r \<Longrightarrow> bin_wf (fst (bin_apply_snapshot_envelope r s))"
    by (auto simp: bin_apply_snapshot_envelope_def bin_snapshot_wf split: sum.splits)
  show "bin_wf r \<Longrightarrow> bin_wf (fst (bin_apply_delta_envelope r d))"
    by (auto simp: bin_apply_delta_envelope_def bin_delta_wf split: sum.splits)
  show "bin_wf r \<Longrightarrow> bin_wf (reducer_trigger_resync r)" by (rule resync_wf)
  show "bin_apply_snapshot_envelope r s = (r', Inl e) \<Longrightarrow> r' = r"
    by (auto simp: defs split: sum.splits dest: snapshot_checked_facts)
  show "bin_apply_delta_envelope r d = (r', Inl e) \<Longrightarrow> r' = r"
    by (auto simp: defs split: sum.splits if_splits dest: delta_staged_facts)
  show "bin_apply_snapshot_envelope r s = (r', Inr k) \<Longrightarrow>
      \<exists>t. apply_snapshot_sequence (reducer_tracker r) (pe_sequence s) (pe_observed_at_ms s) = (t, k) \<and>
          reducer_tracker r' = t\<lparr>st_baseline_sequence := None\<rparr>"
    by (auto simp: defs split: sum.splits dest: snapshot_checked_facts)
  show "bin_apply_delta_envelope r d = (r', Inr c) \<Longrightarrow>
      apply_delta_range (reducer_tracker r) (de_sequence_range d) (de_observed_at_ms d) = (reducer_tracker r', c)"
    by (auto simp: defs split: sum.splits if_splits dest: delta_staged_facts)
  show "bin_apply_snapshot_envelope r s = (r', Inr k) \<Longrightarrow> (\<And>n. k \<noteq> SC_Accepted n) \<Longrightarrow> rd_state r' = rd_state r"
    by (auto simp: defs split: sum.splits dest: snapshot_checked_facts)
  show "bin_apply_delta_envelope r d = (r', Inr c) \<Longrightarrow> (\<And>n. c \<noteq> DC_Contiguous n) \<Longrightarrow> rd_state r' = rd_state r"
    by (auto simp: defs split: sum.splits if_splits dest: delta_staged_facts)
qed (simp_all add: reducer_trigger_tracked, simp_all add: reducer_trigger_resync_def reducer_tracker_def)

text \<open>The dispatching reducer runs the reducer of its kind on the payload of the envelope.\<close>

fun any_tracker :: "any_reducer \<Rightarrow> stream_tracker" where
  "any_tracker (PR_Cpmm r) = reducer_tracker r"
| "any_tracker (PR_Clmm r) = reducer_tracker r"
| "any_tracker (PR_Bin r) = reducer_tracker r"

lemma any_apply_snapshot_cases:
  obtains (rejected) e where "any_apply_snapshot self env = (self, Inl e)"
  | (cpmm) r v x where "self = PR_Cpmm r"
      "any_apply_snapshot self env = map_prod PR_Cpmm id (cpmm_apply_snapshot r (pe_sequence env) (pe_observed_at_ms env) x)"
  | (clmm) r v x where "self = PR_Clmm r"
      "any_apply_snapshot self env = map_prod PR_Clmm id (clmm_apply_snapshot r (pe_sequence env) (pe_observed_at_ms env) x)"
  | (bin) r v x where "self = PR_Bin r"
      "any_apply_snapshot self env = map_prod PR_Bin id (bin_apply_snapshot r (pe_sequence env) (pe_observed_at_ms env) x)"
proof (cases "state_envelope_validate env")
  case (Inl e)
  with that(1) show ?thesis by (simp add: any_apply_snapshot_def)
next
  case (Inr u)
  with that show ?thesis
    by (cases self; cases "pe_state env"; cases "pe_pool_id env = any_pool_id self")
      (simp_all add: any_apply_snapshot_def)
qed

lemma any_apply_delta_cases:
  obtains (rejected) e where "any_apply_delta self env = (self, Inl e)"
  | (cpmm) r d where "self = PR_Cpmm r"
      "any_apply_delta self env = map_prod PR_Cpmm id (cpmm_apply_delta r (de_sequence_range env) (de_observed_at_ms env) d)"
  | (clmm) r d where "self = PR_Clmm r"
      "any_apply_delta self env = map_prod PR_Clmm id (clmm_apply_delta r (de_sequence_range env) (de_observed_at_ms env) d)"
  | (bin) r d where "self = PR_Bin r"
      "any_apply_delta self env = map_prod PR_Bin id (bin_apply_delta r (de_sequence_range env) (de_observed_at_ms env) d)"
proof (cases "pool_delta_validate env")
  case (Inl e)
  with that(1) show ?thesis by (simp add: any_apply_delta_def)
next
  case (Inr u)
  with that show ?thesis
    by (cases self; cases "de_delta env"; cases "de_pool_id env = any_pool_id self")
      (simp_all add: any_apply_delta_def)
qed

lemmas any_snapshot_defs = cpmm_apply_snapshot_def clmm_apply_snapshot_def bin_apply_snapshot_def
lemmas any_delta_defs = cpmm_apply_delta_def clmm_apply_delta_def bin_apply_delta_def

lemma map_prod_pairD: "map_prod f id p = (y, x) \<Longrightarrow> \<exists>z. p = (z, x) \<and> y = f z"
  by (cases p) auto

interpretation anr: sequenced_reducer any_wf any_state any_tracker
  any_apply_snapshot pe_sequence pe_observed_at_ms
  any_apply_delta de_sequence_range de_observed_at_ms any_trigger_resync
proof
  fix r r' :: any_reducer and s d e k c
  show "any_wf r \<Longrightarrow> any_wf (fst (any_apply_snapshot r s))"
    by (rule any_apply_snapshot_cases [of r s])
      (simp_all add: cpmm_snapshot_wf clmm_snapshot_wf bin_snapshot_wf)
  show "any_wf r \<Longrightarrow> any_wf (fst (any_apply_delta r d))"
    by (rule any_apply_delta_cases [of r d]) (simp_all add: cpmm_delta_wf clmm_delta_wf bin_delta_wf)
  show "any_wf r \<Longrightarrow> any_wf (any_trigger_resync r)" by (cases r) (simp_all add: resync_wf)
  show "any_apply_snapshot r s = (r', Inl e) \<Longrightarrow> r' = r"
    by (rule any_apply_snapshot_cases [of r s])
      (auto simp: any_snapshot_defs dest!: map_prod_pairD [OF sym] dest: snapshot_checked_facts)
  show "any_apply_delta r d = (r', Inl e) \<Longrightarrow> r' = r"
    by (rule any_apply_delta_cases [of r d])
      (auto simp: any_delta_defs dest!: map_prod_pairD [OF sym] dest: delta_staged_facts)
  show "any_apply_snapshot r s = (r', Inr k) \<Longrightarrow>
      \<exists>t. apply_snapshot_sequence (any_tracker r) (pe_sequence s) (pe_observed_at_ms s) = (t, k) \<and>
          any_tracker r' = t\<lparr>st_baseline_sequence := None\<rparr>"
    by (rule any_apply_snapshot_cases [of r s])
      (auto simp: any_snapshot_defs dest!: map_prod_pairD [OF sym] dest: snapshot_checked_facts)
  show "any_apply_delta r d = (r', Inr c) \<Longrightarrow>
      apply_delta_range (any_tracker r) (de_sequence_range d) (de_observed_at_ms d) = (any_tracker r', c)"
    by (rule any_apply_delta_cases [of r d])
      (auto simp: any_delta_defs dest!: map_prod_pairD [OF sym] dest: delta_staged_facts)
  show "any_apply_snapshot r s = (r', Inr k) \<Longrightarrow> (\<And>n. k \<noteq> SC_Accepted n) \<Longrightarrow> any_state r' = any_state r"
    by (rule any_apply_snapshot_cases [of r s])
      (auto simp: any_snapshot_defs dest!: map_prod_pairD [OF sym] dest!: snapshot_checked_kept)
  show "any_apply_delta r d = (r', Inr c) \<Longrightarrow> (\<And>n. c \<noteq> DC_Contiguous n) \<Longrightarrow> any_state r' = any_state r"
    by (rule any_apply_delta_cases [of r d])
      (auto simp: any_delta_defs dest!: map_prod_pairD [OF sym] dest!: delta_staged_kept)
  show "any_tracker (any_trigger_resync r) = trigger_resync (any_tracker r)"
    by (cases r) (simp_all add: reducer_trigger_tracked)
  show "any_state (any_trigger_resync r) = any_state r"
    by (cases r) (simp_all add: reducer_trigger_resync_def)
  show "st_baseline_sequence (any_tracker r) = None"
    by (cases r) (simp_all add: reducer_tracker_def)
qed

section \<open>Staged vectors\<close>

text \<open>The vector as a map from keys to elements.\<close>

definition keyed :: "('a \<Rightarrow> int) \<Rightarrow> 'a list \<Rightarrow> int \<rightharpoonup> 'a" where
  "keyed key xs = map_of (map (\<lambda>x. (key x, x)) xs)"

lemma keyed_simps [simp]:
  "keyed key [] = Map.empty"
  "keyed key (x # xs) = (keyed key xs)(key x \<mapsto> x)"
  by (auto simp: keyed_def)

lemma keyed_None: "(\<And>x. x \<in> set xs \<Longrightarrow> key x \<noteq> k) \<Longrightarrow> keyed key xs k = None"
  by (induction xs) auto

lemma upsert_Nil: "upsert key dead [] x = (if dead x then [] else [x])"
  by (simp add: upsert_def vec_insert_def)

lemma upsert_Cons:
  assumes "sorted_wrt (<) (map key (y # ys))"
  shows "upsert key dead (y # ys) x =
    (if key y < key x then y # upsert key dead ys x
     else if key y = key x then (if dead x then ys else x # ys)
     else (if dead x then y # ys else x # y # ys))"
proof (cases "key y < key x")
  case True
  then show ?thesis
    by (auto simp: upsert_def vec_remove_def vec_insert_def split: option.splits)
next
  case False
  show ?thesis
  proof (cases "key y = key x")
    case True
    then show ?thesis by (simp add: upsert_def vec_remove_def)
  next
    case noteq: False
    then have "position (\<lambda>t. key t = key x) ys = None"
      using False assms by (force simp: position_None_iff)
    with False noteq show ?thesis by (auto simp: upsert_def vec_insert_def)
  qed
qed

lemma upsert_keys:
  "sorted_wrt (<) (map key xs) \<Longrightarrow> z \<in> set (upsert key dead xs x) \<Longrightarrow> z \<in> set xs \<or> z = x"
  by (induction xs) (auto simp: upsert_Nil upsert_Cons split: if_splits)

lemma upsert_sorted:
  "sorted_wrt (<) (map key xs) \<Longrightarrow> sorted_wrt (<) (map key (upsert key dead xs x))"
proof (induction xs)
  case (Cons y ys)
  have "key y < key z" if "z \<in> set (upsert key dead ys x)" "key y < key x" for z
    using that Cons.prems upsert_keys [of key ys z dead x] by auto
  with Cons show ?case by (auto simp: upsert_Cons not_less)
qed (simp add: upsert_Nil)

lemma upsert_keyed:
  "sorted_wrt (<) (map key xs) \<Longrightarrow>
     keyed key (upsert key dead xs x) = (keyed key xs)(key x := if dead x then None else Some x)"
proof (induction xs)
  case (Cons y ys)
  have "keyed key ys (key x) = None" if "\<not> key y < key x"
    using that Cons.prems by (intro keyed_None) fastforce
  with Cons show ?case by (subst upsert_Cons) (auto simp: fun_eq_iff)
qed (simp add: upsert_Nil)

lemma foldl_upsert:
  assumes "sorted_wrt (<) (map key xs)" and "distinct (map key ds)"
  shows "sorted_wrt (<) (map key (foldl (upsert key dead) xs ds))"
    and "keyed key (foldl (upsert key dead) xs ds) i =
      (case keyed key ds i of None \<Rightarrow> keyed key xs i | Some d \<Rightarrow> if dead d then None else Some d)"
proof -
  show "sorted_wrt (<) (map key (foldl (upsert key dead) xs ds))"
    using assms(1) by (induction ds arbitrary: xs) (simp_all add: upsert_sorted)
  show "keyed key (foldl (upsert key dead) xs ds) i =
      (case keyed key ds i of None \<Rightarrow> keyed key xs i | Some d \<Rightarrow> if dead d then None else Some d)"
    using assms
  proof (induction ds arbitrary: xs)
    case (Cons d ds)
    have "key d \<notin> key ` set ds" using Cons.prems(2) by simp
    then have "keyed key ds (key d) = None" by (intro keyed_None) (metis image_eqI)
    with Cons show ?case by (auto simp: upsert_sorted upsert_keyed split: option.splits)
  qed simp
qed

lemma delta_staged_contiguous:
  assumes "delta_staged v st r rng ts = (r', Inr (DC_Contiguous n))"
  shows "v = Inr () \<and> st = Inr (rd_state r')"
  using assms by (auto simp: delta_staged_def result_iff split: if_splits sum.splits)

section \<open>Properties\<close>

text \<open>Everything a holder of a dispatching reducer can do to it.\<close>

datatype pool_op =
    Op_message "(pool_state_envelope, pool_kind_delta pool_delta_envelope) reducer_message"
  | Op_reset pool_state_envelope

fun any_op :: "any_reducer \<Rightarrow> pool_op \<Rightarrow> any_reducer" where
  "any_op r (Op_message m) = reducer_step any_apply_snapshot any_apply_delta any_trigger_resync r m"
| "any_op r (Op_reset env) = fst (any_reset_with_envelope r env)"

lemma any_reset_wf: "any_wf r \<Longrightarrow> any_wf (fst (any_reset_with_envelope r env))"
  by (cases r; cases "pe_state env"; cases "state_envelope_validate env")
    (auto simp: any_reset_with_envelope_def cpmm_reset_wf clmm_reset_wf bin_reset_wf)

lemma any_op_wf: "any_wf r \<Longrightarrow> any_wf (any_op r op)"
  by (cases op) (simp_all add: anr.step_wf any_reset_wf)

lemma any_ops_wf: "any_wf r \<Longrightarrow> any_wf (foldl any_op r ops)"
  by (induction ops arbitrary: r) (simp_all add: any_op_wf)

lemma reducer_with_bounds_wf: "reducer_with_bounds env a b = Inr r \<Longrightarrow> any_wf r"
  by (cases "pe_state env")
    (auto simp: reducer_with_bounds_def cpmm_reducer_new_def clmm_reducer_new_def bin_reducer_new_def
      reducer_wf_defs sequence_validate_def result_iff split: if_splits)

lemma any_wf_envelope: "any_wf r \<Longrightarrow> state_envelope_validate (any_to_envelope r) = Inr ()"
  by (cases r) (auto simp: state_envelope_validate_def cpmm_to_envelope_def clmm_to_envelope_def
      bin_to_envelope_def reducer_wf_defs sequence_validate_def)

text \<open>A small pool and its envelope, for the witnesses.\<close>

definition sample_state :: cpmm_pool_state where
  "sample_state =
     \<lparr>cp_token_0 = \<lparr>asset_chain = Base, asset_address = ''a''\<rparr>,
      cp_token_1 = \<lparr>asset_chain = Base, asset_address = ''b''\<rparr>,
      cp_decimals_0 = 18, cp_decimals_1 = 6, cp_reserve_0 = 1000, cp_reserve_1 = 2000,
      cp_total_lp_supply = None, cp_fee_bps = 30\<rparr>"

definition sample_envelope :: "sequence \<Rightarrow> pool_state_envelope" where
  "sample_envelope s =
     \<lparr>pe_pool_id = \<lparr>pid_chain = Base, pid_address = ''p''\<rparr>, pe_sequence = s, pe_observed_at_ms = 100,
      pe_state = PS_Cpmm sample_state\<rparr>"

definition sample_delta :: "sequence \<Rightarrow> sequence \<Rightarrow> u128 \<Rightarrow> pool_kind_delta pool_delta_envelope" where
  "sample_delta a b r0 =
     \<lparr>de_pool_id = \<lparr>pid_chain = Base, pid_address = ''p''\<rparr>, de_sequence_range = SequenceRange a b,
      de_observed_at_ms = 200,
      de_delta = PD_Cpmm \<lparr>cpd_reserve_0 = Some r0, cpd_reserve_1 = None, cpd_total_lp_supply = None,
        cpd_fee_bps = None\<rparr>\<rparr>"

definition sample_reducer :: any_reducer where
  "sample_reducer =
     PR_Cpmm \<lparr>rd_pool_id = \<lparr>pid_chain = Base, pid_address = ''p''\<rparr>, rd_sequence = 5, rd_timestamp_ms = 100,
       rd_state = sample_state, rd_resync_required = False\<rparr>"

lemmas sample_reducer_defs = sample_state_def sample_envelope_def sample_delta_def sample_reducer_def

lemmas pool_validation_defs = state_envelope_validate_def pool_id_validate_def chain_validate_def
  sequence_validate_def cpmm_validate_def pool_tokens_validate_def asset_validate_def
  ensure_asset_address_def ws_defs MAX_DECIMALS_def

lemma sample_reducer_new: "any_reducer_new (sample_envelope 5) = Inr sample_reducer"
  by (simp add: any_reducer_new_def reducer_with_bounds_def cpmm_reducer_new_def sample_reducer_defs
      pool_validation_defs)

definition sample_tick :: "i32 \<Rightarrow> u128 \<Rightarrow> clmm_tick" where
  "sample_tick i g = \<lparr>tick_index = i, tick_liquidity_gross = g, tick_liquidity_net = 0\<rparr>"

definition sample_clmm_reducer :: clmm_pool_reducer where
  "sample_clmm_reducer =
     \<lparr>rd_pool_id = \<lparr>pid_chain = Base, pid_address = ''p''\<rparr>, rd_sequence = 5, rd_timestamp_ms = 100,
      rd_state =
        \<lparr>cl_token_0 = \<lparr>asset_chain = Base, asset_address = ''a''\<rparr>,
         cl_token_1 = \<lparr>asset_chain = Base, asset_address = ''b''\<rparr>,
         cl_decimals_0 = 18, cl_decimals_1 = 6, cl_tick_spacing = 5, cl_current_tick = 0,
         cl_sqrt_price_x64 = 18446744073709551616, cl_liquidity = 4, cl_fee_bps = 30,
         cl_ticks = [sample_tick 0 4, sample_tick 10 7]\<rparr>,
      rd_resync_required = False, rd_max = 100\<rparr>"

definition sample_clmm_delta :: clmm_pool_delta where
  "sample_clmm_delta =
     \<lparr>cld_current_tick = None, cld_sqrt_price_x64 = None, cld_liquidity = None, cld_fee_bps = None,
      cld_ticks = [sample_tick 5 9, sample_tick 0 0]\<rparr>"

lemmas sample_clmm_defs = sample_clmm_reducer_def sample_clmm_delta_def sample_tick_def

text \<open>C24. Whatever a holder does to a reducer (deltas, snapshots, resets, resync requests, in any
  order and with any content), the state it publishes is a valid envelope: valid tokens on the
  pool's chain, a positive sequence and timestamp, sorted and bounded ticks or bins.\<close>

theorem pool_reducer_history_valid:
  assumes "reducer_with_bounds env max_ticks max_bins = Inr r"
  shows "state_envelope_validate (any_to_envelope (foldl any_op r ops)) = Inr ()"
  using any_wf_envelope [OF any_ops_wf [OF reducer_with_bounds_wf [OF assms]]] .

theorem pool_reducer_history_valid_witness:
  "state_envelope_validate (any_to_envelope (foldl any_op sample_reducer
     [Op_message (Msg_delta (sample_delta 6 7 1500)), Op_message (Msg_delta (sample_delta 9 9 1)),
      Op_reset (sample_envelope 3)])) = Inr ()"
  by (rule pool_reducer_history_valid [OF sample_reducer_new [unfolded any_reducer_new_def]])

text \<open>A reducer that asked for a resync publishes the same state and sequence until a snapshot
  beyond its sequence arrives: deltas and older snapshots have no effect.\<close>

theorem pool_reducer_resync_latched:
  assumes "any_is_resync_required r"
    and "\<forall>env. Msg_snapshot env \<in> set ms \<longrightarrow> pe_sequence env \<le> any_sequence r"
  shows "let r' = foldl (reducer_step any_apply_snapshot any_apply_delta any_trigger_resync) r ms
    in any_state r' = any_state r \<and> any_sequence r' = any_sequence r \<and> any_is_resync_required r'"
proof -
  have t: "st_resync_required (any_tracker x) = any_is_resync_required x"
    "st_current_sequence (any_tracker x) = Some (any_sequence x)" for x
    by (cases x; simp add: reducer_tracker_def)+
  have "st_resync_required (any_tracker r)" using assms(1) by (simp only: t)
  moreover have "\<forall>s. Msg_snapshot s \<in> set ms \<longrightarrow>
      (\<exists>c. st_current_sequence (any_tracker r) = Some c \<and> pe_sequence s \<le> c)"
    using assms(2) by (simp add: t)
  ultimately have run: "any_state (foldl anr.step r ms) = any_state r"
    "any_tracker (foldl anr.step r ms) = any_tracker r"
    using anr.run_latched by blast+
  then have "Some (any_sequence (foldl anr.step r ms)) = Some (any_sequence r)"
    "any_is_resync_required (foldl anr.step r ms) = any_is_resync_required r"
    by (metis t)+
  with run assms(1) show ?thesis by (simp add: Let_def)
qed

theorem pool_reducer_resync_latched_witness:
  "let r = any_trigger_resync sample_reducer;
       r' = foldl (reducer_step any_apply_snapshot any_apply_delta any_trigger_resync) r
              [Msg_delta (sample_delta 6 7 1500), Msg_snapshot (sample_envelope 5)]
   in any_state r' = any_state r \<and> any_sequence r' = any_sequence r \<and> any_is_resync_required r'"
  unfolding Let_def
  by (rule pool_reducer_resync_latched [unfolded Let_def])
    (simp_all add: sample_reducer_def sample_envelope_def reducer_trigger_resync_def)

text \<open>C25. Refinement: a delta that the dispatching reducer rejects leaves it as it was, and any
  other delta is classified, and moves sequence, timestamp and resync flag, as the stream
  tracker does.\<close>

theorem pool_reducer_refines_tracker:
  assumes "any_apply_delta r env = (r', res)"
  shows "case res of
      Inl e \<Rightarrow> r' = r
    | Inr c \<Rightarrow> apply_delta_range (any_tracker r) (de_sequence_range env) (de_observed_at_ms env) = (any_tracker r', c)"
  using assms anr.delta_rejected anr.delta_answered by (cases res) auto

theorem pool_reducer_refines_tracker_witness:
  "\<exists>r'. any_apply_delta sample_reducer (sample_delta 6 7 1500) = (r', Inr (DC_Contiguous 7)) \<and>
     apply_delta_range (any_tracker sample_reducer) (SequenceRange 6 7) 200 = (any_tracker r', DC_Contiguous 7)"
proof -
  obtain r' where r': "any_apply_delta sample_reducer (sample_delta 6 7 1500) = (r', Inr (DC_Contiguous 7))"
    by (simp add: any_apply_delta_def pool_delta_validate_def delta_envelope_validate_def range_validate_def
        sample_reducer_defs cpmm_delta_validate_def fee_validate_def cpmm_apply_delta_def delta_staged_def
        cpmm_stage_def pool_validation_defs sequence_next_def saturating_add_def)
  with pool_reducer_refines_tracker [OF r'] show ?thesis by (simp add: sample_delta_def)
qed

text \<open>C26. A contiguous delta of a concentrated-liquidity pool overrides the tick vector as a map:
  a tick of the delta replaces or inserts its entry, or removes it when its gross liquidity is
  zero, every other tick is kept, and the vector stays strictly sorted.\<close>

theorem clmm_delta_overrides:
  assumes "clmm_validate (rd_state r) = Inr ()"
    and "clmm_apply_delta r rng ts d = (r', Inr (DC_Contiguous n))"
  shows "sorted_wrt (<) (map tick_index (cl_ticks (rd_state r'))) \<and>
    keyed tick_index (cl_ticks (rd_state r')) i =
      (case keyed tick_index (cld_ticks d) i of
         None \<Rightarrow> keyed tick_index (cl_ticks (rd_state r)) i
       | Some t \<Rightarrow> if tick_liquidity_gross t = 0 then None else Some t)"
proof -
  have staged: "clmm_delta_validate d = Inr ()" "clmm_stage (rd_max r) (rd_state r) d = Inr (rd_state r')"
    using delta_staged_contiguous assms(2) unfolding clmm_apply_delta_def by blast+
  have "distinct (map tick_index (cld_ticks d))"
    using staged(1) by (auto simp: clmm_delta_validate_def result_iff intro: clmm_delta_ticks_distinct split: if_splits)
  moreover have "sorted_wrt (<) (map tick_index (cl_ticks (rd_state r)))"
    using assms(1) by (auto simp: clmm_validate_def result_iff clmm_ticks_validate_iff split: if_splits)
  ultimately show ?thesis
    using clmm_stage_ok [OF staged(2)] by (simp add: foldl_upsert)
qed

theorem clmm_delta_overrides_witness:
  "\<exists>r'. clmm_apply_delta sample_clmm_reducer (SequenceRange 6 6) 200 sample_clmm_delta
      = (r', Inr (DC_Contiguous 6)) \<and>
    keyed tick_index (cl_ticks (rd_state r')) 0 = None \<and>
    keyed tick_index (cl_ticks (rd_state r')) 5 = Some (sample_tick 5 9) \<and>
    keyed tick_index (cl_ticks (rd_state r')) 10 = Some (sample_tick 10 7)"
proof -
  note ev = sample_clmm_defs clmm_validate_def pool_validation_defs rust_rem_def as_i32_def unsigned_abs_def
    MIN_TICK_def MAX_TICK_def MAX_CLMM_TICKS_def
  have v: "clmm_validate (rd_state sample_clmm_reducer) = Inr ()" by (simp add: ev)
  have "\<exists>r'. clmm_apply_delta sample_clmm_reducer (SequenceRange 6 6) 200 sample_clmm_delta
      = (r', Inr (DC_Contiguous 6))"
    by (simp add: ev clmm_apply_delta_def delta_staged_def range_validate_def clmm_delta_validate_def
        MAX_CLMM_DELTA_TICKS_def fee_validate_def sequence_next_def saturating_add_def clmm_stage_def
        upsert_def vec_insert_def vec_remove_def)
  then obtain r' where r': "clmm_apply_delta sample_clmm_reducer (SequenceRange 6 6) 200 sample_clmm_delta
      = (r', Inr (DC_Contiguous 6))" by blast
  from clmm_delta_overrides [OF v r', of 0] clmm_delta_overrides [OF v r', of 5]
    clmm_delta_overrides [OF v r', of 10] r'
  show ?thesis by (intro exI [of _ r']) (simp add: sample_clmm_defs)
qed

text \<open>The same for the bins of a bin pool.\<close>

lemma bin_delta_overrides:
  assumes "bin_validate (rd_state r) = Inr ()"
    and "bin_apply_delta r rng ts d = (r', Inr (DC_Contiguous n))"
  shows "sorted_wrt (<) (map bin_id (bn_bins (rd_state r'))) \<and>
    keyed bin_id (bn_bins (rd_state r')) i =
      (case keyed bin_id (bnd_bins d) i of
         None \<Rightarrow> keyed bin_id (bn_bins (rd_state r)) i
       | Some b \<Rightarrow> if bin_reserve_0 b = 0 \<and> bin_reserve_1 b = 0 then None else Some b)"
proof -
  have staged: "bin_delta_validate d = Inr ()" "bin_stage (rd_max r) (rd_state r) d = Inr (rd_state r')"
    using delta_staged_contiguous assms(2) unfolding bin_apply_delta_def by blast+
  have "distinct (map bin_id (bnd_bins d))"
    using staged(1) by (auto simp: bin_delta_validate_def result_iff intro: delta_bins_distinct split: if_splits)
  moreover have "sorted_wrt (<) (map bin_id (bn_bins (rd_state r)))"
    using assms(1) by (auto simp: bin_validate_def result_iff bins_validate_iff split: if_splits)
  ultimately show ?thesis
    using bin_stage_ok [OF staged(2)] by (simp add: foldl_upsert)
qed

end
