(* ===== verification/Min_Input_Search.thy ===== *)
theory Min_Input_Search
  imports Prelude
begin

text \<open>
  The minimal gross-input search of \<open>crates/simulation/src/clmm.rs\<close>
  (\<open>find_min_gross_input\<close>), which both the concentrated-liquidity and the bin simulator use
  to invert their exact-input kernel. The oracle \<open>f\<close> and the classification of its errors are
  arguments, as in the source.

  The loop that doubles the probe is a \<open>partial_function\<close>: that it returns, for every oracle,
  is a theorem. The two binary searches are total functions on words, with the distance of
  their bounds as the measure.

  The locale \<open>exact_input_oracle\<close> is the contract the comment of the source states of a
  kernel: outputs do not decrease, low failures lie below and high failures above the inputs
  that succeed. Under it the search decides whether an input covers the target and returns
  the least one.
\<close>

section \<open>The search\<close>

datatype probe_class = Low | High | Hole | Unexpected

datatype minimal_input_search = Found u128 | Unreachable | Invariant

text \<open>
  The smallest input in \<open>(lo, high]\<close> that fails high, with the flag that some probe has
  succeeded.
\<close>

function ceiling_search ::
  "(u128 \<Rightarrow> 'e + u128) \<Rightarrow> ('e \<Rightarrow> probe_class) \<Rightarrow> u128 \<Rightarrow> u128 \<Rightarrow> bool \<Rightarrow> 'e + (u128 \<times> bool)" where
  "ceiling_search f classify lo high seen_ok =
     (if 1 < high - lo then
        let mid = lo + (high - lo) div 2 in
        case f mid of
          Inr _ \<Rightarrow> ceiling_search f classify mid high True
        | Inl inner \<Rightarrow>
            (case classify inner of
               High \<Rightarrow> ceiling_search f classify lo mid seen_ok
             | Low \<Rightarrow> ceiling_search f classify mid high seen_ok
             | Hole \<Rightarrow>
                 if seen_ok then Inl inner
                 else ceiling_search f classify mid high seen_ok
             | Unexpected \<Rightarrow> Inl inner)
      else Inr (high, seen_ok))"
  by pat_completeness auto

lemma halving:
  assumes "1 < (d :: u128)"
  shows "unat (d div 2) < unat d" and "unat (d - d div 2) < unat d" and "0 < unat (d div 2)"
proof -
  have d: "1 < unat d" using assms by (simp add: word_less_nat_alt)
  have half: "unat (d div 2) = unat d div 2" by (simp add: unat_div)
  show "unat (d div 2) < unat d" using d by (simp add: half)
  show "0 < unat (d div 2)" using d by (simp add: half)
  have "unat (d - d div 2) = unat d - unat d div 2"
    by (subst unat_sub_no_underflow) (simp_all add: half)
  then show "unat (d - d div 2) < unat d" using d by simp
qed

termination ceiling_search
  by (relation "measure (\<lambda>(_, _, lo, high, _). unat (high - lo))")
    (auto simp: halving simp flip: diff_diff_eq)

text \<open>What one round of the doubling loop does: return, leave the loop, or probe again.\<close>

datatype 'e probe_step = Return "'e + minimal_input_search" | Break u128 | Continue bool

definition probe_ceiling ::
  "(u128 \<Rightarrow> 'e + u128) \<Rightarrow> ('e \<Rightarrow> probe_class) \<Rightarrow> u128 \<Rightarrow> u128 \<Rightarrow> bool \<Rightarrow> 'e probe_step" where
  "probe_ceiling f classify target x seen_ok =
     (let g_max = x - 1 in
      if g_max = 0 then Return (Inr Unreachable)
      else case f g_max of
        Inr out \<Rightarrow> if target \<le> out then Break g_max else Return (Inr Unreachable)
      | Inl inner \<Rightarrow>
          (case classify inner of
             Low \<Rightarrow> Return (Inr Unreachable)
           | Hole \<Rightarrow> if seen_ok then Return (Inl inner) else Return (Inr Unreachable)
           | High \<Rightarrow> Return (Inr Invariant)
           | Unexpected \<Rightarrow> Return (Inl inner)))"

definition probe_round ::
  "(u128 \<Rightarrow> 'e + u128) \<Rightarrow> ('e \<Rightarrow> probe_class) \<Rightarrow> u128 \<Rightarrow> bool \<Rightarrow> u128 \<Rightarrow> u128 \<Rightarrow> 'e probe_step" where
  "probe_round f classify target seen_ok prev g =
     (case f g of
        Inr out \<Rightarrow> if target \<le> out then Break g else Continue True
      | Inl err \<Rightarrow>
          (case classify err of
             Low \<Rightarrow> Continue seen_ok
           | Hole \<Rightarrow> if seen_ok then Return (Inl err) else Continue seen_ok
           | High \<Rightarrow>
               (case ceiling_search f classify prev g seen_ok of
                  Inl inner \<Rightarrow> Return (Inl inner)
                | Inr (x, seen) \<Rightarrow> probe_ceiling f classify target x seen)
           | Unexpected \<Rightarrow> Return (Inl err)))"

definition next_probe :: "u128 \<Rightarrow> u128" where
  "next_probe g = (if (- 1) div 2 < g then - 1 else g * 2)"

partial_function (option) locate_bound ::
  "(u128 \<Rightarrow> 'e + u128) \<Rightarrow> ('e \<Rightarrow> probe_class) \<Rightarrow> u128 \<Rightarrow> bool \<Rightarrow> u128 \<Rightarrow> u128 \<Rightarrow>
     (('e + minimal_input_search) + u128) option" where
  "locate_bound f classify target seen_ok prev g =
     (case probe_round f classify target seen_ok prev g of
        Return r \<Rightarrow> Some (Inl r)
      | Break hi \<Rightarrow> Some (Inr hi)
      | Continue seen \<Rightarrow>
          if g = - 1 then Some (Inl (Inr Unreachable))
          else locate_bound f classify target seen g (next_probe g))"

definition probe_covers ::
  "(u128 \<Rightarrow> 'e + u128) \<Rightarrow> ('e \<Rightarrow> probe_class) \<Rightarrow> u128 \<Rightarrow> u128 \<Rightarrow> 'e + bool" where
  "probe_covers f classify target mid =
     (case f mid of
        Inr out \<Rightarrow> Inr (target \<le> out)
      | Inl err \<Rightarrow> (case classify err of Low \<Rightarrow> Inr False | _ \<Rightarrow> Inl err))"

function cover_search ::
  "(u128 \<Rightarrow> 'e + u128) \<Rightarrow> ('e \<Rightarrow> probe_class) \<Rightarrow> u128 \<Rightarrow> u128 \<Rightarrow> u128 \<Rightarrow> 'e + u128" where
  "cover_search f classify target lo bound =
     (if lo < bound then
        let mid = lo + (bound - lo) div 2 in
        case probe_covers f classify target mid of
          Inl err \<Rightarrow> Inl err
        | Inr covers \<Rightarrow>
            if covers then cover_search f classify target lo mid
            else cover_search f classify target (mid + 1) bound
      else Inr lo)"
  by pat_completeness auto

lemma midpoint:
  assumes "(lo :: u128) < bound"
  defines "mid \<equiv> lo + (bound - lo) div 2"
  shows "unat mid = unat lo + (unat bound - unat lo) div 2" and "lo \<le> mid" and "mid < bound"
    and "unat (mid + 1) = unat mid + 1"
proof -
  have less: "unat lo < unat bound" using assms(1) by (simp add: word_less_nat_alt)
  have half: "unat ((bound - lo) div 2) = (unat bound - unat lo) div 2"
    using less by (simp add: unat_div unat_sub_no_underflow)
  show m: "unat mid = unat lo + (unat bound - unat lo) div 2"
    unfolding mid_def half [symmetric]
    by (rule unat_add_no_overflow) (use less unat_bound [of bound] in \<open>simp add: half\<close>)
  show "lo \<le> mid" by (simp add: word_le_nat_alt m)
  show lt: "mid < bound" using less by (simp add: word_less_nat_alt m)
  have "unat mid + 1 < 2 ^ LENGTH(128)"
    using lt unat_bound [of bound] by (simp add: word_less_nat_alt)
  then show "unat (mid + 1) = unat mid + 1"
    using unat_add_no_overflow [of mid 1] by simp
qed

termination cover_search
proof (relation "measure (\<lambda>(_, _, _, lo, bound). unat bound - unat lo)", goal_cases)
  case 1
  show ?case by simp
next
  case (2 f classify target lo bound)
  then show ?case using midpoint [of lo bound] by (auto simp: word_less_nat_alt word_le_nat_alt)
next
  case (3 f classify target lo bound)
  then have "unat lo < unat bound" by (simp add: word_less_nat_alt)
  with 3 show ?case using midpoint(1,4) [of lo bound] by auto
qed

definition prove_minimal ::
  "(u128 \<Rightarrow> 'e + u128) \<Rightarrow> ('e \<Rightarrow> probe_class) \<Rightarrow> u128 \<Rightarrow> u128 \<Rightarrow> 'e + minimal_input_search" where
  "prove_minimal f classify target g_star =
     (if \<not> (case f g_star of Inr out \<Rightarrow> target \<le> out | Inl _ \<Rightarrow> False) then Inr Invariant
      else if 1 < g_star then
        (case f (g_star - 1) of
           Inr previous \<Rightarrow> if target \<le> previous then Inr Invariant else Inr (Found g_star)
         | Inl err \<Rightarrow>
             (case classify err of Low \<Rightarrow> Inr (Found g_star) | _ \<Rightarrow> Inl err))
      else Inr (Found g_star))"

definition find_min_gross_input ::
  "u128 \<Rightarrow> (u128 \<Rightarrow> 'e + u128) \<Rightarrow> ('e \<Rightarrow> probe_class) \<Rightarrow> ('e + minimal_input_search) option" where
  "find_min_gross_input target f classify =
     (case locate_bound f classify target False 0 1 of
        None \<Rightarrow> None
      | Some (Inl r) \<Rightarrow> Some r
      | Some (Inr hi) \<Rightarrow>
          Some (bindR (cover_search f classify target 1 hi) (prove_minimal f classify target)))"

declare ceiling_search.simps [simp del] cover_search.simps [simp del]

section \<open>Termination\<close>

lemma next_probe_grows:
  assumes "g \<noteq> 0" and "g \<noteq> - 1"
  shows "g < next_probe g"
proof (cases "(- 1) div 2 < g")
  case True
  with assms(2) show ?thesis
    by (simp only: next_probe_def if_True) (metis order_le_neq_trans word_n1_ge)
next
  case False
  define top where "top = unat (- 1 :: u128)"
  have "unat g \<le> top div 2"
    using False by (simp only: word_le_nat_alt not_less unat_div top_def) simp
  then have "unat g * 2 < 2 ^ LENGTH(128)"
    using unat_bound [of "- 1 :: u128", folded top_def] by linarith
  then have "unat (g * 2) = unat g * 2" using unat_mult_no_overflow [of g 2] by simp
  moreover have "0 < unat g" using assms(1) by (simp add: unat_gt_0)
  ultimately have "g < g * 2" by (simp only: word_less_nat_alt)
  then show ?thesis using False by (simp only: next_probe_def if_False)
qed

text \<open>Induction over the probes of the doubling loop, which grow up to \<open>u128::MAX\<close>.\<close>

lemma doubling_induct [consumes 1, case_names probe]:
  assumes "g \<noteq> (0 :: u128)"
    and step: "\<And>g. g \<noteq> 0 \<Longrightarrow> (g \<noteq> - 1 \<Longrightarrow> P (next_probe g)) \<Longrightarrow> P g"
  shows "P g"
  using assms(1)
proof (induction "unat (- 1 :: u128) - unat g" arbitrary: g rule: less_induct)
  case less
  show ?case
  proof (rule step [OF less.prems], rule less.hyps)
    assume ne: "g \<noteq> - 1"
    have grows: "g < next_probe g" by (rule next_probe_grows [OF less.prems ne])
    then show "next_probe g \<noteq> 0" by (metis word_not_simps(1))
    have "unat g < unat (next_probe g)" "unat (next_probe g) \<le> unat (- 1 :: u128)"
      using grows word_n1_ge [of "next_probe g"]
      by (simp_all only: word_less_nat_alt word_le_nat_alt)
    then show "unat (- 1 :: u128) - unat (next_probe g) < unat (- 1 :: u128) - unat g" by linarith
  qed
qed

text \<open>
  The loop returns, and what it returns is the outcome of one of its rounds; an invariant \<open>I\<close>
  of the previous and the current probe holds in that round.
\<close>

lemma locate_bound_result:
  assumes "g \<noteq> 0" and "I prev g"
    and step: "\<And>seen prev g seen'. I prev g \<Longrightarrow> g \<noteq> 0 \<Longrightarrow> g \<noteq> - 1 \<Longrightarrow>
      probe_round f classify target seen prev g = Continue seen' \<Longrightarrow> I g (next_probe g)"
  obtains (exhausted) seen prev' seen' where "I prev' (- 1)"
      "probe_round f classify target seen prev' (- 1) = Continue seen'"
      "locate_bound f classify target seen_ok prev g = Some (Inl (Inr Unreachable))"
    | (return) seen prev' g' q where "I prev' g'" "g' \<noteq> 0"
      "probe_round f classify target seen prev' g' = Return q"
      "locate_bound f classify target seen_ok prev g = Some (Inl q)"
    | (break) seen prev' g' hi where "I prev' g'" "g' \<noteq> 0"
      "probe_round f classify target seen prev' g' = Break hi"
      "locate_bound f classify target seen_ok prev g = Some (Inr hi)"
  using assms(1,2)
proof (induction g arbitrary: prev seen_ok thesis rule: doubling_induct)
  case (probe g)
  note unfold = locate_bound.simps [of f classify target seen_ok prev g]
  show ?case
  proof (cases "probe_round f classify target seen_ok prev g")
    case (Continue seen)
    show ?thesis
    proof (cases "g = - 1")
      case True
      then show ?thesis
        using probe.prems(1) [of prev seen_ok seen] probe.prems(4) Continue
        by (simp add: locate_bound.simps [of f classify target seen_ok prev "- 1"])
    next
      case False
      show ?thesis
        by (rule probe.IH [OF False _ _ _ step [OF probe.prems(4) probe.hyps False Continue], of seen])
          (use probe.prems False Continue in \<open>auto simp: unfold\<close>)
    qed
  next
    case (Return q)
    then show ?thesis
      using probe.prems(2) [of prev g seen_ok q] probe.prems(4) probe.hyps by (simp add: unfold)
  next
    case (Break hi)
    then show ?thesis
      using probe.prems(3) [of prev g seen_ok hi] probe.prems(4) probe.hyps by (simp add: unfold)
  qed
qed


lemma find_min_returns: "\<exists>r. find_min_gross_input target f classify = Some r"
proof -
  have "(1 :: u128) \<noteq> 0" by simp
  then show ?thesis
    by (rule locate_bound_result [of 1 "\<lambda>_ _. True" 0 f classify target False])
      (auto simp: find_min_gross_input_def)
qed

section \<open>What a found input is\<close>

definition covers :: "(u128 \<Rightarrow> 'e + u128) \<Rightarrow> u128 \<Rightarrow> u128 \<Rightarrow> bool" where
  "covers f target g \<longleftrightarrow> g \<noteq> 0 \<and> (case f g of Inr out \<Rightarrow> target \<le> out | Inl _ \<Rightarrow> False)"

lemma covers_iff: "covers f target g \<longleftrightarrow> g \<noteq> 0 \<and> (\<exists>out. f g = Inr out \<and> target \<le> out)"
  by (auto simp: covers_def split: sum.splits)

text \<open>The input just below failed low, or its output stays below the target.\<close>

definition below_target ::
  "(u128 \<Rightarrow> 'e + u128) \<Rightarrow> ('e \<Rightarrow> probe_class) \<Rightarrow> u128 \<Rightarrow> u128 \<Rightarrow> bool" where
  "below_target f classify target g \<longleftrightarrow>
     (case f g of Inr out \<Rightarrow> out < target | Inl e \<Rightarrow> classify e = Low)"

lemma cover_search_step:
  assumes "lo < bound" and "cover_search f classify target lo bound = Inr g"
  defines "mid \<equiv> lo + (bound - lo) div 2"
  obtains (yes) "probe_covers f classify target mid = Inr True"
      "cover_search f classify target lo mid = Inr g"
    | (no) "probe_covers f classify target mid = Inr False"
      "cover_search f classify target (mid + 1) bound = Inr g"
  using assms(1,2) unfolding mid_def
  by (auto simp: cover_search.simps [of f classify target lo bound] Let_def split: sum.splits if_splits)

lemma cover_search_lower:
  "cover_search f classify target lo bound = Inr g \<Longrightarrow> lo \<le> bound \<Longrightarrow> lo \<le> g"
proof (induction f classify target lo bound rule: cover_search.induct)
  case (1 f classify target lo bound)
  show ?case
  proof (cases "lo < bound")
    case True
    note mid = midpoint [OF True]
    have le: "lo \<le> lo + (bound - lo) div 2 + 1" "lo + (bound - lo) div 2 + 1 \<le> bound"
      using mid by (simp_all add: word_le_nat_alt word_less_nat_alt)
    from True 1(3) show ?thesis
      by (cases rule: cover_search_step)
        (use 1(1,2) [OF True refl] mid(2) le in \<open>auto intro: order_trans\<close>)
  qed (use 1(3) in \<open>simp add: cover_search.simps [of f classify target lo bound]\<close>)
qed

lemma probe_round_Return_Found:
  "probe_round f classify target seen prev g \<noteq> Return (Inr (Found x))"
  by (auto simp: probe_round_def probe_ceiling_def Let_def
      split: if_splits sum.splits probe_class.splits)

lemma probe_round_Break:
  "probe_round f classify target seen_ok prev g = Break hi \<Longrightarrow> g \<noteq> 0 \<Longrightarrow> hi \<noteq> 0"
  by (auto simp: probe_round_def probe_ceiling_def Let_def
      split: if_splits sum.splits probe_class.splits)

lemma prove_minimal_Found:
  assumes "prove_minimal f classify target g_star = Inr (Found g)" and "g_star \<noteq> 0"
  shows "covers f target g" and "g = 1 \<or> below_target f classify target (g - 1)"
proof -
  have "0 < unat g_star" using assms(2) by (simp add: unat_gt_0)
  then have "\<not> 1 < g_star \<Longrightarrow> g_star = 1" by (simp add: word_less_nat_alt word_unat_eq_iff)
  then show "covers f target g" "g = 1 \<or> below_target f classify target (g - 1)"
    using assms
    by (auto simp: prove_minimal_def covers_def below_target_def
        split: if_splits sum.splits probe_class.splits)
qed

lemma find_min_Found:
  assumes "find_min_gross_input target f classify = Some (Inr (Found g))"
  shows "covers f target g" and "g = 1 \<or> below_target f classify target (g - 1)"
proof -
  obtain hi g_star where hi: "hi \<noteq> 0" and s: "cover_search f classify target 1 hi = Inr g_star"
    and p: "prove_minimal f classify target g_star = Inr (Found g)"
  proof (rule locate_bound_result [of 1 "\<lambda>_ _. True" 0 f classify target False])
    fix seen prev' g' hi
    assume r: "g' \<noteq> 0" "probe_round f classify target seen prev' g' = Break hi"
      and l: "locate_bound f classify target False 0 1 = Some (Inr hi)"
    have "hi \<noteq> 0" by (rule probe_round_Break [OF r(2,1)])
    then show thesis
      using that [of hi] assms l by (auto simp: find_min_gross_input_def bindR_def split: sum.splits)
  qed (use assms in \<open>auto simp: find_min_gross_input_def probe_round_Return_Found\<close>)
  have "1 \<le> hi" using hi by (simp add: word_le_nat_alt Suc_le_eq unat_gt_0)
  then have "1 \<le> g_star" by (rule cover_search_lower [OF s])
  then have "g_star \<noteq> 0" by auto
  then show "covers f target g" "g = 1 \<or> below_target f classify target (g - 1)"
    using prove_minimal_Found [OF p] by blast+
qed


section \<open>The contract of the oracle\<close>

text \<open>
  The kernel over the inputs at least 1: its output does not decrease where it succeeds
  (assumption A of the source), low failures lie below every success (assumption B), a high
  failure is a ceiling, and it fails in no other way.
\<close>

definition fails_high :: "(u128 \<Rightarrow> 'e + u128) \<Rightarrow> ('e \<Rightarrow> probe_class) \<Rightarrow> u128 \<Rightarrow> bool" where
  "fails_high f classify a \<longleftrightarrow> (case f a of Inl e \<Rightarrow> classify e = High | Inr _ \<Rightarrow> False)"

locale exact_input_oracle =
  fixes f :: "u128 \<Rightarrow> 'e + u128" and classify :: "'e \<Rightarrow> probe_class"
  assumes output_mono: "\<lbrakk>a \<noteq> 0; a \<le> b; f a = Inr x; f b = Inr y\<rbrakk> \<Longrightarrow> x \<le> y"
    and low_below: "\<lbrakk>a \<noteq> 0; a \<le> b; f b = Inl e; classify e = Low\<rbrakk> \<Longrightarrow> \<exists>e'. f a = Inl e'"
    and high_above: "\<lbrakk>a \<noteq> 0; a \<le> b; f a = Inl e; classify e = High\<rbrakk> \<Longrightarrow>
      \<exists>e'. f b = Inl e' \<and> classify e' = High"
    and low_or_high: "\<lbrakk>a \<noteq> 0; f a = Inl e\<rbrakk> \<Longrightarrow> classify e = Low \<or> classify e = High"
begin

lemma below_covers:
  assumes "below_target f classify target b" and "a \<le> b"
  shows "\<not> covers f target a"
proof
  assume "covers f target a"
  then obtain out where a: "a \<noteq> 0" "f a = Inr out" "target \<le> out" by (auto simp: covers_iff)
  show False
  proof (cases "f b")
    case (Inl e)
    with assms a low_below show False by (fastforce simp: below_target_def)
  next
    case (Inr y)
    with assms output_mono [OF a(1) assms(2) a(2) Inr] a(3) show False by (simp add: below_target_def)
  qed
qed

text \<open>A found input is the least that covers the target.\<close>

lemma found_least:
  assumes "find_min_gross_input target f classify = Some (Inr (Found g))"
  shows "covers f target g" and "covers f target a \<Longrightarrow> g \<le> a"
proof -
  note found = find_min_Found [OF assms]
  show "covers f target g" by (rule found(1))
  assume a: "covers f target a"
  show "g \<le> a"
  proof (cases "g = 1")
    case True
    with a show ?thesis by (simp add: covers_iff word_le_nat_alt Suc_le_eq unat_gt_0)
  next
    case False
    with found(2) a below_covers have "\<not> a \<le> g - 1" by blast
    with found(1) show ?thesis
      by (simp add: covers_iff) (metis inc_le linorder_not_less diff_add_cancel)
  qed
qed

lemma below_targetI:
  "\<lbrakk>a \<noteq> 0; \<not> covers f target a; \<not> fails_high f classify a\<rbrakk> \<Longrightarrow> below_target f classify target a"
  using low_or_high [of a]
  by (auto simp: covers_def below_target_def fails_high_def split: sum.splits)

lemma below_ok_not_high: "\<lbrakk>a \<noteq> 0; a \<le> b; covers f target b\<rbrakk> \<Longrightarrow> \<not> fails_high f classify a"
  using high_above [of a b] by (auto simp: fails_high_def covers_iff split: sum.splits)

lemma ceiling_search_spec:
  assumes "lo < high" and "fails_high f classify high" and "lo = 0 \<or> \<not> fails_high f classify lo"
  shows "\<exists>x seen. ceiling_search f classify lo high seen_ok = Inr (x, seen) \<and>
    x \<noteq> 0 \<and> fails_high f classify x \<and> (x - 1 = 0 \<or> \<not> fails_high f classify (x - 1))"
  using assms
proof (induction "unat (high - lo)" arbitrary: lo high seen_ok rule: less_induct)
  case less
  define mid where "mid = lo + (high - lo) div 2"
  note unfold = ceiling_search.simps [of f classify lo high seen_ok]
  show ?case
  proof (cases "1 < high - lo")
    case True
    have dist: "unat (high - mid) < unat (high - lo)" "unat (mid - lo) < unat (high - lo)"
      using halving [OF True] by (simp_all add: mid_def flip: diff_diff_eq)
    have "lo \<noteq> mid" using halving(3) [OF True] by (auto simp: mid_def)
    then have mid: "lo < mid" "mid < high"
      using midpoint(2,3) [OF less.prems(1)] order_le_neq_trans unfolding mid_def by blast+
    then have "mid \<noteq> 0" by auto
    show ?thesis
    proof (cases "fails_high f classify mid")
      case high: True
      then have "ceiling_search f classify lo high seen_ok = ceiling_search f classify lo mid seen_ok"
        using True by (auto simp: unfold Let_def fails_high_def mid_def [symmetric] split: sum.splits)
      then show ?thesis using less.hyps [OF dist(2) mid(1) high less.prems(3)] by simp
    next
      case ok: False
      then obtain seen where
        "ceiling_search f classify lo high seen_ok = ceiling_search f classify mid high seen"
        using True low_or_high [OF \<open>mid \<noteq> 0\<close>]
        by (cases "f mid") (auto simp: unfold Let_def fails_high_def mid_def [symmetric])
      then show ?thesis using less.hyps [OF dist(1) mid(2) less.prems(2)] ok by simp
    qed
  next
    case False
    have "unat (high - lo) = unat high - unat lo" "unat lo < unat high"
      using less.prems(1) by (simp_all add: word_less_nat_alt unat_sub_no_underflow)
    then have "unat (high - lo) = 1" using False by (simp add: word_less_nat_alt)
    then have "high - lo = 1" by (simp add: word_unat_eq_iff)
    then have "high - 1 = lo" by (simp add: algebra_simps)
    then show ?thesis using False less.prems by (auto simp: unfold)
  qed
qed

lemma probe_ceiling_spec:
  assumes "x \<noteq> 0" "fails_high f classify x" "x - 1 = 0 \<or> \<not> fails_high f classify (x - 1)"
  shows "(\<exists>hi. probe_ceiling f classify target x seen = Break hi \<and> covers f target hi) \<or>
    probe_ceiling f classify target x seen = Return (Inr Unreachable) \<and> (\<forall>a. \<not> covers f target a)"
proof -
  have above: "\<not> covers f target a" if "x \<le> a" for a
    using high_above [OF assms(1) that] assms(2) by (auto simp: fails_high_def covers_iff split: sum.splits)
  have split: "x \<le> a \<or> a \<le> x - 1" for a
    using assms(1) by (metis inc_le diff_add_cancel linorder_not_less)
  show ?thesis
  proof (cases "x - 1 = 0")
    case True
    then have "\<not> covers f target a" for a using above [of a] split [of a] by (auto simp: covers_def)
    with True show ?thesis by (simp add: probe_ceiling_def)
  next
    case False
    show ?thesis
    proof (cases "covers f target (x - 1)")
      case True
      with False show ?thesis by (auto simp: probe_ceiling_def covers_iff Let_def)
    next
      case none: False
      then have below: "below_target f classify target (x - 1)"
        using assms(3) False by (intro below_targetI) auto
      then have "\<not> covers f target a" for a using below_covers [OF below, of a] above split by blast
      with below False show ?thesis
        by (auto simp: probe_ceiling_def below_target_def Let_def split: sum.splits)
    qed
  qed
qed

lemma cover_search_least:
  assumes "lo \<noteq> 0" and "lo \<le> bound" and "covers f target bound" and "\<forall>a < lo. \<not> covers f target a"
  shows "\<exists>g. cover_search f classify target lo bound = Inr g \<and> covers f target g \<and>
    (\<forall>a < g. \<not> covers f target a)"
  using assms
proof (induction "unat bound - unat lo" arbitrary: lo bound rule: less_induct)
  case less
  define mid where "mid = lo + (bound - lo) div 2"
  note unfold = cover_search.simps [of f classify target lo bound]
  show ?case
  proof (cases "lo < bound")
    case True
    note mid = midpoint [OF True, folded mid_def]
    have nat: "unat lo < unat bound" "unat lo \<le> unat mid" "unat mid < unat bound"
      using True mid(2,3) by (simp_all add: word_less_nat_alt word_le_nat_alt)
    have "mid \<noteq> 0" using less.prems(1) mid(2) by auto
    show ?thesis
    proof (cases "covers f target mid")
      case yes: True
      then have "cover_search f classify target lo bound = cover_search f classify target lo mid"
        using True by (auto simp: unfold Let_def covers_iff probe_covers_def mid_def [symmetric])
      moreover have "unat mid - unat lo < unat bound - unat lo" using nat by linarith
      ultimately show ?thesis using less.hyps [of mid lo] less.prems(1,4) mid(2) yes by simp
    next
      case no: False
      have "\<not> fails_high f classify mid"
        by (rule below_ok_not_high [OF \<open>mid \<noteq> 0\<close> less_imp_le [OF mid(3)] less.prems(3)])
      then have low: "below_target f classify target mid"
        by (rule below_targetI [OF \<open>mid \<noteq> 0\<close> no])
      then have "probe_covers f classify target mid = Inr False"
        by (auto simp: probe_covers_def below_target_def split: sum.splits)
      then have "cover_search f classify target lo bound = cover_search f classify target (mid + 1) bound"
        using True by (simp add: unfold Let_def mid_def [symmetric])
      moreover have "\<not> covers f target a" if "a < mid + 1" for a
      proof (rule below_covers [OF low])
        show "a \<le> mid" using that mid(4) by (simp add: word_less_nat_alt word_le_nat_alt)
      qed
      moreover have "unat bound - unat (mid + 1) < unat bound - unat lo" "mid + 1 \<le> bound" "mid + 1 \<noteq> 0"
        using nat mid(4) by (auto simp: word_le_nat_alt)
      ultimately show ?thesis using less.hyps [of bound "mid + 1"] less.prems(3) by simp
    qed
  next
    case False
    then have "cover_search f classify target lo bound = Inr lo" by (simp add: unfold)
    moreover have "lo = bound" using False less.prems(2) by simp
    ultimately show ?thesis using less.prems(3,4) by auto
  qed
qed

text \<open>The invariant of the doubling loop: no input up to the previous probe covers the target.\<close>

lemma probe_round_spec:
  assumes "g \<noteq> 0" and "prev < g" and "prev = 0 \<or> \<not> fails_high f classify prev"
  shows "case probe_round f classify target seen prev g of
      Break hi \<Rightarrow> covers f target hi
    | Return r \<Rightarrow> r = Inr Unreachable \<and> (\<forall>a. \<not> covers f target a)
    | Continue _ \<Rightarrow> below_target f classify target g \<and> \<not> fails_high f classify g"
proof (cases "f g")
  case (Inr out)
  then show ?thesis using assms(1)
    by (auto simp: probe_round_def covers_def below_target_def fails_high_def)
next
  case (Inl e)
  show ?thesis
  proof (cases "classify e = High")
    case True
    then have "fails_high f classify g" using Inl by (simp add: fails_high_def)
    then obtain x seen' where c: "ceiling_search f classify prev g seen = Inr (x, seen')" "x \<noteq> 0"
        "fails_high f classify x" "x - 1 = 0 \<or> \<not> fails_high f classify (x - 1)"
      using ceiling_search_spec [OF assms(2) _ assms(3)] by blast
    then show ?thesis
      using probe_ceiling_spec [OF c(2-4), of target seen'] Inl True by (auto simp: probe_round_def)
  next
    case False
    with low_or_high [OF assms(1) Inl] Inl show ?thesis
      by (auto simp: probe_round_def below_target_def fails_high_def)
  qed
qed

lemma locate_bound_spec:
  "(\<exists>hi. locate_bound f classify target False 0 1 = Some (Inr hi) \<and> covers f target hi) \<or>
   locate_bound f classify target False 0 1 = Some (Inl (Inr Unreachable)) \<and> (\<forall>a. \<not> covers f target a)"
proof (rule locate_bound_result [of 1
      "\<lambda>prev g. prev < g \<and> (prev = 0 \<or> \<not> fails_high f classify prev)" 0 f classify target False])
  fix seen prev g seen'
  assume "prev < g \<and> (prev = 0 \<or> \<not> fails_high f classify prev)" "g \<noteq> 0" "g \<noteq> - 1"
    and "probe_round f classify target seen prev g = Continue seen'"
  then show "g < next_probe g \<and> (g = 0 \<or> \<not> fails_high f classify g)"
    using probe_round_spec [of g prev target seen] next_probe_grows [of g] by simp
next
  fix prev seen seen'
  assume "prev < - 1 \<and> (prev = 0 \<or> \<not> fails_high f classify prev)"
    and "probe_round f classify target seen prev (- 1) = Continue seen'"
    and l: "locate_bound f classify target False 0 1 = Some (Inl (Inr Unreachable))"
  then have "below_target f classify target (- 1)"
    using probe_round_spec [of "- 1" prev target seen] by simp
  from below_covers [OF this] l show ?thesis by (simp add: word_n1_ge)
next
  fix seen prev g q
  assume "prev < g \<and> (prev = 0 \<or> \<not> fails_high f classify prev)" "g \<noteq> 0"
    and "probe_round f classify target seen prev g = Return q"
    and "locate_bound f classify target False 0 1 = Some (Inl q)"
  then show ?thesis using probe_round_spec [of g prev target seen] by simp
next
  fix seen prev g hi
  assume "prev < g \<and> (prev = 0 \<or> \<not> fails_high f classify prev)" "g \<noteq> 0"
    and "probe_round f classify target seen prev g = Break hi"
    and "locate_bound f classify target False 0 1 = Some (Inr hi)"
  then show ?thesis using probe_round_spec [of g prev target seen] by simp
qed simp_all

lemma prove_minimal_least:
  assumes "covers f target g" and "\<forall>a < g. \<not> covers f target a"
  shows "prove_minimal f classify target g = Inr (Found g)"
proof -
  have "below_target f classify target (g - 1)" if "1 < g"
  proof (rule below_targetI)
    have one: "unat (g - 1) = unat g - 1" "1 < unat g"
      using that by (auto simp: word_less_nat_alt unat_sub_no_underflow)
    then show "g - 1 \<noteq> 0" by auto
    have "g - 1 < g" using one by (simp add: word_less_nat_alt)
    with assms(2) show "\<not> covers f target (g - 1)" by blast
    show "\<not> fails_high f classify (g - 1)"
      by (rule below_ok_not_high [OF \<open>g - 1 \<noteq> 0\<close> less_imp_le [OF \<open>g - 1 < g\<close>] assms(1)])
  qed
  with assms(1) show ?thesis
    by (auto simp: prove_minimal_def covers_iff below_target_def not_le split: sum.splits)
qed

text \<open>The search decides whether some input covers the target, and returns the least one.\<close>

lemma find_min_complete:
  "find_min_gross_input target f classify =
     Some (Inr (if \<exists>a. covers f target a then Found (LEAST a. covers f target a) else Unreachable))"
  using locate_bound_spec [of target]
proof
  assume "\<exists>hi. locate_bound f classify target False 0 1 = Some (Inr hi) \<and> covers f target hi"
  then obtain hi where l: "locate_bound f classify target False 0 1 = Some (Inr hi)"
    and hi: "covers f target hi" by blast
  then have "1 \<le> hi" by (simp add: covers_iff word_le_nat_alt Suc_le_eq unat_gt_0)
  moreover have "\<forall>a < 1. \<not> covers f target a" by (simp add: covers_def)
  ultimately obtain g where g: "cover_search f classify target 1 hi = Inr g" "covers f target g"
      "\<forall>a < g. \<not> covers f target a"
    using cover_search_least [of 1 hi target] hi by auto
  then have "(LEAST a. covers f target a) = g"
    by (intro Least_equality) (auto simp: not_less [symmetric])
  with g l prove_minimal_least [OF g(2,3)] show ?thesis
    by (auto simp: find_min_gross_input_def bindR_def)
qed (auto simp: find_min_gross_input_def)

end

section \<open>Properties\<close>

text \<open>C32. The search returns, for every target, every oracle and every classification of its
  errors.\<close>

theorem find_min_gross_input_terminates:
  "\<exists>r. find_min_gross_input target f classify = Some r"
  by (rule find_min_returns)

text \<open>C33. Whatever the oracle does, an input the search reports as found has been probed and
  covers the target, and the input one below it (where there is one) either failed low or gave
  less than the target.\<close>

theorem find_min_gross_input_sound:
  assumes "find_min_gross_input target f classify = Some (Inr (Found g))"
  shows "covers f target g \<and> (g = 1 \<or> below_target f classify target (g - 1))"
  using find_min_Found [OF assms] by blast

lemma sample_search:
  "find_min_gross_input 1 (\<lambda>g. if g = 1 then Inl () else Inr 1) (\<lambda>_. Low) = Some (Inr (Found 2))"
  by (simp add: find_min_gross_input_def locate_bound.simps probe_round_def next_probe_def
      cover_search.simps probe_covers_def prove_minimal_def Let_def)

theorem find_min_gross_input_sound_witness:
  "covers (\<lambda>g. if g = 1 then Inl () else Inr 1) 1 2 \<and>
     below_target (\<lambda>g. if g = 1 then Inl () else Inr 1) (\<lambda>_. Low) 1 1"
  using find_min_gross_input_sound [OF sample_search] by simp

end
