(* ===== verification/Bin_Sim.thy ===== *)
theory Bin_Sim
  imports Complex_Main Cpmm Min_Input_Search
begin

text \<open>
  The discrete-bin (Liquidity Book) simulator: \<open>crates/simulation/src/bin.rs\<close> with its error
  type of \<open>crates/simulation/src/error.rs\<close>. One iteration of the traversal loop of
  \<open>simulate_bin_exact_input\<close> without the step to the next bin is \<open>bin_fill\<close>; \<open>bin_loop\<close> is the
  loop, \<open>bin_swap_math\<close> the fee and the loop together. The loop ends because every step to
  another bin counts against \<open>MAX_BIN_CROSSES\<close>.

  Bin ids are \<open>int\<close>, indices and counters are \<open>nat\<close>: an index is below the length of a vector,
  so the source's \<open>checked_add(1)\<close> on it does not fail.
\<close>

section \<open>Errors, requests and quotes\<close>

datatype bin_simulation_error =
    BE_InvalidPoolState
  | BE_ZeroInputAmount
  | BE_InvalidFee
  | BE_InvalidBinStep
  | BE_InvalidRange
  | BE_BinCrossingExceeded
  | BE_InvalidAssetDirection
  | BE_OutputAssetMismatch
  | BE_ChainMismatch
  | BE_ZeroEffectiveInput
  | BE_ZeroOutputAmount
  | BE_ArithmeticOverflow
  | BE_InvariantViolated
  | BE_OutputUnreachable
  | BE_StaleOrUnavailableState

definition bin_error_from :: "market_type_error \<Rightarrow> bin_simulation_error" where
  "bin_error_from err =
     (case err of
        ChainMismatch \<Rightarrow> BE_ChainMismatch
      | InvalidBinStep _ \<Rightarrow> BE_InvalidBinStep
      | BinOutOfRange _ _ _ \<Rightarrow> BE_InvalidBinStep
      | BinsExceeded _ _ \<Rightarrow> BE_InvalidRange
      | UnsortedBins \<Rightarrow> BE_InvalidRange
      | DuplicateBin _ \<Rightarrow> BE_InvalidRange
      | EmptyBin _ \<Rightarrow> BE_InvalidRange
      | BinReserveSideViolation _ _ \<Rightarrow> BE_InvalidRange
      | ResyncRequired _ \<Rightarrow> BE_StaleOrUnavailableState
      | StaleSequence _ _ \<Rightarrow> BE_StaleOrUnavailableState
      | _ \<Rightarrow> BE_InvalidPoolState)"

definition MAX_BIN_CROSSES :: usize where
  "MAX_BIN_CROSSES = 32"

record bin_exact_input_request =
  bi_token_in :: asset_id
  bi_amount_in :: atomic_amount
  bi_token_out :: "asset_id option"

definition bin_exact_input_new :: "asset_id \<Rightarrow> atomic_amount \<Rightarrow> bin_exact_input_request" where
  "bin_exact_input_new token_in amount_in =
     \<lparr>bi_token_in = token_in, bi_amount_in = amount_in, bi_token_out = None\<rparr>"

definition bin_exact_input_new_directed ::
  "asset_id \<Rightarrow> atomic_amount \<Rightarrow> asset_id \<Rightarrow> bin_exact_input_request" where
  "bin_exact_input_new_directed token_in amount_in token_out =
     \<lparr>bi_token_in = token_in, bi_amount_in = amount_in, bi_token_out = Some token_out\<rparr>"

record bin_simulation_quote =
  bq_input :: asset_amount
  bq_output :: asset_amount
  bq_fee :: asset_amount
  bq_effective_input :: asset_amount
  bq_fee_bps :: bps
  bq_resulting_active_bin_id :: i32
  bq_bins_crossed :: usize

record bin_exact_output_request =
  bo_token_in :: asset_id
  bo_amount_out :: atomic_amount
  bo_token_out :: "asset_id option"

definition bin_exact_output_new :: "asset_id \<Rightarrow> atomic_amount \<Rightarrow> bin_exact_output_request" where
  "bin_exact_output_new token_in amount_out =
     \<lparr>bo_token_in = token_in, bo_amount_out = amount_out, bo_token_out = None\<rparr>"

definition bin_exact_output_new_directed ::
  "asset_id \<Rightarrow> atomic_amount \<Rightarrow> asset_id \<Rightarrow> bin_exact_output_request" where
  "bin_exact_output_new_directed token_in amount_out token_out =
     \<lparr>bo_token_in = token_in, bo_amount_out = amount_out, bo_token_out = Some token_out\<rparr>"

record bin_exact_output_quote =
  bx_input :: asset_amount
  bx_requested_output :: asset_amount
  bx_output :: asset_amount
  bx_fee :: asset_amount
  bx_effective_input :: asset_amount
  bx_fee_bps :: bps
  bx_resulting_active_bin_id :: i32
  bx_bins_crossed :: usize

definition bin_output_overshoot :: "bin_exact_output_quote \<Rightarrow> atomic_amount" where
  "bin_output_overshoot q =
     saturating_sub (aa_amount (bx_output q)) (aa_amount (bx_requested_output q))"

definition bin_probe_class :: "bin_simulation_error \<Rightarrow> probe_class" where
  "bin_probe_class err =
     (case err of
        BE_ZeroOutputAmount \<Rightarrow> Low
      | BE_ZeroEffectiveInput \<Rightarrow> Low
      | BE_InvariantViolated \<Rightarrow> Hole
      | BE_BinCrossingExceeded \<Rightarrow> High
      | BE_ArithmeticOverflow \<Rightarrow> High
      | _ \<Rightarrow> Unexpected)"

section \<open>Bin prices\<close>

function gcd_u128 :: "u128 \<Rightarrow> u128 \<Rightarrow> u128" where
  "gcd_u128 a b = (if b \<noteq> 0 then gcd_u128 b (a mod b) else a)"
  by pat_completeness auto
termination
  by (relation "measure (\<lambda>(_, b). unat b)") (auto simp: unat_mod unat_gt_0)

declare gcd_u128.simps [simp del]

definition reduce_fraction :: "u128 \<Rightarrow> u128 \<Rightarrow> u128 \<times> u128" where
  "reduce_fraction num den =
     (let divisor = gcd_u128 num den in
      if divisor \<le> 1 then (num, den) else (num div divisor, den div divisor))"

definition raw_bin_price :: "u128 \<Rightarrow> u128 \<Rightarrow> i32 \<Rightarrow> bin_simulation_error + (u128 \<times> u128)" where
  "raw_bin_price base_num base_den bin =
     (let exponent = nat \<bar>bin\<bar> in
      if 0 \<le> bin then
        bindR (ok_or BE_ArithmeticOverflow (checked_pow base_num exponent)) (\<lambda>num_raw.
        bindR (ok_or BE_ArithmeticOverflow (checked_pow base_den exponent)) (\<lambda>den_raw.
        Inr (num_raw, den_raw)))
      else
        bindR (ok_or BE_ArithmeticOverflow (checked_pow base_den exponent)) (\<lambda>num_raw.
        bindR (ok_or BE_ArithmeticOverflow (checked_pow base_num exponent)) (\<lambda>den_raw.
        Inr (num_raw, den_raw))))"

definition scale_bin_price ::
  "u8 \<Rightarrow> u8 \<Rightarrow> u128 \<Rightarrow> u128 \<Rightarrow> bin_simulation_error + (u128 \<times> u128)" where
  "scale_bin_price decimals_0 decimals_1 num_raw den_raw =
     (let decimal_delta = nat \<bar>int (unat decimals_1) - int (unat decimals_0)\<bar> in
      bindR (ok_or BE_ArithmeticOverflow (checked_pow 10 decimal_delta)) (\<lambda>decimal_factor.
      if decimals_0 \<le> decimals_1 then
        let cancel = gcd_u128 den_raw decimal_factor in
        bindR (ok_or BE_ArithmeticOverflow (checked_mul num_raw (decimal_factor div cancel))) (\<lambda>num.
        Inr (num, den_raw div cancel))
      else
        let cancel = gcd_u128 num_raw decimal_factor in
        bindR (ok_or BE_ArithmeticOverflow (checked_mul den_raw (decimal_factor div cancel))) (\<lambda>den.
        Inr (num_raw div cancel, den))))"

definition atomic_bin_price ::
  "u16 \<Rightarrow> u8 \<Rightarrow> u8 \<Rightarrow> i32 \<Rightarrow> bin_simulation_error + (u128 \<times> u128)" where
  "atomic_bin_price step decimals_0 decimals_1 bin =
     bindR (ok_or BE_ArithmeticOverflow (checked_add 10000 (ucast step))) (\<lambda>base_num.
     let (base_num, base_den) = reduce_fraction base_num 10000 in
     bindR (raw_bin_price base_num base_den bin) (\<lambda>(num_raw, den_raw).
     bindR (scale_bin_price decimals_0 decimals_1 num_raw den_raw) (\<lambda>(num, den).
     let (num, den) = reduce_fraction num den in
     if num = 0 \<or> den = 0 then Inl BE_ArithmeticOverflow
     else Inr (num, den))))"

definition bin_mul_div_floor :: "u128 \<Rightarrow> u128 \<Rightarrow> u128 \<Rightarrow> bin_simulation_error + u128" where
  "bin_mul_div_floor a b c =
     (let (hi, lo) = mul_u128_wide a b in
      ok_or BE_ArithmeticOverflow (div_u256_by_u128_floor hi lo c))"

definition bin_mul_div_ceil :: "u128 \<Rightarrow> u128 \<Rightarrow> u128 \<Rightarrow> bin_simulation_error + u128" where
  "bin_mul_div_ceil a b c =
     bindR (bin_mul_div_floor a b c) (\<lambda>quotient.
     if cmp_u128_products quotient c a b = Less
     then ok_or BE_ArithmeticOverflow (checked_add quotient 1)
     else Inr quotient)"

section \<open>Exact input\<close>

definition next_bin_index ::
  "bin_pool_state \<Rightarrow> usize \<Rightarrow> bool \<Rightarrow> usize \<Rightarrow> bin_simulation_error + (usize \<times> usize)" where
  "next_bin_index pool current_idx is_token_0_in bins_crossed =
     (if MAX_BIN_CROSSES \<le> bins_crossed then Inl BE_BinCrossingExceeded
      else if is_token_0_in then
        if current_idx = 0 then Inl BE_BinCrossingExceeded
        else Inr (current_idx - 1, bins_crossed + 1)
      else
        let next_idx = current_idx + 1 in
        if length (bn_bins pool) \<le> next_idx then Inl BE_BinCrossingExceeded
        else Inr (next_idx, bins_crossed + 1))"

definition bin_available :: "bool \<Rightarrow> liquidity_bin \<Rightarrow> u128" where
  "bin_available is_token_0_in bin =
     (if is_token_0_in then bin_reserve_1 bin else bin_reserve_0 bin)"

text \<open>
  The input that exhausts a bin with output to give, and the fraction of output per input.
\<close>

definition bin_need ::
  "bin_pool_state \<Rightarrow> bool \<Rightarrow> liquidity_bin \<Rightarrow> bin_simulation_error + (u128 \<times> u128 \<times> u128)" where
  "bin_need pool is_token_0_in bin =
     (let available = bin_available is_token_0_in bin in
      bindR (atomic_bin_price (bn_bin_step pool) (bn_decimals_0 pool) (bn_decimals_1 pool)
               (bin_id bin)) (\<lambda>(n, d).
      if is_token_0_in
      then bindR (bin_mul_div_ceil available d n) (\<lambda>need. Inr (need, n, d))
      else bindR (bin_mul_div_ceil available n d) (\<lambda>need. Inr (need, d, n))))"

text \<open>
  One iteration at the bin \<open>current_idx\<close>: the input that remains, the output so far and the
  last bin that produced output.
\<close>

definition bin_fill ::
  "bin_pool_state \<Rightarrow> bool \<Rightarrow> usize \<Rightarrow> u128 \<Rightarrow> u128 \<Rightarrow> usize \<Rightarrow>
     bin_simulation_error + (u128 \<times> u128 \<times> usize)" where
  "bin_fill pool is_token_0_in current_idx remaining_input total_output last_output_idx =
     (let bin = bn_bins pool ! current_idx;
          available = bin_available is_token_0_in bin in
      if available = 0 then Inr (remaining_input, total_output, last_output_idx)
      else
        bindR (bin_need pool is_token_0_in bin) (\<lambda>(need, output_numerator, output_denominator).
        if need \<le> remaining_input then
          bindR (ok_or BE_ArithmeticOverflow (checked_add total_output available)) (\<lambda>output.
          bindR (ok_or BE_ArithmeticOverflow (checked_sub remaining_input need)) (\<lambda>remaining.
          Inr (remaining, output, current_idx)))
        else
          bindR (bin_mul_div_floor remaining_input output_numerator output_denominator)
            (\<lambda>partial_output.
          bindR (ok_or BE_ArithmeticOverflow (checked_add total_output partial_output)) (\<lambda>output.
          Inr (0, output, if 0 < partial_output then current_idx else last_output_idx)))))"

function bin_loop ::
  "bin_pool_state \<Rightarrow> bool \<Rightarrow> usize \<Rightarrow> u128 \<Rightarrow> u128 \<Rightarrow> usize \<Rightarrow> usize \<Rightarrow>
     bin_simulation_error + (u128 \<times> usize \<times> usize)" where
  "bin_loop pool is_token_0_in current_idx remaining_input total_output bins_crossed last_output_idx =
     (if remaining_input = 0 then Inr (total_output, bins_crossed, last_output_idx)
      else
        case bin_fill pool is_token_0_in current_idx remaining_input total_output last_output_idx of
          Inl e \<Rightarrow> Inl e
        | Inr (remaining, output, last_idx) \<Rightarrow>
            if remaining = 0 then Inr (output, bins_crossed, last_idx)
            else
              case next_bin_index pool current_idx is_token_0_in bins_crossed of
                Inl e \<Rightarrow> Inl e
              | Inr (idx, crossed) \<Rightarrow> bin_loop pool is_token_0_in idx remaining output crossed last_idx)"
  by pat_completeness auto
termination
  by (relation "measure (\<lambda>(_, _, _, _, _, crossed, _). MAX_BIN_CROSSES - crossed)")
    (auto simp: next_bin_index_def Let_def split: if_splits)

declare bin_loop.simps [simp del]

text \<open>Fee, effective input, output, number of crossings and index of the last bin used.\<close>

definition bin_swap_math ::
  "bin_pool_state \<Rightarrow> bool \<Rightarrow> usize \<Rightarrow> u128 \<Rightarrow>
     bin_simulation_error + (u128 \<times> u128 \<times> u128 \<times> usize \<times> usize)" where
  "bin_swap_math pool is_token_0_in active_idx amount_in_val =
     bindR (bin_mul_div_floor amount_in_val (ucast (bn_fee_bps pool)) 10000) (\<lambda>fee_val.
     bindR (ok_or BE_ArithmeticOverflow (checked_sub amount_in_val fee_val)) (\<lambda>effective_input_val.
     if effective_input_val = 0 then Inl BE_ZeroEffectiveInput
     else
       bindR (bin_loop pool is_token_0_in active_idx effective_input_val 0 0 active_idx)
         (\<lambda>(total_output, bins_crossed, last_output_idx).
       if total_output = 0 then Inl BE_ZeroOutputAmount
       else Inr (fee_val, effective_input_val, total_output, bins_crossed, last_output_idx))))"

text \<open>Steps 3 to 6, common to both simulations: the direction of an admissible request.\<close>

definition bin_direction ::
  "bin_pool_state \<Rightarrow> asset_id \<Rightarrow> asset_id option \<Rightarrow> bin_simulation_error + bool" where
  "bin_direction pool token_in token_out =
     (if asset_chain token_in \<noteq> asset_chain (bn_token_0 pool) then Inl BE_ChainMismatch
      else
        bindR (if token_in = bn_token_0 pool then Inr True
               else if token_in = bn_token_1 pool then Inr False
               else Inl BE_InvalidAssetDirection) (\<lambda>is_token_0_in.
        let expected_out = (if is_token_0_in then bn_token_1 pool else bn_token_0 pool) in
        bindR (case token_out of
                 None \<Rightarrow> Inr ()
               | Some caller_out \<Rightarrow>
                   if asset_chain caller_out \<noteq> asset_chain (bn_token_0 pool) then Inl BE_ChainMismatch
                   else if caller_out = token_in then Inl BE_InvalidAssetDirection
                   else if caller_out \<noteq> expected_out then Inl BE_OutputAssetMismatch
                   else Inr ()) (\<lambda>_.
        if BPS_MAX \<le> bn_fee_bps pool then Inl BE_InvalidFee else Inr is_token_0_in)))"

definition simulate_bin_exact_input ::
  "bin_pool_state \<Rightarrow> bin_exact_input_request \<Rightarrow> bin_simulation_error + bin_simulation_quote" where
  "simulate_bin_exact_input pool request =
     bindR (map_err bin_error_from (bin_validate pool)) (\<lambda>_.
     if bi_amount_in request = 0 then Inl BE_ZeroInputAmount
     else bindR (bin_direction pool (bi_token_in request) (bi_token_out request)) (\<lambda>is_token_0_in.
     let expected_out = (if is_token_0_in then bn_token_1 pool else bn_token_0 pool) in
     bindR (ok_or BE_InvalidRange
              (position (\<lambda>bin. bin_id bin = bn_active_bin_id pool) (bn_bins pool))) (\<lambda>active_idx.
     bindR (bin_swap_math pool is_token_0_in active_idx (bi_amount_in request))
       (\<lambda>(fee_val, effective_input_val, total_output, bins_crossed, last_output_idx).
     Inr \<lparr>bq_input = \<lparr>aa_asset = bi_token_in request, aa_amount = bi_amount_in request\<rparr>,
          bq_output = \<lparr>aa_asset = expected_out, aa_amount = total_output\<rparr>,
          bq_fee = \<lparr>aa_asset = bi_token_in request, aa_amount = fee_val\<rparr>,
          bq_effective_input = \<lparr>aa_asset = bi_token_in request, aa_amount = effective_input_val\<rparr>,
          bq_fee_bps = bn_fee_bps pool,
          bq_resulting_active_bin_id = bin_id (bn_bins pool ! last_output_idx),
          bq_bins_crossed = bins_crossed\<rparr>))))"

section \<open>Exact output\<close>

definition bin_oracle ::
  "bin_pool_state \<Rightarrow> asset_id \<Rightarrow> u128 \<Rightarrow> bin_simulation_error + u128" where
  "bin_oracle pool token_in g =
     map_sum id (\<lambda>quote. aa_amount (bq_output quote))
       (simulate_bin_exact_input pool (bin_exact_input_new token_in g))"

text \<open>The result is \<open>None\<close> if the search did not return.\<close>

definition simulate_bin_exact_output ::
  "bin_pool_state \<Rightarrow> bin_exact_output_request \<Rightarrow>
     (bin_simulation_error + bin_exact_output_quote) option" where
  "simulate_bin_exact_output pool request =
     (case bindR (map_err bin_error_from (bin_validate pool)) (\<lambda>_.
           if bo_amount_out request = 0 then Inl BE_ZeroOutputAmount
           else bin_direction pool (bo_token_in request) (bo_token_out request)) of
        Inl e \<Rightarrow> Some (Inl e)
      | Inr is_token_0_in \<Rightarrow>
          let expected_out = (if is_token_0_in then bn_token_1 pool else bn_token_0 pool);
              requested_out = bo_amount_out request in
          map_option (\<lambda>outcome.
            bindR outcome (\<lambda>found.
            bindR (case found of
                     Found g \<Rightarrow> Inr g
                   | Unreachable \<Rightarrow> Inl BE_OutputUnreachable
                   | Invariant \<Rightarrow> Inl BE_InvariantViolated) (\<lambda>minimal_in.
            bindR (simulate_bin_exact_input pool
                     (bin_exact_input_new (bo_token_in request) minimal_in)) (\<lambda>realized.
            if aa_amount (bq_output realized) < requested_out then Inl BE_InvariantViolated
            else Inr \<lparr>bx_input = bq_input realized,
                      bx_requested_output = \<lparr>aa_asset = expected_out, aa_amount = bo_amount_out request\<rparr>,
                      bx_output = bq_output realized,
                      bx_fee = bq_fee realized,
                      bx_effective_input = bq_effective_input realized,
                      bx_fee_bps = bq_fee_bps realized,
                      bx_resulting_active_bin_id = bq_resulting_active_bin_id realized,
                      bx_bins_crossed = bq_bins_crossed realized\<rparr>))))
            (find_min_gross_input requested_out (bin_oracle pool (bo_token_in request)) bin_probe_class))"

definition bin_exact_output_simulate ::
  "bin_exact_output_request \<Rightarrow> bin_pool_state \<Rightarrow>
     (bin_simulation_error + bin_exact_output_quote) option" where
  "bin_exact_output_simulate request pool = simulate_bin_exact_output pool request"

section \<open>Prices are exact\<close>

lemma unat_gcd_u128: "unat (gcd_u128 a b) = gcd (unat a) (unat b)"
proof (induction a b rule: gcd_u128.induct)
  case (1 a b)
  show ?case
  proof (cases "b = 0")
    case False
    then have "unat (gcd_u128 a b) = gcd (unat b) (unat a mod unat b)"
      using 1 by (simp add: gcd_u128.simps [of a b] unat_mod)
    also have "\<dots> = gcd (unat a) (unat b)" by (metis gcd.commute gcd_red_nat)
    finally show ?thesis .
  qed (simp add: gcd_u128.simps)
qed

lemma reduce_fraction_unat:
  assumes "reduce_fraction num den = (n, d)"
  defines "g \<equiv> gcd (unat num) (unat den)"
  shows "unat n = unat num div g" and "unat d = unat den div g"
proof -
  let ?g = "gcd_u128 num den"
  have g: "unat ?g = g" by (simp add: unat_gcd_u128 g_def)
  have "unat n = unat num div g \<and> unat d = unat den div g"
  proof (cases "?g \<le> 1")
    case True
    then have "g = 0 \<or> g = 1" using g by (auto simp: word_le_nat_alt)
    moreover have "g = 0 \<Longrightarrow> unat num = 0 \<and> unat den = 0" unfolding g_def by simp
    ultimately show ?thesis
      using assms(1) True by (auto simp: reduce_fraction_def)
  next
    case False
    with assms(1) have "n = num div ?g" "d = den div ?g" by (auto simp: reduce_fraction_def Let_def)
    with g show ?thesis by (simp add: unat_div)
  qed
  then show "unat n = unat num div g" "unat d = unat den div g" by simp_all
qed

lemma reduce_fraction_ratio:
  assumes "reduce_fraction num den = (n, d)" and "den \<noteq> 0"
  shows "d \<noteq> 0" and "coprime (unat n) (unat d)" and "real (unat n) / real (unat d) = real (unat num) / real (unat den)"
    and "num \<noteq> 0 \<Longrightarrow> n \<noteq> 0"
proof -
  define g where "g = gcd (unat num) (unat den)"
  have den: "0 < unat den" using assms(2) by (simp add: unat_gt_0)
  then have g: "0 < g" unfolding g_def by simp
  have n: "unat num = unat n * g" and d: "unat den = unat d * g"
    using reduce_fraction_unat [OF assms(1)] unfolding g_def by simp_all
  from d den have "unat d \<noteq> 0" by (cases "unat d") auto
  then show "d \<noteq> 0" by auto
  show "real (unat n) / real (unat d) = real (unat num) / real (unat den)"
    using g by (simp add: n d)
  show "coprime (unat n) (unat d)"
    using reduce_fraction_unat [OF assms(1)] den div_gcd_coprime [of "unat num" "unat den"] by simp
  show "n \<noteq> 0" if "num \<noteq> 0"
  proof
    assume "n = 0"
    with n have "unat num = 0" by simp
    with that show False by (simp add: unat_eq_zero)
  qed
qed

text \<open>Scaling by the power of ten after cancelling what it shares with the denominator.\<close>

lemma scale_ratio:
  assumes "unat num = unat a * unat (f div gcd_u128 b f)" and "b \<noteq> 0" and "f \<noteq> 0"
  shows "b div gcd_u128 b f \<noteq> 0"
    and "real (unat num) / real (unat (b div gcd_u128 b f)) = real (unat a) / real (unat b) * real (unat f)"
    and "a \<noteq> 0 \<Longrightarrow> num \<noteq> 0"
proof -
  define g where "g = gcd (unat b) (unat f)"
  have pos: "0 < unat b" "0 < unat f" using assms(2,3) by (simp_all add: unat_gt_0)
  then have "0 < g" by (simp add: g_def)
  obtain b' where b: "unat b = b' * g" unfolding g_def by (metis dvdE gcd_dvd1 mult.commute)
  obtain f' where f: "unat f = f' * g" unfolding g_def by (metis dvdE gcd_dvd2 mult.commute)
  have "unat (b div gcd_u128 b f) = unat b div g" "unat (f div gcd_u128 b f) = unat f div g"
    by (simp_all add: unat_div unat_gcd_u128 g_def)
  then have quot: "unat (b div gcd_u128 b f) = b'" "unat (f div gcd_u128 b f) = f'"
    using \<open>0 < g\<close> by (simp_all add: b f)
  have "0 < b'" "0 < f'" using pos b f by (auto intro: Nat.gr0I)
  then show "b div gcd_u128 b f \<noteq> 0" using quot(1) by auto
  show "real (unat num) / real (unat (b div gcd_u128 b f)) = real (unat a) / real (unat b) * real (unat f)"
    unfolding assms(1) quot b f using \<open>0 < g\<close> \<open>0 < b'\<close> by simp
  show "num \<noteq> 0" if "a \<noteq> 0"
  proof
    assume "num = 0"
    then have "unat a * f' = 0" using assms(1) quot(2) by simp
    with \<open>0 < f'\<close> that show False by (simp add: unat_eq_zero)
  qed
qed

lemma pow_ratio:
  assumes "unat a = unat x ^ nat \<bar>b\<bar>" and "unat c = unat y ^ nat \<bar>b\<bar>" and "x \<noteq> 0" and "y \<noteq> 0"
  shows "a \<noteq> 0" and "c \<noteq> 0"
    and "0 \<le> b \<Longrightarrow> real (unat a) / real (unat c) = (real (unat x) / real (unat y)) powi b"
    and "\<not> 0 \<le> b \<Longrightarrow> real (unat c) / real (unat a) = (real (unat x) / real (unat y)) powi b"
proof -
  have "unat x ^ nat \<bar>b\<bar> \<noteq> 0" "unat y ^ nat \<bar>b\<bar> \<noteq> 0" using assms(3,4) by (simp_all add: unat_eq_zero)
  then show "a \<noteq> 0" "c \<noteq> 0" using assms(1,2) by auto
  show "real (unat a) / real (unat c) = (real (unat x) / real (unat y)) powi b" if "0 \<le> b"
    using that by (simp add: assms(1,2) power_int_def power_divide)
  show "real (unat c) / real (unat a) = (real (unat x) / real (unat y)) powi b" if "\<not> 0 \<le> b"
    using that by (simp add: assms(1,2) power_int_def power_divide)
qed

lemma raw_bin_price_ratio:
  assumes "raw_bin_price base_num base_den b = Inr (num, den)" and "base_num \<noteq> 0" and "base_den \<noteq> 0"
  shows "num \<noteq> 0 \<and> den \<noteq> 0 \<and>
    real (unat num) / real (unat den) = (real (unat base_num) / real (unat base_den)) powi b"
proof (cases "0 \<le> b")
  case True
  with assms(1) have "unat num = unat base_num ^ nat \<bar>b\<bar>" "unat den = unat base_den ^ nat \<bar>b\<bar>"
    by (auto simp: raw_bin_price_def Let_def result_iff rust_arith)
  from pow_ratio [OF this assms(2,3)] True show ?thesis by simp
next
  case False
  with assms(1) have "unat den = unat base_num ^ nat \<bar>b\<bar>" "unat num = unat base_den ^ nat \<bar>b\<bar>"
    by (auto simp: raw_bin_price_def Let_def result_iff rust_arith)
  from pow_ratio [OF this assms(2,3)] False show ?thesis by simp
qed

lemma decimal_power:
  assumes "unat factor = 10 ^ nat \<bar>int (unat d1) - int (unat d0)\<bar>"
  shows "factor \<noteq> (0 :: u128)"
    and "d0 \<le> (d1 :: u8) \<Longrightarrow> real (unat factor) = 10 powi (int (unat d1) - int (unat d0))"
    and "\<not> d0 \<le> d1 \<Longrightarrow> inverse (real (unat factor)) = 10 powi (int (unat d1) - int (unat d0))"
proof -
  show "factor \<noteq> 0" using assms by (metis power_eq_0_iff unat_0 zero_neq_numeral)
  have sign: "d0 \<le> d1 \<longleftrightarrow> 0 \<le> int (unat d1) - int (unat d0)" using word_le_nat_alt [of d0 d1] by linarith
  show "real (unat factor) = 10 powi (int (unat d1) - int (unat d0))" if "d0 \<le> d1"
    using that unfolding sign by (simp add: assms power_int_def)
  show "inverse (real (unat factor)) = 10 powi (int (unat d1) - int (unat d0))" if "\<not> d0 \<le> d1"
    using that unfolding sign by (simp add: assms power_int_def power_one_over inverse_eq_divide)
qed

lemma scale_bin_price_ratio:
  assumes "scale_bin_price d0 d1 num_raw den_raw = Inr (num, den)" and nz: "num_raw \<noteq> 0" "den_raw \<noteq> 0"
  shows "num \<noteq> 0 \<and> den \<noteq> 0 \<and> real (unat num) / real (unat den) =
    real (unat num_raw) / real (unat den_raw) * 10 powi (int (unat d1) - int (unat d0))"
proof -
  obtain factor where f: "unat factor = 10 ^ nat \<bar>int (unat d1) - int (unat d0)\<bar>" and
    s: "if d0 \<le> d1 then unat num = unat num_raw * unat (factor div gcd_u128 den_raw factor) \<and>
          den = den_raw div gcd_u128 den_raw factor
        else unat den = unat den_raw * unat (factor div gcd_u128 num_raw factor) \<and>
          num = num_raw div gcd_u128 num_raw factor"
    using assms(1) unfolding scale_bin_price_def
    by (auto simp: Let_def result_iff rust_arith split: if_splits)
  note p = decimal_power [OF f]
  show ?thesis
  proof (cases "d0 \<le> d1")
    case True
    then show ?thesis using scale_ratio [OF _ nz(2) p(1), of num num_raw] nz(1) s p(2) by simp
  next
    case False
    then have r: "num \<noteq> 0" "den \<noteq> 0"
      "real (unat den) / real (unat num) = real (unat den_raw) / real (unat num_raw) * real (unat factor)"
      using scale_ratio [OF _ nz(1) p(1), of den den_raw] nz(2) s by simp_all
    from arg_cong [OF r(3), of inverse] r(1,2) show ?thesis
      unfolding p(3) [OF False, symmetric] by (simp add: divide_inverse mult.commute)
  qed
qed

lemma atomic_bin_price_ratio:
  assumes "atomic_bin_price step d0 d1 b = Inr (n, d)"
  shows "n \<noteq> 0" and "d \<noteq> 0" and "coprime (unat n) (unat d)"
    and "real (unat n) / real (unat d) =
      ((10000 + real (unat step)) / 10000) powi b * 10 powi (int (unat d1) - int (unat d0))"
proof -
  obtain base where base: "unat (base :: u128) = 10000 + unat step" and
    r1: "(let (bn, bd) = reduce_fraction base 10000 in
      bindR (raw_bin_price bn bd b) (\<lambda>(nr, dr).
      bindR (scale_bin_price d0 d1 nr dr) (\<lambda>(num, den).
      let (num, den) = reduce_fraction num den in
      if num = 0 \<or> den = 0 then Inl BE_ArithmeticOverflow else Inr (num, den)))) = Inr (n, d)"
    using assms unfolding atomic_bin_price_def by (auto simp: result_iff rust_arith unat_ucast_fee)
  obtain bn bd where red: "reduce_fraction base 10000 = (bn, bd)" by fastforce
  with r1 obtain nr dr num den where raw: "raw_bin_price bn bd b = Inr (nr, dr)"
    and scaled: "scale_bin_price d0 d1 nr dr = Inr (num, den)"
    and r2: "(let (num, den) = reduce_fraction num den in
      if num = 0 \<or> den = 0 then Inl BE_ArithmeticOverflow else Inr (num, den)) = Inr (n, d)"
    by (auto simp: result_iff)
  from r2 have final: "reduce_fraction num den = (n, d)" and nz: "n \<noteq> 0" "d \<noteq> 0"
    by (auto split: prod.splits if_splits)
  show "n \<noteq> 0" "d \<noteq> 0" by (rule nz)+
  have "base \<noteq> 0" using base by auto
  note b = reduce_fraction_ratio [OF red] raw_bin_price_ratio [OF raw] scale_bin_price_ratio [OF scaled]
    and f = reduce_fraction_ratio [OF final]
  show "coprime (unat n) (unat d)" using b f \<open>base \<noteq> 0\<close> by simp
  have "real (unat base) = 10000 + real (unat step)" unfolding base by simp
  then have ratio: "real (unat bn) / real (unat bd) = (10000 + real (unat step)) / 10000"
    using b(3) by simp
  show "real (unat n) / real (unat d) =
      ((10000 + real (unat step)) / 10000) powi b * 10 powi (int (unat d1) - int (unat d0))"
    using b f \<open>base \<noteq> 0\<close> unfolding ratio by simp
qed

section \<open>The traversal\<close>

lemma bin_mul_div_floor_alt:
  "bin_mul_div_floor a b c = ok_or BE_ArithmeticOverflow
     (case mul_u128_wide a b of (hi, lo) \<Rightarrow> div_u256_by_u128_floor hi lo c)"
  by (simp add: bin_mul_div_floor_def split: prod.splits)

lemma bin_mul_div_floor_Inr_iff [rust_arith]:
  "bin_mul_div_floor a b c = Inr q \<longleftrightarrow> c \<noteq> 0 \<and> unat q = unat a * unat b div unat c"
  by (simp only: bin_mul_div_floor_alt ok_or_Inr_iff mul_div_floor_Some_iff)

lemma bin_mul_div_ceil_Inr_iff [rust_arith]:
  "bin_mul_div_ceil a b c = Inr q \<longleftrightarrow> c \<noteq> 0 \<and> unat q = ceil_div (unat a * unat b) (unat c)"
proof (cases "\<exists>r. bin_mul_div_floor a b c = Inr r")
  case True
  then obtain r where r: "bin_mul_div_floor a b c = Inr r" ..
  then have c: "c \<noteq> 0" "unat r = unat a * unat b div unat c" by (simp_all add: rust_arith)
  then have pos: "0 < unat c" by (simp add: unat_gt_0)
  have "unat r * unat c < unat a * unat b \<longleftrightarrow> \<not> unat c dvd unat a * unat b"
    using c(2) by (metis div_times_less_eq_dividend dvd_div_mult_self dvd_triv_right order_le_neq_trans order_less_irrefl)
  then show ?thesis
    using r c by (auto simp: bin_mul_div_ceil_def cmp_u128_products_eq ceil_div_alt [OF pos] result_iff
        rust_arith word_unat_eq_iff)
next
  case False
  have "\<not> (c \<noteq> 0 \<and> unat q = ceil_div (unat a * unat b) (unat c))"
  proof
    assume q: "c \<noteq> 0 \<and> unat q = ceil_div (unat a * unat b) (unat c)"
    define k where "k = unat a * unat b div unat c"
    from q have "0 < unat c" by (simp add: unat_gt_0)
    then have "k \<le> unat q" using q by (simp add: ceil_div_alt k_def)
    then have "unat (of_nat k :: u128) = k" using unat_bound [of q] by (intro unat_of_nat_bound) simp
    with q False show False by (auto simp: rust_arith k_def)
  qed
  with False show ?thesis by (cases "bin_mul_div_floor a b c") (auto simp: bin_mul_div_ceil_def)
qed

abbreviation overflow_only :: "bin_simulation_error + 'a \<Rightarrow> bool" where
  "overflow_only \<equiv> fails_only (\<lambda>e. e = BE_ArithmeticOverflow)"

lemma arith_errors [simp]:
  "overflow_only (bin_mul_div_floor a b c)"
  "overflow_only (bin_mul_div_ceil a b c)"
  "overflow_only (atomic_bin_price step d0 d1 i)"
  "overflow_only (bin_need pool is0 bin)"
proof -
  show floor: "overflow_only (bin_mul_div_floor a b c)" for a b c
    by (simp add: bin_mul_div_floor_alt)
  show ceil: "overflow_only (bin_mul_div_ceil a b c)" for a b c
    unfolding bin_mul_div_ceil_def by (intro fails_only_intros) (simp_all add: floor)
  show price: "overflow_only (atomic_bin_price step d0 d1 i)" for step d0 d1 i
    unfolding atomic_bin_price_def raw_bin_price_def scale_bin_price_def Let_def
    by (intro fails_only_intros) simp_all
  show "overflow_only (bin_need pool is0 bin)"
    unfolding bin_need_def Let_def by (intro fails_only_intros) (simp_all add: ceil price)
qed

text \<open>
  The exhausting input of a bin is the least that buys all of it, so a smaller input buys less
  than the bin holds.
\<close>

lemma bin_need_spec:
  assumes "bin_need pool is0 bin = Inr (need, num, den)"
  defines "available \<equiv> unat (bin_available is0 bin)"
  shows "num \<noteq> 0" and "den \<noteq> 0" and "unat need = ceil_div (available * unat den) (unat num)"
    and "r < unat need \<Longrightarrow> r * unat num div unat den < available"
proof -
  obtain n d where price: "atomic_bin_price (bn_bin_step pool) (bn_decimals_0 pool) (bn_decimals_1 pool)
      (bin_id bin) = Inr (n, d)"
    and need: "if is0 then bin_mul_div_ceil (bin_available is0 bin) d n = Inr need \<and> num = n \<and> den = d
      else bin_mul_div_ceil (bin_available is0 bin) n d = Inr need \<and> num = d \<and> den = n"
    using assms(1) by (auto simp: bin_need_def Let_def result_iff split: if_splits)
  show nz: "num \<noteq> 0" "den \<noteq> 0"
    using need atomic_bin_price_ratio(1,2) [OF price] by (auto split: if_splits)
  show n: "unat need = ceil_div (available * unat den) (unat num)"
    using need unfolding available_def by (auto simp: rust_arith split: if_splits)
  show "r * unat num div unat den < available" if "r < unat need"
    using that nz unfolding n
    by (subst (asm) less_ceil_div_iff) (simp_all add: div_less_iff_less_mult unat_gt_0)
qed

text \<open>One iteration at a bin that has output to give and a representable price.\<close>

lemma bin_fill_eq:
  assumes "bin_need pool is0 (bn_bins pool ! idx) = Inr (need, num, den)"
  defines "available \<equiv> bin_available is0 (bn_bins pool ! idx)"
  assumes "available \<noteq> 0"
  shows "bin_fill pool is0 idx r t l =
    (if need \<le> r then
       if unat t + unat available < 2 ^ 128 then Inr (r - need, t + available, idx)
       else Inl BE_ArithmeticOverflow
     else
       let p = unat r * unat num div unat den in
       if unat t + p < 2 ^ 128 then Inr (0, t + of_nat p, if 0 < p then idx else l)
       else Inl BE_ArithmeticOverflow)"
proof (cases "need \<le> r")
  case True
  then show ?thesis
    using assms by (simp add: bin_fill_def Let_def checked_add_def checked_sub_def word_le_nat_alt)
next
  case False
  define p where "p = unat r * unat num div unat den"
  note need = bin_need_spec [OF assms(1), folded available_def]
  have less: "p < unat available" using need(4) [of "unat r"] False by (simp add: p_def word_le_nat_alt)
  then have p: "unat (of_nat p :: u128) = p" using unat_bound [of available] by (intro unat_of_nat_bound) simp
  have "bin_mul_div_floor r num den = Inr (of_nat p)" using need(2) p by (simp add: rust_arith p_def)
  moreover have "0 < (of_nat p :: u128) \<longleftrightarrow> 0 < p" using p by (simp add: word_less_nat_alt)
  ultimately show ?thesis
    using assms False p by (simp add: bin_fill_def p_def [symmetric] checked_add_def) 
qed

lemma bin_fill_none:
  "bin_available is0 (bn_bins pool ! idx) = 0 \<Longrightarrow> bin_fill pool is0 idx r t l = Inr (r, t, l)"
  by (simp add: bin_fill_def)

lemma bin_fill_need_error:
  "bin_available is0 (bn_bins pool ! idx) \<noteq> 0 \<Longrightarrow> bin_need pool is0 (bn_bins pool ! idx) = Inl e \<Longrightarrow>
     bin_fill pool is0 idx r t l = Inl e"
  by (simp add: bin_fill_def)

lemma bin_fill_cases [consumes 1, case_names none all part]:
  assumes "bin_fill pool is0 idx r t l = Inr (r', t', l')"
  obtains "bin_available is0 (bn_bins pool ! idx) = 0" "r' = r" "t' = t" "l' = l"
    | need num den where "bin_available is0 (bn_bins pool ! idx) \<noteq> 0"
      "bin_need pool is0 (bn_bins pool ! idx) = Inr (need, num, den)" "need \<le> r"
      "unat t' = unat t + unat (bin_available is0 (bn_bins pool ! idx))" "r' = r - need" "l' = idx"
    | need num den p where "bin_available is0 (bn_bins pool ! idx) \<noteq> 0"
      "bin_need pool is0 (bn_bins pool ! idx) = Inr (need, num, den)" "r < need"
      "p = unat r * unat num div unat den" "p < unat (bin_available is0 (bn_bins pool ! idx))"
      "unat t' = unat t + p" "r' = 0" "l' = (if 0 < p then idx else l)"
proof (cases "bin_available is0 (bn_bins pool ! idx) = 0")
  case True
  with assms that(1) show ?thesis by (simp add: bin_fill_none)
next
  case False
  let ?a = "bin_available is0 (bn_bins pool ! idx)"
  obtain need num den where need: "bin_need pool is0 (bn_bins pool ! idx) = Inr (need, num, den)"
    using assms bin_fill_need_error [OF False] by (cases "bin_need pool is0 (bn_bins pool ! idx)") auto
  show ?thesis
  proof (cases "need \<le> r")
    case True
    with assms have "unat t + unat ?a < 2 ^ 128" "r' = r - need" "t' = t + ?a" "l' = idx"
      by (auto simp: bin_fill_eq [OF need False] split: if_splits)
    then show ?thesis using that(2) [OF False need True] by (simp add: unat_add_no_overflow)
  next
    case part: False
    define p where "p = unat r * unat num div unat den"
    have p: "p < unat ?a"
      using bin_need_spec(4) [OF need, of "unat r"] part by (simp add: p_def word_le_nat_alt)
    then have "unat (of_nat p :: u128) = p" using unat_bound [of ?a] by (intro unat_of_nat_bound) simp
    moreover have "unat t + p < 2 ^ 128" "r' = 0" "t' = t + of_nat p" "l' = (if 0 < p then idx else l)"
      using assms part by (auto simp: bin_fill_eq [OF need False] p_def Let_def split: if_splits)
    ultimately show ?thesis using that(3) [OF False need _ p_def p] part
      by (simp add: unat_add_no_overflow not_le)
  qed
qed

text \<open>What an iteration pays is at most what the bin holds, and it grows with the input.\<close>

lemma bin_fill_paid:
  assumes "bin_fill pool is0 idx r t l = Inr (r', t', l')"
  shows "unat t \<le> unat t'" and "unat t' \<le> unat t + unat (bin_available is0 (bn_bins pool ! idx))"
    and "l' = (if t' = t then l else idx)"
  using assms by (cases rule: bin_fill_cases; force simp: word_unat_eq_iff)+

lemma bin_fill_error: "bin_fill pool is0 idx r t l = Inl e \<Longrightarrow> e = BE_ArithmeticOverflow"
proof -
  have "overflow_only (bin_fill pool is0 idx r t l)"
    unfolding bin_fill_def Let_def by (intro fails_only_intros) simp_all
  then show "bin_fill pool is0 idx r t l = Inl e \<Longrightarrow> e = BE_ArithmeticOverflow" by (rule fails_onlyD)
qed

lemma bin_fill_mono:
  assumes "r \<le> s" and "bin_fill pool is0 idx s t l = Inr (s', t', l')"
  shows "\<exists>r' u k'. bin_fill pool is0 idx r t k = Inr (r', u, k') \<and>
    (r' \<le> s' \<and> u = t' \<or> r' = 0 \<and> u \<le> t')"
  using assms(2)
proof (cases rule: bin_fill_cases)
  case none
  then show ?thesis using assms(1) by (simp add: bin_fill_none)
next
  case (all need num den)
  note eq = bin_fill_eq [OF all(2,1), of r t k] and b = unat_bound [of t']
  show ?thesis
  proof (cases "need \<le> r")
    case True
    then have "r - need \<le> s - need"
      using assms(1) all(3) by (simp add: word_le_nat_alt unat_sub_no_underflow)
    moreover have "t' = t + bin_available is0 (bn_bins pool ! idx)"
      using all(4) b by (simp add: word_unat_eq_iff unat_add_no_overflow)
    ultimately show ?thesis using eq True all(4,5) b by simp
  next
    case False
    define p where "p = unat r * unat num div unat den"
    have p: "p < unat (bin_available is0 (bn_bins pool ! idx))"
      using bin_need_spec(4) [OF all(2), of "unat r"] False by (simp add: p_def word_le_nat_alt)
    then have "unat t + p < 2 ^ 128" "unat (of_nat p :: u128) = p"
      using all(4) b unat_of_nat_bound [of p, where 'a = 128] by simp_all
    then show ?thesis
      using eq False all(4) p
      by (simp add: p_def [symmetric] Let_def word_le_nat_alt unat_add_no_overflow)
  qed
next
  case (part need num den p)
  define q where "q = unat r * unat num div unat den"
  have "q \<le> p" using assms(1) unfolding q_def part(4) by (simp add: div_le_mono word_le_nat_alt)
  moreover have "unat t + p < 2 ^ 128" using part(6) unat_bound [of t'] by simp
  moreover have "\<not> need \<le> r" using assms(1) part(3) by simp
  moreover have "unat (of_nat q :: u128) = q"
    using \<open>q \<le> p\<close> \<open>unat t + p < 2 ^ 128\<close> unat_of_nat_bound [of q, where 'a = 128] by simp
  ultimately show ?thesis
    using bin_fill_eq [OF part(2,1), of r t k] part(6)
    by (simp add: q_def [symmetric] Let_def word_le_nat_alt unat_add_no_overflow)
qed

lemma next_bin_index_InrD:
  assumes "next_bin_index pool idx is0 crossed = Inr (idx', crossed')" and "idx < length (bn_bins pool)"
  shows "idx' < length (bn_bins pool)" and "crossed' = crossed + 1" and "crossed < MAX_BIN_CROSSES"
    and "if is0 then idx = idx' + 1 else idx' = idx + 1"
  using assms by (auto simp: next_bin_index_def Let_def split: if_splits)

lemma next_bin_index_error: "next_bin_index pool idx is0 crossed = Inl e \<Longrightarrow> e = BE_BinCrossingExceeded"
  by (auto simp: next_bin_index_def Let_def split: if_splits)

lemma bin_loop_cases [consumes 1, case_names stop fill cross]:
  assumes "bin_loop pool is0 idx r t crossed l = Inr (t', crossed', l')"
  obtains "r = 0" "t' = t" "crossed' = crossed" "l' = l"
    | "r \<noteq> 0" "bin_fill pool is0 idx r t l = Inr (0, t', l')" "crossed' = crossed"
    | rem total1 last1 idx1 crossed1 where "r \<noteq> 0"
      "bin_fill pool is0 idx r t l = Inr (rem, total1, last1)" "rem \<noteq> 0"
      "next_bin_index pool idx is0 crossed = Inr (idx1, crossed1)"
      "bin_loop pool is0 idx1 rem total1 crossed1 last1 = Inr (t', crossed', l')"
  using assms
  by (subst (asm) bin_loop.simps) (auto split: if_splits sum.splits)

lemma bin_loop_error:
  "bin_loop pool is0 idx r t crossed l = Inl e \<Longrightarrow> e = BE_ArithmeticOverflow \<or> e = BE_BinCrossingExceeded"
proof (induction pool is0 idx r t crossed l rule: bin_loop.induct)
  case (1 pool is0 idx r t crossed l)
  note unfold = bin_loop.simps [of pool is0 idx r t crossed l]
  from 1(2) have "r \<noteq> 0" by (auto simp: unfold)
  show ?case
  proof (cases "bin_fill pool is0 idx r t l")
    case (Inl e')
    with 1(2) \<open>r \<noteq> 0\<close> show ?thesis using bin_fill_error [OF Inl] by (simp add: unfold)
  next
    case (Inr x)
    then obtain rem total1 last1 where f: "bin_fill pool is0 idx r t l = Inr (rem, total1, last1)"
      by (cases x) auto
    with 1(2) \<open>r \<noteq> 0\<close> have rem: "rem \<noteq> 0" by (auto simp: unfold)
    show ?thesis
    proof (cases "next_bin_index pool idx is0 crossed")
      case (Inl e')
      with 1(2) \<open>r \<noteq> 0\<close> f rem show ?thesis using next_bin_index_error [OF Inl] by (simp add: unfold)
    next
      case (Inr y)
      then obtain idx1 crossed1 where n: "next_bin_index pool idx is0 crossed = Inr (idx1, crossed1)"
        by (cases y) auto
      with 1(2) \<open>r \<noteq> 0\<close> f rem have "bin_loop pool is0 idx1 rem total1 crossed1 last1 = Inl e"
        by (simp add: unfold)
      from 1(1) [OF \<open>r \<noteq> 0\<close> f refl refl rem n refl this] show ?thesis .
    qed
  qed
qed

lemma bin_loop_grows:
  "bin_loop pool is0 idx r t crossed l = Inr (t', crossed', l') \<Longrightarrow> t \<le> t'"
proof (induction pool is0 idx r t crossed l rule: bin_loop.induct)
  case (1 pool is0 idx r t crossed l)
  from 1(2) show ?case
  proof (cases rule: bin_loop_cases)
    case fill
    then show ?thesis using bin_fill_paid(1) by (simp add: word_le_nat_alt)
  next
    case (cross rem total1 last1 idx1 crossed1)
    from 1(1) [OF cross(1,2) refl refl cross(3,4) refl cross(5)] bin_fill_paid(1) [OF cross(2)]
    show ?thesis by (simp add: word_le_nat_alt)
  qed simp
qed

lemma bin_loop_zero [simp]: "bin_loop pool is0 idx 0 t crossed l = Inr (t, crossed, l)"
  by (subst bin_loop.simps) simp

text \<open>A smaller input reaches no failure the larger one does not, and pays no more.\<close>

lemma bin_loop_mono:
  "bin_loop pool is0 idx s t crossed l = Inr (t', crossed', l') \<Longrightarrow> r \<le> s \<Longrightarrow>
     \<exists>u x. bin_loop pool is0 idx r t crossed k = Inr (u, x) \<and> u \<le> t'"
proof (induction pool is0 idx s t crossed l arbitrary: r k rule: bin_loop.induct)
  case (1 pool is0 idx s t crossed l)
  note unfold = bin_loop.simps [of pool is0 idx r t crossed k]
  show ?case
  proof (cases "r = 0")
    case True
    then show ?thesis using bin_loop_grows [OF 1(2)] by simp
  next
    case False
    from 1(2) show ?thesis
    proof (cases rule: bin_loop_cases)
      case stop
      with 1(3) False show ?thesis by simp
    next
      case fill
      from bin_fill_mono [OF 1(3) fill(2), of k] obtain u k' where
        "bin_fill pool is0 idx r t k = Inr (0, u, k')" "u \<le> t'" by auto
      with False show ?thesis by (simp add: unfold)
    next
      case (cross rem total1 last1 idx1 crossed1)
      from bin_fill_mono [OF 1(3) cross(2), of k] obtain r' u k' where
        f: "bin_fill pool is0 idx r t k = Inr (r', u, k')" "r' \<le> rem \<and> u = total1 \<or> r' = 0 \<and> u \<le> total1"
        by blast
      show ?thesis
      proof (cases "r' = 0")
        case True
        have "u \<le> total1" using f(2) by auto
        also have "total1 \<le> t'" by (rule bin_loop_grows [OF cross(5)])
        finally show ?thesis using False True f(1) by (simp add: unfold)
      next
        case more: False
        with f(2) have "r' \<le> rem" "u = total1" by auto
        with 1(1) [OF cross(1,2) refl refl cross(3,4) refl cross(5), of r' k'] False f(1) more cross(4)
        show ?thesis by (auto simp: unfold)
      qed
    qed
  qed
qed

text \<open>The bins a traversal can visit, and what they can pay together.\<close>

definition bins_ahead :: "bin_pool_state \<Rightarrow> bool \<Rightarrow> usize \<Rightarrow> liquidity_bin list" where
  "bins_ahead pool is0 idx =
     (if is0 then take (idx + 1) (bn_bins pool) else drop idx (bn_bins pool))"

definition payable :: "bin_pool_state \<Rightarrow> bool \<Rightarrow> usize \<Rightarrow> nat" where
  "payable pool is0 idx = (\<Sum>bin \<leftarrow> bins_ahead pool is0 idx. unat (bin_available is0 bin))"

lemma payable_next:
  assumes "next_bin_index pool idx is0 crossed = Inr (idx', crossed')" and "idx < length (bn_bins pool)"
  shows "payable pool is0 idx = unat (bin_available is0 (bn_bins pool ! idx)) + payable pool is0 idx'"
  using next_bin_index_InrD(4) [OF assms] assms(2)
  by (auto simp: payable_def bins_ahead_def take_Suc_conv_app_nth Cons_nth_drop_Suc [symmetric]
      split: if_splits)

lemma payable_here: "idx < length (bn_bins pool) \<Longrightarrow>
    unat (bin_available is0 (bn_bins pool ! idx)) \<le> payable pool is0 idx"
  by (auto simp: payable_def bins_ahead_def take_Suc_conv_app_nth Cons_nth_drop_Suc [symmetric])

text \<open>The last bin recorded is the one it was, or a bin that had output to give.\<close>

definition last_ok :: "bin_pool_state \<Rightarrow> bool \<Rightarrow> u128 \<Rightarrow> usize \<Rightarrow> u128 \<Rightarrow> usize \<Rightarrow> bool" where
  "last_ok pool is0 t l t' l' \<longleftrightarrow>
     (if t' = t then l' = l
      else l' < length (bn_bins pool) \<and> bin_available is0 (bn_bins pool ! l') \<noteq> 0)"

lemma bin_fill_last:
  assumes "bin_fill pool is0 idx r t l = Inr (r', t', l')" and "idx < length (bn_bins pool)"
  shows "last_ok pool is0 t l t' l'"
  using bin_fill_paid [OF assms(1)] assms(2) by (auto simp: last_ok_def word_unat_eq_iff)

lemma last_ok_trans:
  "last_ok pool is0 t l t1 l1 \<Longrightarrow> last_ok pool is0 t1 l1 t' l' \<Longrightarrow> t \<le> t1 \<Longrightarrow> t1 \<le> t' \<Longrightarrow>
     last_ok pool is0 t l t' l'"
  by (auto simp: last_ok_def split: if_splits)

lemma bin_loop_bounds:
  assumes "bin_loop pool is0 idx r t crossed l = Inr (t', crossed', l')"
    and "idx < length (bn_bins pool)" and "crossed \<le> MAX_BIN_CROSSES"
  shows "crossed' \<le> MAX_BIN_CROSSES \<and> unat t' \<le> unat t + payable pool is0 idx \<and>
    last_ok pool is0 t l t' l'"
  using assms
proof (induction pool is0 idx r t crossed l rule: bin_loop.induct)
  case (1 pool is0 idx r t crossed l)
  from 1(2) show ?case
  proof (cases rule: bin_loop_cases)
    case stop
    then show ?thesis using 1(4) by (simp add: last_ok_def)
  next
    case fill
    then show ?thesis
      using bin_fill_paid(2) [OF fill(2)] payable_here [OF 1(3), of is0] 1(4)
        bin_fill_last [OF fill(2) 1(3)] by simp
  next
    case (cross rem total1 last1 idx1 crossed1)
    note nxt = next_bin_index_InrD [OF cross(4) 1(3)]
    have ih: "crossed' \<le> MAX_BIN_CROSSES" "unat t' \<le> unat total1 + payable pool is0 idx1"
      "last_ok pool is0 total1 last1 t' l'"
      using 1(1) [OF cross(1,2) refl refl cross(3,4) refl cross(5) nxt(1)] nxt(2,3) by auto
    have paid: "unat t \<le> unat total1"
      "unat total1 \<le> unat t + unat (bin_available is0 (bn_bins pool ! idx))"
      using bin_fill_paid [OF cross(2)] by auto
    have "last_ok pool is0 t l t' l'"
      using last_ok_trans [OF bin_fill_last [OF cross(2) 1(3)] ih(3)] paid(1) bin_loop_grows [OF cross(5)]
      by (simp add: word_le_nat_alt)
    then show ?thesis using ih(1,2) paid(2) payable_next [OF cross(4) 1(3)] by simp
  qed
qed

section \<open>What the traversal consumes\<close>

text \<open>
  The reference: the output per unit of input is the fraction of the exact price for the direction. A bin is exhausted
  by the least input that buys all of it, and an empty bin by nothing; a smaller input buys its worth, rounded down.
\<close>

definition output_rate :: "bin_pool_state \<Rightarrow> bool \<Rightarrow> liquidity_bin \<Rightarrow> u128 \<Rightarrow> u128 \<Rightarrow> bool" where
  "output_rate pool is0 bin num den \<longleftrightarrow>
     atomic_bin_price (bn_bin_step pool) (bn_decimals_0 pool) (bn_decimals_1 pool) (bin_id bin) =
       Inr (if is0 then (num, den) else (den, num))"

definition exhausts :: "bin_pool_state \<Rightarrow> bool \<Rightarrow> liquidity_bin \<Rightarrow> nat \<Rightarrow> nat \<Rightarrow> bool" where
  "exhausts pool is0 bin paid_in paid_out \<longleftrightarrow>
     paid_out = unat (bin_available is0 bin) \<and>
     (if paid_out = 0 then paid_in = 0
      else \<exists>num den. output_rate pool is0 bin num den \<and> paid_in = ceil_div (paid_out * unat den) (unat num))"

definition buys_part :: "bin_pool_state \<Rightarrow> bool \<Rightarrow> liquidity_bin \<Rightarrow> nat \<Rightarrow> nat \<Rightarrow> bool" where
  "buys_part pool is0 bin paid_in paid_out \<longleftrightarrow>
     paid_out < unat (bin_available is0 bin) \<and>
     (\<exists>num den. output_rate pool is0 bin num den \<and> paid_out = paid_in * unat num div unat den)"

text \<open>A walk from a bin on: all bins but the last are exhausted, the last is exhausted or bought in part.\<close>

fun walk :: "bin_pool_state \<Rightarrow> bool \<Rightarrow> usize \<Rightarrow> (nat \<times> nat) list \<Rightarrow> bool" where
  "walk pool is0 idx [] \<longleftrightarrow> False"
| "walk pool is0 idx ((paid_in, paid_out) # parts) \<longleftrightarrow>
     idx < length (bn_bins pool) \<and>
     (if parts = []
      then exhausts pool is0 (bn_bins pool ! idx) paid_in paid_out \<or> buys_part pool is0 (bn_bins pool ! idx) paid_in paid_out
      else exhausts pool is0 (bn_bins pool ! idx) paid_in paid_out \<and> (is0 \<longrightarrow> 0 < idx) \<and>
        walk pool is0 (if is0 then idx - 1 else idx + 1) parts)"

lemma bin_need_rate: "bin_need pool is0 bin = Inr (need, num, den) \<Longrightarrow> output_rate pool is0 bin num den"
  by (auto simp: bin_need_def output_rate_def Let_def result_iff split: if_splits)

text \<open>One iteration consumes the difference of the remaining inputs and pays the difference of the outputs.\<close>

lemma bin_fill_consumes:
  assumes "bin_fill pool is0 idx r t l = Inr (r', t', l')"
  shows "\<exists>paid_in paid_out. unat r = unat r' + paid_in \<and> unat t' = unat t + paid_out \<and>
    (exhausts pool is0 (bn_bins pool ! idx) paid_in paid_out \<or>
     r' = 0 \<and> buys_part pool is0 (bn_bins pool ! idx) paid_in paid_out)"
  using assms
proof (cases rule: bin_fill_cases)
  case none
  then show ?thesis by (intro exI [of _ 0]) (simp add: exhausts_def)
next
  case (all need num den)
  then show ?thesis
    using bin_need_spec(3) [OF all(2)] bin_need_rate [OF all(2)]
    by (intro exI [of _ "unat need"] exI [of _ "unat (bin_available is0 (bn_bins pool ! idx))"])
      (auto simp: exhausts_def unat_eq_zero unat_sub_no_underflow word_le_nat_alt)
next
  case (part need num den p)
  then show ?thesis
    using bin_need_rate [OF part(2)] by (intro exI [of _ "unat r"] exI [of _ p]) (auto simp: buys_part_def)
qed

lemma bin_loop_consumes:
  assumes "bin_loop pool is0 idx r t crossed l = Inr (t', crossed', l')"
    and "idx < length (bn_bins pool)" and "r \<noteq> 0"
  shows "\<exists>parts. walk pool is0 idx parts \<and> crossed' + 1 = crossed + length parts \<and>
    unat r = sum_list (map fst parts) \<and> unat t' = unat t + sum_list (map snd parts)"
  using assms
proof (induction pool is0 idx r t crossed l rule: bin_loop.induct)
  case (1 pool is0 idx r t crossed l)
  from 1(2) show ?case
  proof (cases rule: bin_loop_cases)
    case fill
    from bin_fill_consumes [OF fill(2)] obtain paid_in paid_out where
      "unat r = paid_in" "unat t' = unat t + paid_out"
      "exhausts pool is0 (bn_bins pool ! idx) paid_in paid_out \<or> buys_part pool is0 (bn_bins pool ! idx) paid_in paid_out"
      by auto
    then show ?thesis using 1(3) fill(3) by (intro exI [of _ "[(paid_in, paid_out)]"]) simp
  next
    case (cross rem total1 last1 idx1 crossed1)
    note nxt = next_bin_index_InrD [OF cross(4) 1(3)]
    from bin_fill_consumes [OF cross(2)] cross(3) obtain paid_in paid_out where
      p: "unat r = unat rem + paid_in" "unat total1 = unat t + paid_out" "exhausts pool is0 (bn_bins pool ! idx) paid_in paid_out"
      by auto
    from 1(1) [OF cross(1,2) refl refl cross(3,4) refl cross(5) nxt(1) cross(3)] obtain parts where
      w: "walk pool is0 idx1 parts" "crossed' + 1 = crossed1 + length parts"
      "unat rem = sum_list (map fst parts)" "unat t' = unat total1 + sum_list (map snd parts)" by blast
    then have "parts \<noteq> []" by auto
    with p w nxt(2,4) 1(3) show ?thesis
      by (intro exI [of _ "(paid_in, paid_out) # parts"]) (auto split: if_splits)
  qed (use 1(4) in simp)
qed

section \<open>The kernel is an oracle of the search\<close>

definition bin_core :: "bin_pool_state \<Rightarrow> bool \<Rightarrow> usize \<Rightarrow> u128 \<Rightarrow> bin_simulation_error + u128" where
  "bin_core pool is0 idx g =
     map_sum (\<lambda>e. e) (\<lambda>(_, _, out, _, _). out) (bin_swap_math pool is0 idx g)"

lemma bin_fee:
  assumes "unat f < 10000"
  shows "bin_mul_div_floor g (ucast (f :: u16)) 10000 = Inr (of_nat (fee_of (unat g) (unat f)))"
    and "checked_sub g (of_nat (fee_of (unat g) (unat f))) = Some (of_nat (effective (unat g) (unat f)))"
proof -
  let ?fee = "fee_of (unat g) (unat f)" and ?eff = "effective (unat g) (unat f)"
  have "unat g * unat f div 10000 \<le> unat g * 10000 div 10000"
    using assms by (intro div_le_mono) simp
  then have le: "?fee \<le> unat g" "?eff \<le> unat g" "unat g = ?fee + ?eff"
    by (simp_all add: fee_of_def effective_def)
  have "n \<le> unat g \<Longrightarrow> unat (of_nat n :: u128) = n" for n
    using unat_bound [of g] by (intro unat_of_nat_bound) simp
  with le have w: "unat (of_nat ?fee :: u128) = ?fee" "unat (of_nat ?eff :: u128) = ?eff" by simp_all
  show "bin_mul_div_floor g (ucast f) 10000 = Inr (of_nat ?fee)"
    unfolding bin_mul_div_floor_Inr_iff w(1) unat_ucast_fee by (simp add: fee_of_def)
  show "checked_sub g (of_nat ?fee) = Some (of_nat ?eff)"
    unfolding checked_sub_Some_iff w by (rule le(3))
qed

lemma effective_word:
  assumes "unat f < 10000" and "g \<noteq> (0 :: u128)"
  shows "unat (of_nat (effective (unat g) (unat (f :: u16))) :: u128) = effective (unat g) (unat f)"
    and "(of_nat (effective (unat g) (unat f)) :: u128) \<noteq> 0"
proof -
  have "effective (unat g) (unat f) \<le> unat g" by (rule effective_bounds)
  then show u: "unat (of_nat (effective (unat g) (unat f)) :: u128) = effective (unat g) (unat f)"
    using unat_bound [of g] by (intro unat_of_nat_bound) simp
  have "0 < effective (unat g) (unat f)" using assms by (simp add: effective_bounds unat_gt_0)
  with u show "(of_nat (effective (unat g) (unat f)) :: u128) \<noteq> 0" by (metis less_irrefl unat_0)
qed

lemma bin_core_eq:
  assumes "unat (bn_fee_bps pool) < 10000" and "g \<noteq> 0"
  shows "bin_core pool is0 idx g =
    (case bin_loop pool is0 idx (of_nat (effective (unat g) (unat (bn_fee_bps pool)))) 0 0 idx of
       Inl e \<Rightarrow> Inl e
     | Inr (out, _, _) \<Rightarrow> if out = 0 then Inl BE_ZeroOutputAmount else Inr out)"
  using effective_word(2) [OF assms]
  by (auto simp: bin_core_def bin_swap_math_def bin_fee [OF assms(1)] split: sum.splits)

lemma bin_core_high_fee:
  assumes "10000 \<le> unat (bn_fee_bps pool)"
  shows "bin_core pool is0 idx g =
    (if unat g * (unat (bn_fee_bps pool) - 10000) div 10000 = 0 then Inl BE_ZeroEffectiveInput
     else Inl BE_ArithmeticOverflow)"
proof -
  define f k where "f = (ucast (bn_fee_bps pool) :: u128)"
    and "k = unat g * (unat (bn_fee_bps pool) - 10000) div 10000"
  have split: "unat g * unat f div 10000 = unat g + k"
  proof -
    have "unat g * unat f = unat g * 10000 + unat g * (unat (bn_fee_bps pool) - 10000)"
      using assms by (simp add: f_def unat_ucast_fee flip: add_mult_distrib2)
    then show ?thesis by (simp add: k_def)
  qed
  show ?thesis
  proof (cases "bin_mul_div_floor g f 10000")
    case (Inl e)
    then have e: "e = BE_ArithmeticOverflow" using fails_onlyD [OF arith_errors(1)] by blast
    have "k \<noteq> 0"
    proof
      assume "k = 0"
      with split have "bin_mul_div_floor g f 10000 = Inr g" by (simp add: rust_arith)
      with Inl show False by simp
    qed
    then show ?thesis using Inl e
      by (simp add: bin_core_def bin_swap_math_def f_def [symmetric] k_def [symmetric])
  next
    case (Inr fee)
    then have fee: "unat fee = unat g + k" by (simp add: rust_arith split)
    show ?thesis
    proof (cases "k = 0")
      case True
      then have "checked_sub g fee = Some 0" using fee by (simp add: rust_arith)
      then show ?thesis using Inr True
        by (simp add: bin_core_def bin_swap_math_def f_def [symmetric] k_def [symmetric])
    next
      case False
      then have "checked_sub g fee = None" using fee by (simp add: rust_arith)
      then show ?thesis using Inr False
        by (simp add: bin_core_def bin_swap_math_def f_def [symmetric] k_def [symmetric])
    qed
  qed
qed

lemma bin_core_order:
  assumes "a \<noteq> 0" and "a \<le> b"
  shows "case bin_core pool is0 idx b of
      Inr y \<Rightarrow> (case bin_core pool is0 idx a of Inr x \<Rightarrow> x \<le> y | Inl e \<Rightarrow> bin_probe_class e = Low)
    | Inl e \<Rightarrow> bin_probe_class e = High \<or> bin_probe_class e = Low \<and>
        (case bin_core pool is0 idx a of Inr x \<Rightarrow> False | Inl e' \<Rightarrow> bin_probe_class e' = Low)"
proof (cases "unat (bn_fee_bps pool) < 10000")
  case True
  have "b \<noteq> 0" using assms by auto
  define ra rb :: u128 where "ra = of_nat (effective (unat a) (unat (bn_fee_bps pool)))"
    and "rb = of_nat (effective (unat b) (unat (bn_fee_bps pool)))"
  have le: "ra \<le> rb"
    using assms(2) True effective_word(1) [OF True assms(1)] effective_word(1) [OF True \<open>b \<noteq> 0\<close>]
    by (simp add: ra_def rb_def word_le_nat_alt effective_mono)
  note core = bin_core_eq [OF True assms(1), of is0 idx, folded ra_def]
    bin_core_eq [OF True \<open>b \<noteq> 0\<close>, of is0 idx, folded rb_def]
  show ?thesis
  proof (cases "bin_loop pool is0 idx rb 0 0 idx")
    case (Inl e)
    then show ?thesis using bin_loop_error [OF Inl] core by (auto simp: bin_probe_class_def)
  next
    case (Inr y)
    then obtain t c l where "bin_loop pool is0 idx rb 0 0 idx = Inr (t, c, l)" by (cases y) auto
    moreover from bin_loop_mono [OF this le] obtain u x where
      "bin_loop pool is0 idx ra 0 0 idx = Inr (u, x)" "u \<le> t" by blast
    ultimately show ?thesis using core by (auto simp: bin_probe_class_def split: prod.splits)
  qed
next
  case False
  have "unat a * k div 10000 \<le> unat b * k div 10000" for k
    using assms(2) by (simp add: div_le_mono word_le_nat_alt)
  then have "unat b * (unat (bn_fee_bps pool) - 10000) div 10000 = 0 \<Longrightarrow>
      unat a * (unat (bn_fee_bps pool) - 10000) div 10000 = 0" by (metis le_zero_eq)
  with False show ?thesis by (auto simp: bin_core_high_fee bin_probe_class_def not_less)
qed

interpretation bin: exact_input_oracle "bin_core pool is0 idx" bin_probe_class
  for pool is0 idx
proof
  fix a b x y e
  note order = bin_core_order [of a b pool is0 idx]
  show "x \<le> y" if "a \<noteq> 0" "a \<le> b" "bin_core pool is0 idx a = Inr x" "bin_core pool is0 idx b = Inr y"
    using order that by simp
  show "\<exists>e'. bin_core pool is0 idx a = Inl e'"
    if "a \<noteq> 0" "a \<le> b" "bin_core pool is0 idx b = Inl e" "bin_probe_class e = Low"
    using order that by (auto split: sum.splits)
  show "\<exists>e'. bin_core pool is0 idx b = Inl e' \<and> bin_probe_class e' = High"
    if "a \<noteq> 0" "a \<le> b" "bin_core pool is0 idx a = Inl e" "bin_probe_class e = High"
    using order that by (auto split: sum.splits)
  show "bin_probe_class e = Low \<or> bin_probe_class e = High"
    if "a \<noteq> 0" "bin_core pool is0 idx a = Inl e"
    using bin_core_order [of a a pool is0 idx] that by auto
qed

text \<open>The guards of both simulations: a valid pool, a token of it and a represented active bin.\<close>

definition bin_ready :: "bin_pool_state \<Rightarrow> asset_id \<Rightarrow> bool \<Rightarrow> usize \<Rightarrow> bool" where
  "bin_ready pool token_in is0 idx \<longleftrightarrow>
     bin_validate pool = Inr () \<and> bin_direction pool token_in None = Inr is0 \<and>
     position (\<lambda>bin. bin_id bin = bn_active_bin_id pool) (bn_bins pool) = Some idx"

lemma bin_oracle_core:
  "bin_ready pool token_in is0 idx \<Longrightarrow> g \<noteq> 0 \<Longrightarrow> bin_oracle pool token_in g = bin_core pool is0 idx g"
  by (cases "bin_swap_math pool is0 idx g")
    (auto simp: bin_ready_def bin_oracle_def bin_core_def simulate_bin_exact_input_def
      bin_exact_input_new_def Let_def)

lemma bin_oracle_contract:
  assumes "bin_ready pool token_in is0 idx"
  shows "exact_input_oracle (bin_oracle pool token_in) bin_probe_class"
proof
  fix a b x y :: u128 and e
  note core = bin_oracle_core [OF assms]
  have up: "a \<noteq> 0 \<Longrightarrow> a \<le> b \<Longrightarrow> b \<noteq> 0" by auto
  show "x \<le> y" if "a \<noteq> 0" "a \<le> b" "bin_oracle pool token_in a = Inr x" "bin_oracle pool token_in b = Inr y"
    using bin.output_mono [of a b pool is0 idx] that up core by simp
  show "\<exists>e'. bin_oracle pool token_in a = Inl e'"
    if "a \<noteq> 0" "a \<le> b" "bin_oracle pool token_in b = Inl e" "bin_probe_class e = Low"
    using bin.low_below [of a b pool is0 idx] that up core by simp
  show "\<exists>e'. bin_oracle pool token_in b = Inl e' \<and> bin_probe_class e' = High"
    if "a \<noteq> 0" "a \<le> b" "bin_oracle pool token_in a = Inl e" "bin_probe_class e = High"
    using bin.high_above [of a b pool is0 idx] that up core by simp
  show "bin_probe_class e = Low \<or> bin_probe_class e = High"
    if "a \<noteq> 0" "bin_oracle pool token_in a = Inl e"
    using bin.low_or_high [of a pool is0 idx] that core by simp
qed

lemma bin_oracle_InrD:
  assumes "bin_oracle pool token_in g = Inr out"
  obtains q where "simulate_bin_exact_input pool (bin_exact_input_new token_in g) = Inr q"
    "aa_amount (bq_output q) = out" "aa_amount (bq_input q) = g"
  using assms
  by (cases "simulate_bin_exact_input pool (bin_exact_input_new token_in g)")
    (auto simp: bin_oracle_def simulate_bin_exact_input_def bin_exact_input_new_def result_iff Let_def)

lemma bin_swap_math_InrD:
  assumes "bin_swap_math pool is0 idx g = Inr (fee, eff, out, crossed, l)"
  shows "bin_loop pool is0 idx eff 0 0 idx = Inr (out, crossed, l)" and "out \<noteq> 0"
    and "unat fee = unat g * unat (bn_fee_bps pool) div 10000" and "unat g = unat fee + unat eff" and "eff \<noteq> 0"
proof -
  obtain fee' eff' where f: "bin_mul_div_floor g (ucast (bn_fee_bps pool)) 10000 = Inr fee'"
    and e: "checked_sub g fee' = Some eff'" and
    l: "(if eff' = 0 then Inl BE_ZeroEffectiveInput
      else bindR (bin_loop pool is0 idx eff' 0 0 idx) (\<lambda>(total_output, bins_crossed, last_output_idx).
        if total_output = 0 then Inl BE_ZeroOutputAmount
        else Inr (fee', eff', total_output, bins_crossed, last_output_idx)))
      = Inr (fee, eff, out, crossed, l)"
    using assms unfolding bin_swap_math_def by (auto simp: bindR_Inr_iff ok_or_Inr_iff)
  from l have eq: "fee' = fee" "eff' = eff" "bin_loop pool is0 idx eff 0 0 idx = Inr (out, crossed, l)" "out \<noteq> 0"
    "eff \<noteq> 0"
    by (auto simp: bindR_Inr_iff split: if_splits)
  then show "bin_loop pool is0 idx eff 0 0 idx = Inr (out, crossed, l)" "out \<noteq> 0" "eff \<noteq> 0" by simp_all
  show "unat fee = unat g * unat (bn_fee_bps pool) div 10000"
    using f unfolding eq bin_mul_div_floor_Inr_iff unat_ucast_fee by simp
  show "unat g = unat fee + unat eff" using e unfolding eq by (simp add: rust_arith)
qed

lemma bin_exact_input_InrD [consumes 1, case_names quote]:
  assumes "simulate_bin_exact_input pool req = Inr q"
  obtains is0 idx fee eff out crossed l where
    "bin_direction pool (bi_token_in req) (bi_token_out req) = Inr is0"
    "position (\<lambda>bin. bin_id bin = bn_active_bin_id pool) (bn_bins pool) = Some idx"
    "bin_swap_math pool is0 idx (bi_amount_in req) = Inr (fee, eff, out, crossed, l)"
    "q = \<lparr>bq_input = \<lparr>aa_asset = bi_token_in req, aa_amount = bi_amount_in req\<rparr>,
      bq_output = \<lparr>aa_asset = if is0 then bn_token_1 pool else bn_token_0 pool, aa_amount = out\<rparr>,
      bq_fee = \<lparr>aa_asset = bi_token_in req, aa_amount = fee\<rparr>,
      bq_effective_input = \<lparr>aa_asset = bi_token_in req, aa_amount = eff\<rparr>,
      bq_fee_bps = bn_fee_bps pool, bq_resulting_active_bin_id = bin_id (bn_bins pool ! l),
      bq_bins_crossed = crossed\<rparr>"
  using assms unfolding simulate_bin_exact_input_def Let_def
  by (auto simp: bindR_Inr_iff ok_or_Inr_iff map_err_Inr_iff split: if_split_asm)

text \<open>A quote is what the exact-input simulation gives for its input, in every field.\<close>

definition realised :: "bin_pool_state \<Rightarrow> bin_exact_output_request \<Rightarrow> bin_exact_output_quote \<Rightarrow> bool" where
  "realised pool req q \<longleftrightarrow>
     (\<exists>quote. simulate_bin_exact_input pool (bin_exact_input_new (bo_token_in req) (aa_amount (bx_input q))) = Inr quote \<and>
       q = \<lparr>bx_input = bq_input quote,
         bx_requested_output = \<lparr>aa_asset = aa_asset (bq_output quote), aa_amount = bo_amount_out req\<rparr>,
         bx_output = bq_output quote, bx_fee = bq_fee quote, bx_effective_input = bq_effective_input quote,
         bx_fee_bps = bq_fee_bps quote, bx_resulting_active_bin_id = bq_resulting_active_bin_id quote,
         bx_bins_crossed = bq_bins_crossed quote\<rparr>)"

text \<open>The outcome of the exact-output simulation past its guards.\<close>

lemma bin_exact_output_outcome:
  assumes "bin_ready pool (bo_token_in req) is0 idx" and "bo_amount_out req \<noteq> 0"
    and "bin_direction pool (bo_token_in req) (bo_token_out req) = Inr is0"
  defines "ok \<equiv> covers (bin_oracle pool (bo_token_in req)) (bo_amount_out req)"
  shows "if \<exists>g. ok g
    then \<exists>q. simulate_bin_exact_output pool req = Some (Inr q) \<and>
      aa_amount (bx_input q) = (LEAST g. ok g) \<and> bo_amount_out req \<le> aa_amount (bx_output q) \<and> realised pool req q
    else simulate_bin_exact_output pool req = Some (Inl BE_OutputUnreachable)"
proof (cases "\<exists>g. ok g")
  case True
  define g where "g = (LEAST g. ok g)"
  have "ok g" unfolding g_def using True by (rule LeastI_ex)
  then obtain out where o: "bin_oracle pool (bo_token_in req) g = Inr out" "bo_amount_out req \<le> out"
    unfolding ok_def by (auto simp: covers_iff)
  have f: "find_min_gross_input (bo_amount_out req) (bin_oracle pool (bo_token_in req)) bin_probe_class
      = Some (Inr (Found g))"
    using exact_input_oracle.find_min_complete [OF bin_oracle_contract [OF assms(1)]] True
    by (simp add: ok_def g_def)
  from bin_oracle_InrD [OF o(1)] obtain q where
    q: "simulate_bin_exact_input pool (bin_exact_input_new (bo_token_in req) g) = Inr q"
    "aa_amount (bq_output q) = out" "aa_amount (bq_input q) = g" by blast
  have "aa_asset (bq_output q) = (if is0 then bn_token_1 pool else bn_token_0 pool)"
    using q(1)
  proof (cases rule: bin_exact_input_InrD)
    case (quote is0' idx fee eff out crossed l)
    then show ?thesis using assms(1) by (simp add: bin_ready_def bin_exact_input_new_def)
  qed
  with q show ?thesis
    using True f o(2) assms(1-3) unfolding g_def [symmetric]
    by (simp add: simulate_bin_exact_output_def bin_ready_def realised_def Let_def not_less)
next
  case False
  then have "find_min_gross_input (bo_amount_out req) (bin_oracle pool (bo_token_in req)) bin_probe_class
      = Some (Inr Unreachable)"
    using exact_input_oracle.find_min_complete [OF bin_oracle_contract [OF assms(1)]]
    by (simp add: ok_def)
  with False assms(1-3) show ?thesis
    by (simp add: simulate_bin_exact_output_def bin_ready_def Let_def)
qed

section \<open>Properties\<close>

definition sample_bins :: bin_pool_state where
  "sample_bins =
     \<lparr>bn_token_0 = \<lparr>asset_chain = Base, asset_address = ''a''\<rparr>,
      bn_token_1 = \<lparr>asset_chain = Base, asset_address = ''b''\<rparr>,
      bn_decimals_0 = 6, bn_decimals_1 = 6, bn_active_bin_id = 0, bn_bin_step = 100,
      bn_fee_bps = 100,
      bn_bins = [\<lparr>bin_id = - 1, bin_reserve_0 = 0, bin_reserve_1 = 500\<rparr>,
                 \<lparr>bin_id = 0, bin_reserve_0 = 300, bin_reserve_1 = 400\<rparr>,
                 \<lparr>bin_id = 1, bin_reserve_0 = 600, bin_reserve_1 = 0\<rparr>]\<rparr>"

text \<open>Equations that evaluate the kernel on numerals.\<close>

lemma bin_mul_div_floor_eval:
  "bin_mul_div_floor a b c =
     (let q = unat a * unat b div unat c in
      if c \<noteq> 0 \<and> q < 2 ^ 128 then Inr (of_nat q) else Inl BE_ArithmeticOverflow)"
proof (cases "bin_mul_div_floor a b c")
  case (Inl e)
  then have "e = BE_ArithmeticOverflow" using fails_onlyD [OF arith_errors(1)] by blast
  moreover have "\<not> (c \<noteq> 0 \<and> unat a * unat b div unat c < 2 ^ 128)"
    using Inl bin_mul_div_floor_Inr_iff [of a b c "of_nat (unat a * unat b div unat c)"]
      unat_of_nat_bound [of "unat a * unat b div unat c", where 'a = 128] by auto
  ultimately show ?thesis using Inl by (simp add: Let_def)
next
  case (Inr q)
  then have "c \<noteq> 0" "unat q = unat a * unat b div unat c" by (simp_all add: rust_arith)
  with Inr unat_bound [of q] show ?thesis by (simp add: Let_def of_nat_unat_eq)
qed

lemma bin_mul_div_ceil_eval:
  "bin_mul_div_ceil a b c =
     (let q = ceil_div (unat a * unat b) (unat c) in
      if c \<noteq> 0 \<and> q < 2 ^ 128 then Inr (of_nat q) else Inl BE_ArithmeticOverflow)"
proof (cases "bin_mul_div_ceil a b c")
  case (Inl e)
  then have "e = BE_ArithmeticOverflow" using fails_onlyD [OF arith_errors(2)] by blast
  moreover have "\<not> (c \<noteq> 0 \<and> ceil_div (unat a * unat b) (unat c) < 2 ^ 128)"
    using Inl bin_mul_div_ceil_Inr_iff [of a b c "of_nat (ceil_div (unat a * unat b) (unat c))"]
      unat_of_nat_bound [of "ceil_div (unat a * unat b) (unat c)", where 'a = 128] by auto
  ultimately show ?thesis using Inl by (simp add: Let_def)
next
  case (Inr q)
  then have "c \<noteq> 0" "unat q = ceil_div (unat a * unat b) (unat c)" by (simp_all add: rust_arith)
  with Inr unat_bound [of q] show ?thesis by (simp add: Let_def of_nat_unat_eq)
qed

lemma sample_prices:
  "atomic_bin_price 100 6 6 0 = Inr (1, 1)" "atomic_bin_price 100 6 6 (- 1) = Inr (100, 101)"
  by (simp_all add: atomic_bin_price_def raw_bin_price_def scale_bin_price_def reduce_fraction_def
      gcd_u128.simps checked_add_def checked_pow_def checked_mul_def Let_def word_le_nat_alt)

lemma sample_bins_ready:
  "bin_validate sample_bins = Inr ()"
  "bin_direction sample_bins (bn_token_0 sample_bins) None = Inr True"
  "position (\<lambda>bin. bin_id bin = bn_active_bin_id sample_bins) (bn_bins sample_bins) = Some 1"
  by (simp_all add: sample_bins_def bin_validate_def bin_direction_def pool_tokens_validate_def
      asset_validate_def chain_validate_def ensure_asset_address_def ws_defs MAX_DECIMALS_def BPS_MAX_def
      MAX_BIN_STEP_BPS_def MIN_BIN_ID_def MAX_BIN_ID_def MAX_BIN_COUNT_def)

lemma sample_bins_quote:
  "bin_swap_math sample_bins True 1 600 = Inr (6, 594, 592, 1, 0)"
  by (simp add: bin_swap_math_def bin_mul_div_floor_eval bin_mul_div_ceil_eval sample_prices
      sample_bins_def bin_loop.simps bin_fill_def bin_need_def bin_available_def next_bin_index_def
      MAX_BIN_CROSSES_def checked_add_def checked_sub_def ceil_div_def Let_def)

text \<open>C35. The atomic price of a bin is the exact price of the Liquidity Book, in lowest terms: the
  base \<open>(10000 + bin_step) / 10000\<close> raised to the bin id, scaled by the power of ten that the
  decimals of the two tokens differ by. Neither numerator nor denominator is zero.\<close>

theorem atomic_bin_price_exact:
  assumes "atomic_bin_price step decimals_0 decimals_1 bin = Inr (n, d)"
  shows "0 < unat n \<and> 0 < unat d \<and> coprime (unat n) (unat d) \<and>
    real (unat n) / real (unat d) =
      ((10000 + real (unat step)) / 10000) powi bin * 10 powi (int (unat decimals_1) - int (unat decimals_0))"
  using atomic_bin_price_ratio [OF assms] by (auto simp: unat_gt_0)

theorem atomic_bin_price_exact_witness:
  "atomic_bin_price 100 6 6 (- 1) = Inr (100, 101) \<and>
   real (unat (100 :: u128)) / real (unat (101 :: u128)) =
     ((10000 + real (unat (100 :: u16))) / 10000) powi (- 1) * 10 powi (int (unat (6 :: u8)) - int (unat (6 :: u8)))"
  using atomic_bin_price_exact [OF sample_prices(2)] sample_prices(2) by blast

text \<open>C34. An exact-input bin swap that succeeds splits the input into the fee, rounded down, and the effective input,
  and it consumes the effective input exactly: there is a walk over the represented bins, from the active one on in the
  direction of the swap and one bin longer than the crossings it reports, in which every bin but the last is exhausted
  at its exact price and the last is exhausted or bought in part, whose inputs add up to the effective input and whose
  outputs to the output. It crosses at most \<open>MAX_BIN_CROSSES\<close> bins and pays, in the counter-asset, a positive
  amount that the represented bins on the side it moves to hold; the bin it reports had output to give.\<close>

theorem bin_exact_input_bounds:
  assumes "simulate_bin_exact_input pool req = Inr q"
  shows "unat (aa_amount (bq_fee q)) = unat (bi_amount_in req) * unat (bn_fee_bps pool) div 10000 \<and>
    unat (aa_amount (bq_fee q)) + unat (aa_amount (bq_effective_input q)) = unat (bi_amount_in req) \<and>
    bq_bins_crossed q \<le> MAX_BIN_CROSSES \<and> 0 < unat (aa_amount (bq_output q)) \<and>
    (\<exists>is0 idx. bin_ready pool (bi_token_in req) is0 idx \<and>
      aa_asset (bq_output q) = (if is0 then bn_token_1 pool else bn_token_0 pool) \<and>
      (\<exists>parts. walk pool is0 idx parts \<and> length parts = bq_bins_crossed q + 1 \<and>
        unat (aa_amount (bq_effective_input q)) = sum_list (map fst parts) \<and>
        unat (aa_amount (bq_output q)) = sum_list (map snd parts)) \<and>
      unat (aa_amount (bq_output q)) \<le> payable pool is0 idx \<and>
      (\<exists>bin \<in> set (bn_bins pool). bin_id bin = bq_resulting_active_bin_id q \<and> bin_available is0 bin \<noteq> 0))"
  using assms
proof (cases rule: bin_exact_input_InrD)
  case (quote is0 idx fee eff out crossed l)
  note m = bin_swap_math_InrD [OF quote(3)]
  have idx: "idx < length (bn_bins pool)" using position_SomeD [OF quote(2)] by simp
  from bin_loop_bounds [OF m(1) idx] m(2) have b: "crossed \<le> MAX_BIN_CROSSES"
    "unat out \<le> payable pool is0 idx" "l < length (bn_bins pool)"
    "bin_available is0 (bn_bins pool ! l) \<noteq> 0" by (auto simp: last_ok_def)
  have "bin_validate pool = Inr ()"
    using assms by (auto simp: simulate_bin_exact_input_def bindR_Inr_iff map_err_Inr_iff)
  moreover have "bin_direction pool (bi_token_in req) None = Inr is0"
    using quote(1) by (auto simp: bin_direction_def Let_def result_iff split: if_split_asm)
  ultimately have "bin_ready pool (bi_token_in req) is0 idx" using quote(2) by (simp add: bin_ready_def)
  moreover have "bn_bins pool ! l \<in> set (bn_bins pool)" using b(3) by simp
  moreover obtain parts where "walk pool is0 idx parts" "length parts = crossed + 1"
    "unat eff = sum_list (map fst parts)" "unat out = sum_list (map snd parts)"
    using bin_loop_consumes [OF m(1) idx m(5)] by auto
  moreover have q: "aa_amount (bq_fee q) = fee" "aa_amount (bq_effective_input q) = eff" "aa_amount (bq_output q) = out"
    "aa_asset (bq_output q) = (if is0 then bn_token_1 pool else bn_token_0 pool)" "bq_bins_crossed q = crossed"
    "bq_resulting_active_bin_id q = bin_id (bn_bins pool ! l)"
    by (simp_all add: quote(4))
  ultimately have "bin_ready pool (bi_token_in req) is0 idx \<and>
      aa_asset (bq_output q) = (if is0 then bn_token_1 pool else bn_token_0 pool) \<and>
      (\<exists>parts. walk pool is0 idx parts \<and> length parts = bq_bins_crossed q + 1 \<and>
        unat (aa_amount (bq_effective_input q)) = sum_list (map fst parts) \<and>
        unat (aa_amount (bq_output q)) = sum_list (map snd parts)) \<and>
      unat (aa_amount (bq_output q)) \<le> payable pool is0 idx \<and>
      (\<exists>bin \<in> set (bn_bins pool). bin_id bin = bq_resulting_active_bin_id q \<and> bin_available is0 bin \<noteq> 0)"
    using b(2,4) by metis
  moreover have "0 < unat (aa_amount (bq_output q))" using m(2) by (simp add: q unat_gt_0)
  moreover have "unat (aa_amount (bq_fee q)) = unat (bi_amount_in req) * unat (bn_fee_bps pool) div 10000"
    "unat (aa_amount (bq_fee q)) + unat (aa_amount (bq_effective_input q)) = unat (bi_amount_in req)"
    "bq_bins_crossed q \<le> MAX_BIN_CROSSES" using m(3,4) b(1) by (simp_all add: q)
  ultimately show ?thesis by blast
qed

lemma sample_ready: "bin_ready sample_bins (bn_token_0 sample_bins) True 1"
  using sample_bins_ready by (simp add: bin_ready_def)

lemma sample_bins_simulated:
  "\<exists>q. simulate_bin_exact_input sample_bins (bin_exact_input_new (bn_token_0 sample_bins) 600) = Inr q \<and>
     aa_amount (bq_output q) = 592"
  using sample_bins_ready sample_bins_quote
  by (simp add: simulate_bin_exact_input_def bin_exact_input_new_def Let_def)

theorem bin_exact_input_bounds_witness:
  "\<exists>q is0 idx parts. simulate_bin_exact_input sample_bins (bin_exact_input_new (bn_token_0 sample_bins) 600) = Inr q \<and>
     bq_bins_crossed q \<le> MAX_BIN_CROSSES \<and> walk sample_bins is0 idx parts \<and>
     unat (aa_amount (bq_effective_input q)) = sum_list (map fst parts)"
proof -
  obtain q where q: "simulate_bin_exact_input sample_bins (bin_exact_input_new (bn_token_0 sample_bins) 600) = Inr q"
    using sample_bins_simulated by blast
  from bin_exact_input_bounds [OF q] q show ?thesis by metis
qed

text \<open>C28. The exact-output bin simulation decides reachability, is minimal and is realised: past its guards it
  either finds a quote, whose input is the least gross input for which the exact-input simulation
  pays at least the requested output and which in every field is what that simulation gives for this input, or there is
  no such input and it reports \<open>OutputUnreachable\<close>. It never fails in another way.\<close>

theorem bin_exact_output_minimal:
  assumes "bin_ready pool (bo_token_in req) is0 idx" and "bo_amount_out req \<noteq> 0"
    and "bin_direction pool (bo_token_in req) (bo_token_out req) = Inr is0"
  shows "case simulate_bin_exact_output pool req of
      Some (Inr q) \<Rightarrow> bo_amount_out req \<le> aa_amount (bx_output q) \<and> realised pool req q \<and>
        aa_amount (bx_input q) = (LEAST g. covers (bin_oracle pool (bo_token_in req)) (bo_amount_out req) g)
    | Some (Inl e) \<Rightarrow> e = BE_OutputUnreachable \<and>
        (\<forall>g. \<not> covers (bin_oracle pool (bo_token_in req)) (bo_amount_out req) g)
    | None \<Rightarrow> False"
  using bin_exact_output_outcome [OF assms] by (auto split: if_splits)

theorem bin_exact_output_minimal_witness:
  "\<exists>q. simulate_bin_exact_output sample_bins (bin_exact_output_new (bn_token_0 sample_bins) 592) = Some (Inr q) \<and>
     592 \<le> aa_amount (bx_output q) \<and> aa_amount (bx_input q) \<le> 600"
proof -
  let ?req = "bin_exact_output_new (bn_token_0 sample_bins) 592"
  have c: "covers (bin_oracle sample_bins (bn_token_0 sample_bins)) 592 600"
    using sample_bins_simulated by (auto simp: covers_iff bin_oracle_def)
  have least: "(LEAST g. covers (bin_oracle sample_bins (bn_token_0 sample_bins)) 592 g) \<le> 600"
    using c by (rule Least_le)
  have "bin_ready sample_bins (bo_token_in ?req) True 1" "bo_amount_out ?req \<noteq> 0"
    "bin_direction sample_bins (bo_token_in ?req) (bo_token_out ?req) = Inr True"
    using sample_ready sample_bins_ready(2) by (simp_all add: bin_exact_output_new_def)
  from bin_exact_output_minimal [OF this] c least show ?thesis
    by (auto simp: bin_exact_output_new_def split: option.splits sum.splits)
qed

end
