(* ===== verification/Orders.thy ===== *)
theory Orders
  imports Sequencing
begin

text \<open>
  The canonical intents, orders and routes of \<open>crates/domain/src/lib.rs\<close> with their validators.
  A string identifier is its \<open>string\<close>, whose \<open>validate\<close> and \<open>new\<close> take the kind the macro
  \<open>string_id!\<close> passes. A loop over route legs is a recursion over the list; the loop over
  split branches carries the running sum, minima and used pools of the source.
\<close>

section \<open>Errors and identifiers\<close>

datatype (plugins only: size code) domain_error =
    DE_EmptyIdentifier string
  | DE_ZeroTradeAmount
  | DE_SameAssetPair
  | DE_ChainMismatch
  | DE_UnexpectedLimitPrice
  | DE_MissingLimitPrice
  | DE_LimitPriceAssetMismatch
  | DE_Expired
  | DE_ExpiredStatusBeforeWindow
  | DE_InvalidMaxTotalCost
  | DE_InputAssetMismatch
  | DE_InvalidRemainingInput
  | DE_InvalidMinFill
  | DE_NonPartialFillMismatch
  | DE_MaxTotalCostAssetMismatch
  | DE_EmptyRoute
  | DE_EmptyRouteRef
  | DE_RouteTokenMismatch
  | DE_RouteOutputAssetMismatch
  | DE_RouteOutputAmountMismatch
  | DE_RouteUnmodeledFunding
  | DE_InvalidObservationWindow
  | DE_IncoherentSellability
  | DE_EmptyProvider
  | DE_IntentIdMismatch
  | DE_OutputAssetMismatch
  | DE_TradeSideMismatch
  | DE_ZeroSimulatedDelta
  | DE_ZeroCostComponent
  | DE_InconsistentNetEconomics string
  | DE_StaleMarketState
  | DE_ResyncRequired
  | DE_LimitPriceViolated
  | DE_InvalidNetPriceDecision string
  | DE_UnsupportedAmountType
  | DE_EmptySplitPlan
  | DE_SplitLegCountExceeded
  | DE_SplitLegTokenMismatch
  | DE_SplitLegUnmodeledFunding
  | DE_SplitOutputAssetMismatch
  | DE_SplitOutputOverflow
  | DE_SplitOutputConservationViolated
  | DE_SplitStateMismatch
  | DE_SplitInputConservationViolated
  | DE_SplitPoolReused

definition string_id_new :: "string \<Rightarrow> string \<Rightarrow> domain_error + string" where
  "string_id_new kind value =
     (if trim_is_empty value then Inl (DE_EmptyIdentifier kind) else Inr value)"

definition string_id_validate :: "string \<Rightarrow> string \<Rightarrow> domain_error + unit" where
  "string_id_validate kind value =
     (if trim_is_empty value then Inl (DE_EmptyIdentifier kind) else Inr ())"

type_synonym intent_id = string
type_synonym order_id = string
type_synonym idempotency_key = string
type_synonym user_id = string
type_synonym wallet_ref = string

section \<open>Intents\<close>

datatype trade_source = TS_Web | TS_Mcp | TS_Telegram | TS_Internal

datatype trade_side = Buy | Sell

datatype order_type = Market | Limit

datatype amount_type = InputAssetAtomic | OutputAssetAtomic | UsdMicros

record limit_price =
  lp_numerator_asset :: asset_id
  lp_denominator_asset :: asset_id
  lp_ratio :: price_ratio

record risk_constraints =
  max_buy_tax :: bps
  max_sell_tax :: bps
  max_price_impact :: bps
  max_slippage :: bps
  max_total_cost :: "asset_amount option"

definition risk_validate :: "risk_constraints \<Rightarrow> asset_id \<Rightarrow> domain_error + unit" where
  "risk_validate r token_in =
     (case max_total_cost r of
        None \<Rightarrow> Inr ()
      | Some cost \<Rightarrow>
          bindR (map_err (\<lambda>_. DE_InvalidMaxTotalCost) (validate_nonzero cost)) (\<lambda>_.
          if aa_asset cost \<noteq> token_in then Inl DE_MaxTotalCostAssetMismatch else Inr ()))"

record trade_intent =
  ti_id :: intent_id
  ti_source :: trade_source
  ti_user_id :: user_id
  ti_wallet_ref :: wallet_ref
  ti_chain :: chain_id
  ti_token_in :: asset_id
  ti_token_out :: asset_id
  ti_side :: trade_side
  ti_amount_type :: amount_type
  ti_amount :: atomic_amount
  ti_order_type :: order_type
  ti_limit_price :: "limit_price option"
  ti_risk :: risk_constraints
  ti_allow_partial_fill :: bool
  ti_expiry_ms :: "i64 option"
  ti_nonce :: u64
  ti_idempotency_key :: idempotency_key

text \<open>Numerator and denominator asset of a limit price, by the side of the trade.\<close>

definition price_assets :: "trade_side \<Rightarrow> asset_id \<Rightarrow> asset_id \<Rightarrow> asset_id \<times> asset_id" where
  "price_assets side token_in token_out =
     (case side of Buy \<Rightarrow> (token_in, token_out) | Sell \<Rightarrow> (token_out, token_in))"

definition limit_price_validate ::
  "trade_side \<Rightarrow> asset_id \<Rightarrow> asset_id \<Rightarrow> limit_price \<Rightarrow> domain_error + unit" where
  "limit_price_validate side token_in token_out price =
     (let expected = price_assets side token_in token_out in
      if lp_numerator_asset price \<noteq> fst expected \<or> lp_denominator_asset price \<noteq> snd expected
      then Inl DE_LimitPriceAssetMismatch else Inr ())"

definition intent_validate :: "trade_intent \<Rightarrow> i64 \<Rightarrow> domain_error + unit" where
  "intent_validate i now_ms =
     bindR (string_id_validate ''intent_id'' (ti_id i)) (\<lambda>_.
     bindR (string_id_validate ''user_id'' (ti_user_id i)) (\<lambda>_.
     bindR (string_id_validate ''wallet_ref'' (ti_wallet_ref i)) (\<lambda>_.
     bindR (string_id_validate ''idempotency_key'' (ti_idempotency_key i)) (\<lambda>_.
     bindR (map_err (\<lambda>_. DE_ChainMismatch) (chain_validate (ti_chain i))) (\<lambda>_.
     bindR (map_err (\<lambda>_. DE_ChainMismatch) (asset_validate (ti_token_in i))) (\<lambda>_.
     bindR (map_err (\<lambda>_. DE_ChainMismatch) (asset_validate (ti_token_out i))) (\<lambda>_.
     if ti_amount i = 0 then Inl DE_ZeroTradeAmount
     else if ti_token_in i = ti_token_out i then Inl DE_SameAssetPair
     else if asset_chain (ti_token_in i) \<noteq> ti_chain i \<or> asset_chain (ti_token_out i) \<noteq> ti_chain i
     then Inl DE_ChainMismatch
     else
       bindR (case (ti_order_type i, ti_limit_price i) of
                (Market, None) \<Rightarrow> Inr ()
              | (Limit, Some _) \<Rightarrow> Inr ()
              | (Market, Some _) \<Rightarrow> Inl DE_UnexpectedLimitPrice
              | (Limit, None) \<Rightarrow> Inl DE_MissingLimitPrice) (\<lambda>_.
       bindR (case ti_limit_price i of
                None \<Rightarrow> Inr ()
              | Some price \<Rightarrow>
                  limit_price_validate (ti_side i) (ti_token_in i) (ti_token_out i) price) (\<lambda>_.
       if (case ti_expiry_ms i of Some expiry \<Rightarrow> expiry \<le> now_ms | None \<Rightarrow> False)
       then Inl DE_Expired
       else risk_validate (ti_risk i) (ti_token_in i))))))))))"

section \<open>Orders\<close>

datatype order_status =
    Created
  | Active
  | TriggerCandidate
  | Quoting
  | Simulating
  | Executing
  | PartiallyFilled
  | Filled
  | Cancelled
  | Expired
  | FailedRetryable
  | FailedFinal

definition can_transition_to :: "order_status \<Rightarrow> order_status \<Rightarrow> bool" where
  "can_transition_to from to \<longleftrightarrow>
     (from, to) \<in> {
       (Created, Active), (Created, Cancelled), (Created, Expired),
       (Active, TriggerCandidate), (Active, Cancelled), (Active, Expired),
       (TriggerCandidate, Active), (TriggerCandidate, Quoting), (TriggerCandidate, Cancelled),
       (TriggerCandidate, Expired),
       (Quoting, Simulating), (Quoting, Active), (Quoting, FailedRetryable), (Quoting, Cancelled),
       (Quoting, Expired),
       (Simulating, Executing), (Simulating, Active), (Simulating, FailedRetryable),
       (Simulating, Cancelled), (Simulating, Expired),
       (Executing, PartiallyFilled), (Executing, Filled), (Executing, FailedRetryable),
       (Executing, FailedFinal), (Executing, Expired),
       (PartiallyFilled, Active), (PartiallyFilled, TriggerCandidate), (PartiallyFilled, Executing),
       (PartiallyFilled, Filled), (PartiallyFilled, Cancelled), (PartiallyFilled, Expired),
       (FailedRetryable, Active), (FailedRetryable, TriggerCandidate), (FailedRetryable, FailedFinal),
       (FailedRetryable, Cancelled), (FailedRetryable, Expired)}"

record limit_order =
  lo_id :: order_id
  lo_owner :: user_id
  lo_wallet_ref :: wallet_ref
  lo_chain :: chain_id
  lo_token_in :: asset_id
  lo_token_out :: asset_id
  lo_side :: trade_side
  lo_max_input :: asset_amount
  lo_remaining_input :: atomic_amount
  lo_limit_price :: limit_price
  lo_risk :: risk_constraints
  lo_allow_partial_fill :: bool
  lo_min_fill :: atomic_amount
  lo_expires_at_ms :: i64
  lo_status :: order_status

definition executable :: "order_status \<Rightarrow> bool" where
  "executable s \<longleftrightarrow> s \<in> {Created, Active, TriggerCandidate, Quoting, Simulating, Executing,
     PartiallyFilled, FailedRetryable}"

definition expiry_gated :: "order_status \<Rightarrow> bool" where
  "expiry_gated s \<longleftrightarrow> s \<in> {Created, Active, TriggerCandidate, Quoting, Simulating,
     PartiallyFilled, FailedRetryable}"

text \<open>The part of the validation that looks at what remains to be spent.\<close>

definition amounts_validate :: "limit_order \<Rightarrow> domain_error + unit" where
  "amounts_validate l =
     (if aa_amount (lo_max_input l) < lo_remaining_input l then Inl DE_InvalidRemainingInput
      else if lo_status l = Filled \<and> lo_remaining_input l \<noteq> 0 then Inl DE_InvalidRemainingInput
      else if executable (lo_status l) then
        if lo_remaining_input l = 0 then Inl DE_InvalidRemainingInput
        else if lo_min_fill l = 0 \<or> lo_remaining_input l < lo_min_fill l then Inl DE_InvalidMinFill
        else if \<not> lo_allow_partial_fill l \<and> lo_min_fill l \<noteq> lo_remaining_input l
        then Inl DE_NonPartialFillMismatch
        else Inr ()
      else Inr ())"

definition order_validate :: "limit_order \<Rightarrow> i64 \<Rightarrow> domain_error + unit" where
  "order_validate l now_ms =
     bindR (string_id_validate ''order_id'' (lo_id l)) (\<lambda>_.
     bindR (string_id_validate ''user_id'' (lo_owner l)) (\<lambda>_.
     bindR (string_id_validate ''wallet_ref'' (lo_wallet_ref l)) (\<lambda>_.
     bindR (map_err (\<lambda>_. DE_ChainMismatch) (chain_validate (lo_chain l))) (\<lambda>_.
     bindR (map_err (\<lambda>_. DE_ChainMismatch) (asset_validate (lo_token_in l))) (\<lambda>_.
     bindR (map_err (\<lambda>_. DE_ChainMismatch) (asset_validate (lo_token_out l))) (\<lambda>_.
     if asset_chain (lo_token_in l) \<noteq> lo_chain l \<or> asset_chain (lo_token_out l) \<noteq> lo_chain l
     then Inl DE_ChainMismatch
     else if lo_token_in l = lo_token_out l then Inl DE_SameAssetPair
     else
       bindR (map_err (\<lambda>_. DE_ZeroTradeAmount) (validate_nonzero (lo_max_input l))) (\<lambda>_.
       if aa_asset (lo_max_input l) \<noteq> lo_token_in l then Inl DE_InputAssetMismatch
       else
         bindR (amounts_validate l) (\<lambda>_.
         if expiry_gated (lo_status l) \<and> lo_expires_at_ms l \<le> now_ms then Inl DE_Expired
         else if lo_status l = Expired \<and> now_ms < lo_expires_at_ms l
         then Inl DE_ExpiredStatusBeforeWindow
         else
           bindR (limit_price_validate (lo_side l) (lo_token_in l) (lo_token_out l) (lo_limit_price l)) (\<lambda>_.
           risk_validate (lo_risk l) (lo_token_in l))))))))))"

section \<open>Routes\<close>

text \<open>The record \<open>Freshness\<close> of \<open>crates/market-types/src/primitives.rs\<close>.\<close>

record freshness =
  fr_observed_at_ms :: i64
  fr_chain_height :: u64
  fr_sequence :: sequence

record route_leg =
  rl_venue :: string
  rl_pool_ref :: string
  rl_token_in :: asset_id
  rl_token_out :: asset_id
  rl_amount_in :: atomic_amount
  rl_expected_amount_out :: atomic_amount

record route_plan =
  rp_legs :: "route_leg list"
  rp_expected_net_output :: asset_amount
  rp_state :: freshness

record split_leg =
  sl_amount_in :: atomic_amount
  sl_route :: route_plan

record split_plan =
  sp_legs :: "split_leg list"
  sp_expected_net_output :: asset_amount
  sp_state :: freshness

definition MAX_SPLIT_LEGS :: usize where
  "MAX_SPLIT_LEGS = 5"

definition leg_validate :: "route_leg \<Rightarrow> domain_error + unit" where
  "leg_validate l =
     (if trim_is_empty (rl_venue l) \<or> trim_is_empty (rl_pool_ref l) then Inl DE_EmptyRouteRef
      else
        bindR (map_err (\<lambda>_. DE_ChainMismatch) (asset_validate (rl_token_in l))) (\<lambda>_.
        bindR (map_err (\<lambda>_. DE_ChainMismatch) (asset_validate (rl_token_out l))) (\<lambda>_.
        if rl_token_in l = rl_token_out l then Inl DE_SameAssetPair
        else if rl_amount_in l = 0 \<or> rl_expected_amount_out l = 0 then Inl DE_ZeroTradeAmount
        else Inr ())))"

text \<open>\<open>for x in xs { f(x)?; }\<close>\<close>

fun for_each :: "('a \<Rightarrow> 'e + unit) \<Rightarrow> 'a list \<Rightarrow> 'e + unit" where
  "for_each f [] = Inr ()"
| "for_each f (x # xs) = bindR (f x) (\<lambda>_. for_each f xs)"

text \<open>\<open>xs.windows(2)\<close>\<close>

fun windows2 :: "'a list \<Rightarrow> ('a \<times> 'a) list" where
  "windows2 (x # y # xs) = (x, y) # windows2 (y # xs)"
| "windows2 _ = []"

definition route_validate :: "route_plan \<Rightarrow> domain_error + unit" where
  "route_validate r =
     (if rp_legs r = [] then Inl DE_EmptyRoute
      else
        bindR (for_each leg_validate (rp_legs r)) (\<lambda>_.
        bindR (for_each (\<lambda>(a, b). if rl_token_out a \<noteq> rl_token_in b then Inl DE_RouteTokenMismatch
                                 else Inr ()) (windows2 (rp_legs r))) (\<lambda>_.
        if aa_asset (rp_expected_net_output r) \<noteq> rl_token_out (last (rp_legs r))
        then Inl DE_RouteOutputAssetMismatch
        else map_err (\<lambda>_. DE_ZeroTradeAmount) (validate_nonzero (rp_expected_net_output r)))))"

text \<open>The legs of one branch: on the chain of the intent and through pools not used before.\<close>

fun branch_pools :: "chain_id \<Rightarrow> string list \<Rightarrow> route_leg list \<Rightarrow> domain_error + string list" where
  "branch_pools chain used [] = Inr used"
| "branch_pools chain used (l # ls) =
     (if asset_chain (rl_token_in l) \<noteq> chain \<or> asset_chain (rl_token_out l) \<noteq> chain
      then Inl DE_ChainMismatch
      else if rl_pool_ref l \<in> set used then Inl DE_SplitPoolReused
      else branch_pools chain (used @ [rl_pool_ref l]) ls)"

record split_acc =
  sa_output_sum :: u128
  sa_observed_min :: i64
  sa_sequence_min :: "sequence option"
  sa_used_pools :: "string list"

definition branch_validate :: "trade_intent \<Rightarrow> split_leg \<Rightarrow> split_acc \<Rightarrow> domain_error + split_acc" where
  "branch_validate intent leg acc =
     (if sl_amount_in leg = 0 then Inl DE_ZeroTradeAmount
      else
        bindR (route_validate (sl_route leg)) (\<lambda>_.
        let legs = rp_legs (sl_route leg) in
        if legs = [] then Inl DE_EmptyRoute
        else if rl_token_in (hd legs) \<noteq> ti_token_in intent \<or> rl_token_out (last legs) \<noteq> ti_token_out intent
        then Inl DE_SplitLegTokenMismatch
        else
          bindR (branch_pools (ti_chain intent) (sa_used_pools acc) legs) (\<lambda>used.
          bindR (for_each (\<lambda>(a, b). if rl_expected_amount_out a < rl_amount_in b
                                   then Inl DE_SplitLegUnmodeledFunding else Inr ()) (windows2 legs)) (\<lambda>_.
          if aa_asset (rp_expected_net_output (sl_route leg)) \<noteq> ti_token_out intent
          then Inl DE_SplitOutputAssetMismatch
          else if sl_amount_in leg < rl_amount_in (hd legs) then Inl DE_SplitLegUnmodeledFunding
          else
            bindR (ok_or DE_SplitOutputOverflow
                     (checked_add (sa_output_sum acc)
                        (aa_amount (rp_expected_net_output (sl_route leg))))) (\<lambda>output_sum.
            let sequence = fr_sequence (rp_state (sl_route leg)) in
            Inr \<lparr>sa_output_sum = output_sum,
                 sa_observed_min = min (sa_observed_min acc) (fr_observed_at_ms (rp_state (sl_route leg))),
                 sa_sequence_min = Some (case sa_sequence_min acc of
                   Some current \<Rightarrow> if current \<le> sequence then current else sequence
                 | None \<Rightarrow> sequence),
                 sa_used_pools = used\<rparr>)))))"

fun branches_validate :: "trade_intent \<Rightarrow> split_leg list \<Rightarrow> split_acc \<Rightarrow> domain_error + split_acc" where
  "branches_validate intent [] acc = Inr acc"
| "branches_validate intent (leg # legs) acc =
     bindR (branch_validate intent leg acc) (branches_validate intent legs)"

text \<open>\<open>i64::MAX\<close>\<close>

definition I64_MAX :: i64 where
  "I64_MAX = 2 ^ 63 - 1"

definition split_validate :: "split_plan \<Rightarrow> trade_intent \<Rightarrow> domain_error + unit" where
  "split_validate plan intent =
     (if sp_legs plan = [] then Inl DE_EmptySplitPlan
      else if MAX_SPLIT_LEGS < length (sp_legs plan) then Inl DE_SplitLegCountExceeded
      else
        bindR (branches_validate intent (sp_legs plan)
                 \<lparr>sa_output_sum = 0, sa_observed_min = I64_MAX, sa_sequence_min = None,
                  sa_used_pools = []\<rparr>) (\<lambda>acc.
        if ti_token_in intent = ti_token_out intent then Inl DE_SameAssetPair
        else if aa_asset (sp_expected_net_output plan) \<noteq> ti_token_out intent \<or>
                aa_amount (sp_expected_net_output plan) \<noteq> sa_output_sum acc
        then Inl DE_SplitOutputConservationViolated
        else if aa_amount (sp_expected_net_output plan) = 0 then Inl DE_ZeroTradeAmount
        else if fr_observed_at_ms (sp_state plan) \<le> 0 then Inl DE_StaleMarketState
        else if fr_sequence (sp_state plan) = 0 then Inl DE_ResyncRequired
        else
          bindR (ok_or DE_EmptySplitPlan (sa_sequence_min acc)) (\<lambda>expected_sequence.
          if fr_observed_at_ms (sp_state plan) \<noteq> sa_observed_min acc \<or>
             fr_sequence (sp_state plan) \<noteq> expected_sequence
          then Inl DE_SplitStateMismatch
          else Inr ())))"

section \<open>Observations\<close>

record tax_observation =
  tob_chain :: chain_id
  tob_token :: asset_id
  tob_pool_ref :: string
  tob_router_ref :: string
  tob_wallet_ref :: wallet_ref
  tob_amount :: atomic_amount
  tob_block_or_slot :: u64
  tob_buy_tax :: bps
  tob_sell_tax :: bps
  tob_buy_succeeds :: bool
  tob_sell_succeeds :: bool
  tob_sellable :: bool
  tob_confidence :: bps
  tob_observed_at_ms :: i64
  tob_expires_at_ms :: i64

definition tax_observation_validate :: "tax_observation \<Rightarrow> domain_error + unit" where
  "tax_observation_validate t =
     bindR (map_err (\<lambda>_. DE_ChainMismatch) (asset_validate (tob_token t))) (\<lambda>_.
     if asset_chain (tob_token t) \<noteq> tob_chain t then Inl DE_ChainMismatch
     else if trim_is_empty (tob_pool_ref t) \<or> trim_is_empty (tob_router_ref t) then Inl DE_EmptyRouteRef
     else
       bindR (string_id_validate ''wallet_ref'' (tob_wallet_ref t)) (\<lambda>_.
       if tob_amount t = 0 then Inl DE_ZeroTradeAmount
       else if tob_expires_at_ms t \<le> tob_observed_at_ms t then Inl DE_InvalidObservationWindow
       else if \<not> tob_sellable t \<and> tob_sell_succeeds t then Inl DE_IncoherentSellability
       else Inr ()))"

record provider_snapshot_meta =
  psm_provider :: string
  psm_computed_at_ms :: i64
  psm_expires_at_ms :: i64
  psm_source_sequence :: "sequence option"

definition provider_snapshot_validate :: "provider_snapshot_meta \<Rightarrow> domain_error + unit" where
  "provider_snapshot_validate p =
     (if trim_is_empty (psm_provider p) then Inl DE_EmptyProvider
      else if psm_expires_at_ms p \<le> psm_computed_at_ms p then Inl DE_InvalidObservationWindow
      else Inr ())"

section \<open>What validation means\<close>

lemma for_each_Inr_iff [result_iff]:
  "for_each f xs = Inr u \<longleftrightarrow> (\<forall>x \<in> set xs. f x = Inr ())"
  by (induction xs) (auto simp: bindR_Inr_iff)

lemma windows2_nth: "(a, b) \<in> set (windows2 xs) \<longleftrightarrow> (\<exists>i. i + 1 < length xs \<and> a = xs ! i \<and> b = xs ! (i + 1))"
proof (induction xs rule: windows2.induct)
  case (1 x y xs)
  have "(\<exists>i. i + 1 < length (x # y # xs) \<and> a = (x # y # xs) ! i \<and> b = (x # y # xs) ! (i + 1)) \<longleftrightarrow>
      a = x \<and> b = y \<or> (\<exists>i. i + 1 < length (y # xs) \<and> a = (y # xs) ! i \<and> b = (y # xs) ! (i + 1))"
    (is "(\<exists>i. ?P i) \<longleftrightarrow> _ \<or> (\<exists>i. ?Q i)")
  proof -
    have "(\<exists>i. ?P i) \<longleftrightarrow> ?P 0 \<or> (\<exists>i. ?P (Suc i))" by (metis not0_implies_Suc)
    then show ?thesis by simp
  qed
  then show ?case using 1 by simp
qed auto

text \<open>
  The identity of an order: everything but its status and what remains of it. Transitions do
  not change it.
\<close>

definition order_identity :: "limit_order \<Rightarrow> limit_order" where
  "order_identity l = l\<lparr>lo_remaining_input := 0, lo_status := Created\<rparr>"

definition order_static :: "limit_order \<Rightarrow> bool" where
  "order_static l \<longleftrightarrow>
     \<not> trim_is_empty (lo_id l) \<and> \<not> trim_is_empty (lo_owner l) \<and> \<not> trim_is_empty (lo_wallet_ref l) \<and>
     chain_validate (lo_chain l) = Inr () \<and> asset_validate (lo_token_in l) = Inr () \<and>
     asset_validate (lo_token_out l) = Inr () \<and>
     asset_chain (lo_token_in l) = lo_chain l \<and> asset_chain (lo_token_out l) = lo_chain l \<and>
     lo_token_in l \<noteq> lo_token_out l \<and> aa_amount (lo_max_input l) \<noteq> 0 \<and>
     aa_asset (lo_max_input l) = lo_token_in l \<and>
     limit_price_validate (lo_side l) (lo_token_in l) (lo_token_out l) (lo_limit_price l) = Inr () \<and>
     risk_validate (lo_risk l) (lo_token_in l) = Inr ()"

definition amounts_ok :: "limit_order \<Rightarrow> bool" where
  "amounts_ok l \<longleftrightarrow>
     lo_remaining_input l \<le> aa_amount (lo_max_input l) \<and>
     (lo_status l = Filled \<longrightarrow> lo_remaining_input l = 0) \<and>
     (executable (lo_status l) \<longrightarrow>
        lo_remaining_input l \<noteq> 0 \<and> lo_min_fill l \<noteq> 0 \<and> lo_min_fill l \<le> lo_remaining_input l \<and>
        (lo_allow_partial_fill l \<or> lo_min_fill l = lo_remaining_input l))"

definition time_ok :: "limit_order \<Rightarrow> i64 \<Rightarrow> bool" where
  "time_ok l now_ms \<longleftrightarrow>
     (expiry_gated (lo_status l) \<longrightarrow> now_ms < lo_expires_at_ms l) \<and>
     (lo_status l = Expired \<longrightarrow> lo_expires_at_ms l \<le> now_ms)"

lemma string_id_validate_Inr_iff [result_iff]:
  "string_id_validate kind v = Inr u \<longleftrightarrow> \<not> trim_is_empty v"
  by (simp add: string_id_validate_def)

lemma validate_nonzero_Inr_iff [result_iff]: "validate_nonzero a = Inr u \<longleftrightarrow> aa_amount a \<noteq> 0"
  by (simp add: validate_nonzero_def)

lemma amounts_validate_Inr_iff [result_iff]: "amounts_validate l = Inr u \<longleftrightarrow> amounts_ok l"
  by (auto simp: amounts_validate_def amounts_ok_def not_less)

lemma order_validate_Inr_iff [result_iff]:
  "order_validate l now_ms = Inr u \<longleftrightarrow> order_static l \<and> amounts_ok l \<and> time_ok l now_ms"
  unfolding order_validate_def order_static_def time_ok_def
  by (auto simp: result_iff not_le not_less)

lemma order_identity_simps:
  "order_static (order_identity l) = order_static l"
  "lo_id (order_identity l) = lo_id l" "lo_max_input (order_identity l) = lo_max_input l"
  "lo_expires_at_ms (order_identity l) = lo_expires_at_ms l"
  "lo_min_fill (order_identity l) = lo_min_fill l"
  "lo_allow_partial_fill (order_identity l) = lo_allow_partial_fill l"
  by (simp_all add: order_identity_def order_static_def)

lemma order_identity_cong:
  assumes "order_identity l = order_identity l'"
  shows "order_static l = order_static l'" and "lo_id l = lo_id l'" and "lo_max_input l = lo_max_input l'"
    and "lo_expires_at_ms l = lo_expires_at_ms l'" and "lo_min_fill l = lo_min_fill l'"
    and "lo_allow_partial_fill l = lo_allow_partial_fill l'"
  using order_identity_simps [of l] order_identity_simps [of l'] unfolding assms by simp_all

lemma order_identity_update [simp]:
  "order_identity (l\<lparr>lo_remaining_input := r\<rparr>) = order_identity l"
  "order_identity (l\<lparr>lo_status := s\<rparr>) = order_identity l"
  by (simp_all add: order_identity_def)

section \<open>Split plans\<close>

lemma branch_pools_Inr:
  "branch_pools chain used ls = Inr used' \<Longrightarrow> distinct used \<Longrightarrow>
     used' = used @ map rl_pool_ref ls \<and> distinct used' \<and>
     (\<forall>l \<in> set ls. asset_chain (rl_token_in l) = chain \<and> asset_chain (rl_token_out l) = chain)"
proof (induction ls arbitrary: used)
  case (Cons l ls)
  then have l: "asset_chain (rl_token_in l) = chain" "asset_chain (rl_token_out l) = chain"
    "rl_pool_ref l \<notin> set used" "branch_pools chain (used @ [rl_pool_ref l]) ls = Inr used'"
    by (auto split: if_splits)
  have "distinct (used @ [rl_pool_ref l])" using Cons.prems(2) l(3) by simp
  note ih = Cons.IH [OF l(4) this]
  show ?case
  proof (intro conjI)
    show "used' = used @ map rl_pool_ref (l # ls)" using ih by simp
    show "distinct used'" using ih by blast
    show "\<forall>l \<in> set (l # ls). asset_chain (rl_token_in l) = chain \<and> asset_chain (rl_token_out l) = chain"
      using ih l(1,2) by simp
  qed
qed simp

definition leg_pools :: "split_leg \<Rightarrow> string list" where
  "leg_pools leg = map rl_pool_ref (rp_legs (sl_route leg))"

definition leg_output :: "split_leg \<Rightarrow> nat" where
  "leg_output leg = unat (aa_amount (rp_expected_net_output (sl_route leg)))"

lemma branch_validate_Inr:
  assumes "branch_validate intent leg acc = Inr acc'" and "distinct (sa_used_pools acc)"
  shows "sa_used_pools acc' = sa_used_pools acc @ leg_pools leg" and "distinct (sa_used_pools acc')"
    and "unat (sa_output_sum acc') = unat (sa_output_sum acc) + leg_output leg"
    and "sl_amount_in leg \<noteq> 0" and "route_validate (sl_route leg) = Inr ()"
    and "rl_amount_in (hd (rp_legs (sl_route leg))) \<le> sl_amount_in leg"
    and "sa_observed_min acc' = min (sa_observed_min acc) (fr_observed_at_ms (rp_state (sl_route leg)))"
    and "sa_sequence_min acc' = Some (case sa_sequence_min acc of
       Some m \<Rightarrow> min m (fr_sequence (rp_state (sl_route leg))) | None \<Rightarrow> fr_sequence (rp_state (sl_route leg)))"
  using assms unfolding branch_validate_def leg_pools_def leg_output_def min_def [of "_ :: sequence"]
  by (auto simp: result_iff Let_def rust_arith dest: branch_pools_Inr split: if_splits)

lemma branches_validate_Inr:
  assumes "branches_validate intent legs acc = Inr acc'" and "distinct (sa_used_pools acc)"
  shows "distinct (sa_used_pools acc @ concat (map leg_pools legs)) \<and>
    unat (sa_output_sum acc') = unat (sa_output_sum acc) + (\<Sum>leg \<leftarrow> legs. leg_output leg) \<and>
    (\<forall>leg \<in> set legs. route_validate (sl_route leg) = Inr () \<and> sl_amount_in leg \<noteq> 0 \<and>
      rl_amount_in (hd (rp_legs (sl_route leg))) \<le> sl_amount_in leg)"
  using assms
proof (induction legs arbitrary: acc)
  case (Cons leg legs)
  then obtain acc1 where b: "branch_validate intent leg acc = Inr acc1"
    and r: "branches_validate intent legs acc1 = Inr acc'" by (auto simp: bindR_Inr_iff)
  note v = branch_validate_Inr [OF b Cons.prems(2)]
  from Cons.IH [OF r v(2)] v show ?case by simp
qed simp

lemma split_validate_Inr:
  assumes "split_validate plan intent = Inr ()"
  shows "distinct (concat (map leg_pools (sp_legs plan)))"
    and "unat (aa_amount (sp_expected_net_output plan)) = (\<Sum>leg \<leftarrow> sp_legs plan. leg_output leg)"
    and "\<forall>leg \<in> set (sp_legs plan). route_validate (sl_route leg) = Inr () \<and> sl_amount_in leg \<noteq> 0 \<and>
      rl_amount_in (hd (rp_legs (sl_route leg))) \<le> sl_amount_in leg"
    and "sp_legs plan \<noteq> []" and "length (sp_legs plan) \<le> MAX_SPLIT_LEGS"
    and "ti_token_in intent \<noteq> ti_token_out intent" and "aa_amount (sp_expected_net_output plan) \<noteq> 0"
proof -
  let ?acc = "\<lparr>sa_output_sum = 0, sa_observed_min = I64_MAX, sa_sequence_min = None, sa_used_pools = []\<rparr>"
  obtain acc where b: "branches_validate intent (sp_legs plan) ?acc = Inr acc"
    and rest: "sp_legs plan \<noteq> []" "length (sp_legs plan) \<le> MAX_SPLIT_LEGS"
    "ti_token_in intent \<noteq> ti_token_out intent" "aa_amount (sp_expected_net_output plan) \<noteq> 0"
    "aa_amount (sp_expected_net_output plan) = sa_output_sum acc"
    using assms unfolding split_validate_def by (auto simp: result_iff not_less split: if_splits)
  from branches_validate_Inr [OF b] rest
  show "distinct (concat (map leg_pools (sp_legs plan)))"
    "unat (aa_amount (sp_expected_net_output plan)) = (\<Sum>leg \<leftarrow> sp_legs plan. leg_output leg)"
    "\<forall>leg \<in> set (sp_legs plan). route_validate (sl_route leg) = Inr () \<and> sl_amount_in leg \<noteq> 0 \<and>
      rl_amount_in (hd (rp_legs (sl_route leg))) \<le> sl_amount_in leg"
    "sp_legs plan \<noteq> []" "length (sp_legs plan) \<le> MAX_SPLIT_LEGS"
    "ti_token_in intent \<noteq> ti_token_out intent" "aa_amount (sp_expected_net_output plan) \<noteq> 0"
    by simp_all
qed

lemma route_validate_Inr:
  assumes "route_validate r = Inr ()"
  shows "rp_legs r \<noteq> []" and "\<forall>l \<in> set (rp_legs r). leg_validate l = Inr ()"
    and "\<forall>i. i + 1 < length (rp_legs r) \<longrightarrow> rl_token_out (rp_legs r ! i) = rl_token_in (rp_legs r ! (i + 1))"
    and "aa_asset (rp_expected_net_output r) = rl_token_out (last (rp_legs r))"
    and "aa_amount (rp_expected_net_output r) \<noteq> 0"
proof -
  have ne: "rp_legs r \<noteq> []" using assms by (auto simp: route_validate_def)
  then have v: "\<forall>l \<in> set (rp_legs r). leg_validate l = Inr ()"
    "\<forall>(a, b) \<in> set (windows2 (rp_legs r)). rl_token_out a = rl_token_in b"
    "aa_asset (rp_expected_net_output r) = rl_token_out (last (rp_legs r))"
    "aa_amount (rp_expected_net_output r) \<noteq> 0"
    using assms by (auto simp: route_validate_def result_iff split: if_splits)
  show "rp_legs r \<noteq> []" "\<forall>l \<in> set (rp_legs r). leg_validate l = Inr ()"
    "aa_asset (rp_expected_net_output r) = rl_token_out (last (rp_legs r))"
    "aa_amount (rp_expected_net_output r) \<noteq> 0" by (fact ne v)+
  show "\<forall>i. i + 1 < length (rp_legs r) \<longrightarrow> rl_token_out (rp_legs r ! i) = rl_token_in (rp_legs r ! (i + 1))"
  proof (intro allI impI)
    fix i
    assume "i + 1 < length (rp_legs r)"
    then have "(rp_legs r ! i, rp_legs r ! (i + 1)) \<in> set (windows2 (rp_legs r))"
      by (auto simp: windows2_nth)
    with v(2) show "rl_token_out (rp_legs r ! i) = rl_token_in (rp_legs r ! (i + 1))" by blast
  qed
qed

section \<open>Properties\<close>

definition sample_in :: asset_id where
  "sample_in = \<lparr>asset_chain = Base, asset_address = ''in''\<rparr>"

definition sample_out :: asset_id where
  "sample_out = \<lparr>asset_chain = Base, asset_address = ''out''\<rparr>"

definition sample_risk :: risk_constraints where
  "sample_risk = \<lparr>max_buy_tax = 500, max_sell_tax = 500, max_price_impact = 300, max_slippage = 200,
     max_total_cost = None\<rparr>"

definition sample_price :: limit_price where
  "sample_price = \<lparr>lp_numerator_asset = sample_in, lp_denominator_asset = sample_out,
     lp_ratio = \<lparr>numerator_atomic = 2, denominator_atomic = 1\<rparr>\<rparr>"

definition sample_intent :: trade_intent where
  "sample_intent = \<lparr>ti_id = ''i'', ti_source = TS_Web, ti_user_id = ''u'', ti_wallet_ref = ''w'',
     ti_chain = Base, ti_token_in = sample_in, ti_token_out = sample_out, ti_side = Buy,
     ti_amount_type = InputAssetAtomic, ti_amount = 100, ti_order_type = Limit,
     ti_limit_price = Some sample_price, ti_risk = sample_risk, ti_allow_partial_fill = True,
     ti_expiry_ms = Some 2000, ti_nonce = 1, ti_idempotency_key = ''k''\<rparr>"

definition sample_branch :: "string \<Rightarrow> u128 \<Rightarrow> u128 \<Rightarrow> split_leg" where
  "sample_branch pool amount out = \<lparr>sl_amount_in = amount, sl_route =
     \<lparr>rp_legs = [\<lparr>rl_venue = ''v'', rl_pool_ref = pool, rl_token_in = sample_in, rl_token_out = sample_out,
        rl_amount_in = amount, rl_expected_amount_out = out\<rparr>],
      rp_expected_net_output = \<lparr>aa_asset = sample_out, aa_amount = out\<rparr>,
      rp_state = \<lparr>fr_observed_at_ms = 1000, fr_chain_height = 1, fr_sequence = 7\<rparr>\<rparr>\<rparr>"

definition sample_split :: split_plan where
  "sample_split = \<lparr>sp_legs = [sample_branch ''p'' 60 40, sample_branch ''q'' 40 20],
     sp_expected_net_output = \<lparr>aa_asset = sample_out, aa_amount = 60\<rparr>,
     sp_state = \<lparr>fr_observed_at_ms = 1000, fr_chain_height = 1, fr_sequence = 7\<rparr>\<rparr>"

lemma sample_split_valid: "split_validate sample_split sample_intent = Inr ()"
  by (simp add: split_validate_def sample_split_def sample_branch_def sample_intent_def sample_in_def
      sample_out_def MAX_SPLIT_LEGS_def branch_validate_def route_validate_def leg_validate_def
      asset_validate_def chain_validate_def ensure_asset_address_def ws_defs validate_nonzero_def
      checked_add_def I64_MAX_def Let_def)

text \<open>A split plan that validates is sound: it has one to five branches, each a valid route
  funded by its own positive budget; no pool occurs twice, neither in two branches nor twice in
  one, so no liquidity is counted twice; and its output is exactly the sum of the outputs of its
  branches.\<close>

theorem split_plan_sound:
  assumes "split_validate plan intent = Inr ()"
  shows "0 < length (sp_legs plan) \<and> length (sp_legs plan) \<le> MAX_SPLIT_LEGS \<and>
    distinct (concat (map leg_pools (sp_legs plan))) \<and>
    unat (aa_amount (sp_expected_net_output plan)) = (\<Sum>leg \<leftarrow> sp_legs plan. leg_output leg) \<and>
    (\<forall>leg \<in> set (sp_legs plan). route_validate (sl_route leg) = Inr () \<and> 0 < unat (sl_amount_in leg) \<and>
      unat (rl_amount_in (hd (rp_legs (sl_route leg)))) \<le> unat (sl_amount_in leg))"
  using split_validate_Inr [OF assms] by (auto simp: unat_gt_0 word_le_nat_alt)

theorem split_plan_sound_witness:
  "distinct (concat (map leg_pools (sp_legs sample_split))) \<and>
   unat (aa_amount (sp_expected_net_output sample_split)) = (\<Sum>leg \<leftarrow> sp_legs sample_split. leg_output leg)"
  using split_plan_sound [OF sample_split_valid] by blast

end
