(* ===== verification/Limit_Fsm.thy ===== *)
theory Limit_Fsm
  imports Orders
begin

text \<open>
  The limit-order state machine: \<open>crates/limit-engine/src\<close> with \<open>order.rs\<close> (records),
  \<open>fill.rs\<close> (the fill ledger), \<open>fsm.rs\<close> (transitions), \<open>error.rs\<close> and the subject of a
  transition from \<open>events.rs\<close>. The numbered rules of \<open>apply_transition\<close> are definitions of their
  own where they decide something: the coercion of a late partial fill (rule 1), the deadline
  (rule 4), the fills an edge takes (rule 5) and the fill policy (rule 7).
\<close>

section \<open>Errors and records\<close>

datatype (plugins only: size code) limit_engine_error =
    LE_InvalidTransition
  | LE_InvalidOrder
  | LE_Expired
  | LE_LimitPriceViolated
  | LE_NoSafeFill
  | LE_AmountBelowMinFill
  | LE_PartialFillNotAllowed
  | LE_RemainingUnderflow
  | LE_FillMismatch
  | LE_StaleState
  | LE_ResyncRequired
  | LE_QuoteUnavailable
  | LE_PersistenceConflict
  | LE_PersistenceUnavailable
  | LE_KeyUnavailable
  | LE_UnknownKeyId
  | LE_KeyIdMismatch
  | LE_SealFailed
  | LE_OpenFailed
  | LE_RecordMalformed
  | LE_IdempotencyConflict
  | LE_RecoveryFailed
  | LE_RecoveryInconsistent
  | LE_ArithmeticOverflow
  | LE_StoreInvalid
  | LE_IntegrityViolation
  | LE_PolicyRejected

record fill_delta =
  fd_simulated_net_input :: atomic_amount
  fd_simulated_net_output :: atomic_amount
  fd_remaining_after :: atomic_amount

definition DEFAULT_SCHEMA_VERSION :: u16 where
  "DEFAULT_SCHEMA_VERSION = 1"

record stored_limit_order =
  so_schema_version :: u16
  so_version :: u64
  so_order :: limit_order
  so_order_intent_id :: intent_id
  so_order_idempotency_key :: idempotency_key
  so_nonce :: u64
  so_attempt_seq :: u64
  so_filled_input :: atomic_amount
  so_last_transition_seq :: u64
  so_published_seq :: u64
  so_next_eligible_at_ms :: "i64 option"

record order_transition =
  ot_order_id :: order_id
  ot_from :: order_status
  ot_to :: order_status
  ot_transition_seq :: u64
  ot_fill :: "fill_delta option"
  ot_at_ms :: i64

section \<open>The fill ledger\<close>

definition apply_fill :: "stored_limit_order \<Rightarrow> fill_delta \<Rightarrow> limit_engine_error + stored_limit_order" where
  "apply_fill order fill =
     (let remaining = lo_remaining_input (so_order order);
          consumed = fd_simulated_net_input fill in
      bindR (ok_or LE_RemainingUnderflow (checked_sub remaining consumed)) (\<lambda>new_remaining.
      if fd_remaining_after fill \<noteq> new_remaining then Inl LE_FillMismatch
      else
        bindR (ok_or LE_ArithmeticOverflow (checked_add (so_filled_input order) consumed)) (\<lambda>new_filled.
        if checked_add new_filled new_remaining \<noteq> Some (aa_amount (lo_max_input (so_order order)))
        then Inl LE_FillMismatch
        else Inr (order\<lparr>so_filled_input := new_filled,
                        so_order := (so_order order)\<lparr>lo_remaining_input := new_remaining\<rparr>\<rparr>))))"

definition conservation_holds :: "stored_limit_order \<Rightarrow> bool" where
  "conservation_holds order \<longleftrightarrow>
     checked_add (so_filled_input order) (lo_remaining_input (so_order order))
       = Some (aa_amount (lo_max_input (so_order order)))"

section \<open>Transitions\<close>

definition is_terminal :: "order_status \<Rightarrow> bool" where
  "is_terminal s \<longleftrightarrow> s \<in> {Filled, Cancelled, Expired, FailedFinal}"

definition validate_transition :: "order_status \<Rightarrow> order_status \<Rightarrow> limit_engine_error + unit" where
  "validate_transition from to =
     (if can_transition_to from to then Inr () else Inl LE_InvalidTransition)"

definition map_domain_error :: "domain_error \<Rightarrow> limit_engine_error" where
  "map_domain_error e =
     (case e of
        DE_InvalidRemainingInput \<Rightarrow> LE_InvalidOrder
      | DE_InvalidMinFill \<Rightarrow> LE_AmountBelowMinFill
      | DE_NonPartialFillMismatch \<Rightarrow> LE_PartialFillNotAllowed
      | DE_Expired \<Rightarrow> LE_Expired
      | DE_ExpiredStatusBeforeWindow \<Rightarrow> LE_Expired
      | _ \<Rightarrow> LE_InvalidOrder)"

text \<open>Rule 1: a partial fill confirmed at or after the deadline closes the order.\<close>

definition coerced_target ::
  "order_status \<Rightarrow> order_status \<Rightarrow> bool \<Rightarrow> i64 \<Rightarrow> i64 \<Rightarrow> order_status" where
  "coerced_target from requested has_fill at_ms expires_at_ms =
     (if requested = PartiallyFilled \<and> has_fill \<and> expires_at_ms \<le> at_ms \<and>
         from \<in> {Executing, PartiallyFilled}
      then Expired else requested)"

text \<open>Rule 4.\<close>

definition deadline_check :: "order_status \<Rightarrow> i64 \<Rightarrow> i64 \<Rightarrow> limit_engine_error + unit" where
  "deadline_check effective at_ms expires_at_ms =
     (if effective = Expired then
        if at_ms < expires_at_ms then Inl LE_Expired else Inr ()
      else if \<not> is_terminal effective \<and> expires_at_ms \<le> at_ms then Inl LE_Expired
      else Inr ())"

text \<open>Rule 5.\<close>

definition fill_required :: "order_status \<Rightarrow> order_status \<Rightarrow> bool" where
  "fill_required from requested \<longleftrightarrow>
     (from, requested) \<in> {(Executing, PartiallyFilled), (Executing, Filled), (PartiallyFilled, Filled)}"

definition fill_allowed :: "order_status \<Rightarrow> order_status \<Rightarrow> bool" where
  "fill_allowed from requested \<longleftrightarrow>
     fill_required from requested \<or>
     from \<in> {Executing, PartiallyFilled} \<and> requested = Expired \<or>
     from \<in> {Executing, PartiallyFilled} \<and> requested = PartiallyFilled"

definition transition_fill ::
  "stored_limit_order \<Rightarrow> order_status \<Rightarrow> order_status \<Rightarrow> fill_delta option \<Rightarrow>
     limit_engine_error + stored_limit_order" where
  "transition_fill current from requested fill =
     (case fill of
        Some delta \<Rightarrow> if fill_allowed from requested then apply_fill current delta else Inl LE_FillMismatch
      | None \<Rightarrow> if fill_required from requested then Inl LE_FillMismatch else Inr current)"

text \<open>Rule 7.\<close>

definition fill_policy_check ::
  "stored_limit_order \<Rightarrow> order_status \<Rightarrow> fill_delta option \<Rightarrow> limit_engine_error + unit" where
  "fill_policy_check current effective fill =
     (case fill of
        None \<Rightarrow> Inr ()
      | Some delta \<Rightarrow>
          if effective = PartiallyFilled \<and> \<not> lo_allow_partial_fill (so_order current)
          then Inl LE_PartialFillNotAllowed
          else
            let consumed = fd_simulated_net_input delta in
            if consumed = 0 \<or> consumed < lo_min_fill (so_order current)
            then Inl LE_AmountBelowMinFill
            else Inr ())"

text \<open>Rules 8 and 9.\<close>

definition finish_transition ::
  "stored_limit_order \<Rightarrow> stored_limit_order \<Rightarrow> order_status \<Rightarrow> i64 \<Rightarrow>
     limit_engine_error + stored_limit_order" where
  "finish_transition current next effective at_ms =
     (let order = (so_order next)\<lparr>lo_status := effective\<rparr> in
      bindR (map_err map_domain_error (order_validate order at_ms)) (\<lambda>_.
      bindR (ok_or LE_ArithmeticOverflow (checked_add (so_version current) 1)) (\<lambda>version.
      bindR (ok_or LE_ArithmeticOverflow (checked_add (so_last_transition_seq current) 1)) (\<lambda>seq.
      Inr (next\<lparr>so_order := order, so_version := version, so_last_transition_seq := seq\<rparr>)))))"

definition apply_transition ::
  "stored_limit_order \<Rightarrow> order_status \<Rightarrow> fill_delta option \<Rightarrow> i64 \<Rightarrow>
     limit_engine_error + stored_limit_order" where
  "apply_transition current requested fill at_ms =
     (let from = lo_status (so_order current);
          expires = lo_expires_at_ms (so_order current);
          effective = coerced_target from requested (fill \<noteq> None) at_ms expires in
      bindR (validate_transition from effective) (\<lambda>_.
      if \<not> conservation_holds current then Inl LE_InvalidOrder
      else
        bindR (deadline_check effective at_ms expires) (\<lambda>_.
        bindR (transition_fill current from requested fill) (\<lambda>next.
        let remaining = lo_remaining_input (so_order next) in
        if requested = PartiallyFilled \<and> remaining = 0 then Inl LE_FillMismatch
        else if requested = Filled \<and> remaining \<noteq> 0 then Inl LE_FillMismatch
        else
          let effective = (if effective = Expired \<and> fill \<noteq> None \<and>
                              from \<in> {Executing, PartiallyFilled} \<and> remaining = 0
                           then Filled else effective) in
          bindR (fill_policy_check current effective fill) (\<lambda>_.
          finish_transition current next effective at_ms)))))"

section \<open>Event subjects\<close>

datatype event_subject =
    MarketPoolUpdated
  | MarketAssetUpdated
  | IntelFomoUpdated
  | IntelGmgnUpdated
  | IntelSocialUpdated
  | OrderCreated
  | OrderTriggered
  | OrderPartiallyFilled
  | OrderFilled
  | OrderCancelled
  | OrderExpired
  | OrderFailed
  | ExecutionStarted
  | ExecutionSigned
  | ExecutionSubmitted
  | ExecutionConfirmed
  | ExecutionFailed

definition event_subject_of :: "order_status \<Rightarrow> event_subject" where
  "event_subject_of s =
     (case s of
        Created \<Rightarrow> OrderCreated
      | Active \<Rightarrow> OrderTriggered
      | TriggerCandidate \<Rightarrow> OrderTriggered
      | Quoting \<Rightarrow> ExecutionStarted
      | Simulating \<Rightarrow> ExecutionStarted
      | Executing \<Rightarrow> ExecutionStarted
      | PartiallyFilled \<Rightarrow> OrderPartiallyFilled
      | Filled \<Rightarrow> OrderFilled
      | Cancelled \<Rightarrow> OrderCancelled
      | Expired \<Rightarrow> OrderExpired
      | FailedRetryable \<Rightarrow> OrderFailed
      | FailedFinal \<Rightarrow> OrderFailed)"

section \<open>What a transition does\<close>

lemma terminal_absorbing: "is_terminal s \<Longrightarrow> \<not> can_transition_to s t"
  by (cases s; cases t) (simp_all add: can_transition_to_def is_terminal_def)

lemma open_expires: "\<not> is_terminal s \<Longrightarrow> can_transition_to s Expired"
  by (cases s) (simp_all add: can_transition_to_def is_terminal_def)

lemma in_flight_fills: "s \<in> {Executing, PartiallyFilled} \<Longrightarrow> can_transition_to s Filled"
  by (auto simp: can_transition_to_def)

lemma executable_iff: "executable s \<longleftrightarrow> \<not> is_terminal s"
  by (cases s) (simp_all add: executable_def is_terminal_def)

lemma conservation_iff:
  "conservation_holds order \<longleftrightarrow>
     unat (so_filled_input order) + unat (lo_remaining_input (so_order order))
       = unat (aa_amount (lo_max_input (so_order order)))"
  by (auto simp: conservation_holds_def rust_arith)

definition consumed :: "fill_delta option \<Rightarrow> nat" where
  "consumed fill = (case fill of None \<Rightarrow> 0 | Some delta \<Rightarrow> unat (fd_simulated_net_input delta))"

lemma apply_fill_Inr:
  assumes "apply_fill order fill = Inr next"
  shows "unat (so_filled_input next) = unat (so_filled_input order) + consumed (Some fill)"
    and "unat (lo_remaining_input (so_order order)) = unat (lo_remaining_input (so_order next)) + consumed (Some fill)"
    and "so_order next = (so_order order)\<lparr>lo_remaining_input := fd_remaining_after fill\<rparr>"
    and "next = order\<lparr>so_filled_input := so_filled_input next, so_order := so_order next\<rparr>"
  using assms unfolding apply_fill_def consumed_def
  by (auto simp: Let_def result_iff rust_arith split: if_splits)

lemma transition_fill_Inr:
  assumes "transition_fill current from requested fill = Inr next"
  shows "unat (so_filled_input next) = unat (so_filled_input current) + consumed fill"
    and "unat (lo_remaining_input (so_order current)) = unat (lo_remaining_input (so_order next)) + consumed fill"
    and "so_order next = (so_order current)\<lparr>lo_remaining_input := lo_remaining_input (so_order next)\<rparr>"
    and "next = current\<lparr>so_filled_input := so_filled_input next, so_order := so_order next\<rparr>"
    and "fill \<noteq> None \<Longrightarrow> fill_allowed from requested"
proof -
  consider "fill = None" "next = current"
    | delta where "fill = Some delta" "fill_allowed from requested" "apply_fill current delta = Inr next"
    using assms by (auto simp: transition_fill_def split: option.splits if_splits)
  then have "unat (so_filled_input next) = unat (so_filled_input current) + consumed fill \<and>
      unat (lo_remaining_input (so_order current)) = unat (lo_remaining_input (so_order next)) + consumed fill \<and>
      so_order next = (so_order current)\<lparr>lo_remaining_input := lo_remaining_input (so_order next)\<rparr> \<and>
      next = current\<lparr>so_filled_input := so_filled_input next, so_order := so_order next\<rparr> \<and>
      (fill \<noteq> None \<longrightarrow> fill_allowed from requested)"
  proof cases
    case 2
    note f = apply_fill_Inr [OF 2(3)]
    from f(3) have "lo_remaining_input (so_order next) = fd_remaining_after delta" by simp
    with f 2 show ?thesis by simp
  qed (simp add: consumed_def)
  then show "unat (so_filled_input next) = unat (so_filled_input current) + consumed fill"
    "unat (lo_remaining_input (so_order current)) = unat (lo_remaining_input (so_order next)) + consumed fill"
    "so_order next = (so_order current)\<lparr>lo_remaining_input := lo_remaining_input (so_order next)\<rparr>"
    "next = current\<lparr>so_filled_input := so_filled_input next, so_order := so_order next\<rparr>"
    "fill \<noteq> None \<Longrightarrow> fill_allowed from requested" by blast+
qed

definition final_target ::
  "order_status \<Rightarrow> order_status \<Rightarrow> bool \<Rightarrow> i64 \<Rightarrow> i64 \<Rightarrow> u128 \<Rightarrow> order_status" where
  "final_target from requested has_fill at_ms expires_at_ms remaining =
     (let effective = coerced_target from requested has_fill at_ms expires_at_ms in
      if effective = Expired \<and> has_fill \<and> from \<in> {Executing, PartiallyFilled} \<and> remaining = 0
      then Filled else effective)"

lemma finish_transition_Inr:
  assumes "finish_transition current mid status at_ms = Inr next"
  shows "so_order next = (so_order mid)\<lparr>lo_status := status\<rparr>"
    and "order_validate (so_order next) at_ms = Inr ()"
    and "unat (so_version next) = unat (so_version current) + 1"
    and "unat (so_last_transition_seq next) = unat (so_last_transition_seq current) + 1"
    and "next = mid\<lparr>so_order := so_order next, so_version := so_version next,
        so_last_transition_seq := so_last_transition_seq next\<rparr>"
  using assms unfolding finish_transition_def Let_def
  by (auto simp: bindR_Inr_iff map_err_Inr_iff ok_or_Inr_iff checked_add_Some_iff)

lemma apply_transition_Inr:
  assumes "apply_transition current requested fill at_ms = Inr next"
  defines "from \<equiv> lo_status (so_order current)" and "expires \<equiv> lo_expires_at_ms (so_order current)"
  obtains mid where
    "can_transition_to from (coerced_target from requested (fill \<noteq> None) at_ms expires)"
    "conservation_holds current"
    "deadline_check (coerced_target from requested (fill \<noteq> None) at_ms expires) at_ms expires = Inr ()"
    "transition_fill current from requested fill = Inr mid"
    "requested = PartiallyFilled \<Longrightarrow> lo_remaining_input (so_order mid) \<noteq> 0"
    "requested = Filled \<Longrightarrow> lo_remaining_input (so_order mid) = 0"
    "fill_policy_check current (final_target from requested (fill \<noteq> None) at_ms expires
        (lo_remaining_input (so_order mid))) fill = Inr ()"
    "finish_transition current mid (final_target from requested (fill \<noteq> None) at_ms expires
        (lo_remaining_input (so_order mid))) at_ms = Inr next"
  using assms(1) unfolding apply_transition_def from_def expires_def final_target_def Let_def
    validate_transition_def
  by (auto simp: bindR_Inr_iff split: if_split_asm)

text \<open>
  The contract of a transition: the edge is one of the domain's, the ledger is advanced by the
  fill and stays balanced, the post-state is valid, and nothing of the order's identity changes.
\<close>

definition transition_ok ::
  "stored_limit_order \<Rightarrow> fill_delta option \<Rightarrow> i64 \<Rightarrow> stored_limit_order \<Rightarrow> bool" where
  "transition_ok current fill at_ms next \<longleftrightarrow>
     can_transition_to (lo_status (so_order current)) (lo_status (so_order next)) \<and>
     conservation_holds current \<and> conservation_holds next \<and>
     unat (so_filled_input next) = unat (so_filled_input current) + consumed fill \<and>
     order_validate (so_order next) at_ms = Inr () \<and>
     order_identity (so_order next) = order_identity (so_order current) \<and>
     unat (so_version next) = unat (so_version current) + 1 \<and>
     unat (so_last_transition_seq next) = unat (so_last_transition_seq current) + 1 \<and>
     so_order_idempotency_key next = so_order_idempotency_key current \<and>
     so_order_intent_id next = so_order_intent_id current \<and> so_nonce next = so_nonce current \<and>
     so_attempt_seq next = so_attempt_seq current \<and> so_published_seq next = so_published_seq current"

lemma final_target_edge:
  assumes "can_transition_to s (coerced_target s requested has_fill at_ms expires)"
  shows "can_transition_to s (final_target s requested has_fill at_ms expires remaining)"
  using assms in_flight_fills [of s] by (auto simp: final_target_def Let_def)

lemma apply_transition_ok:
  assumes "apply_transition current requested fill at_ms = Inr next"
  shows "transition_ok current fill at_ms next"
  using assms
proof (rule apply_transition_Inr)
  fix mid :: stored_limit_order
  let ?s = "lo_status (so_order current)" and ?x = "lo_expires_at_ms (so_order current)"
  let ?t = "final_target ?s requested (fill \<noteq> None) at_ms ?x (lo_remaining_input (so_order mid))"
  assume edge: "can_transition_to ?s (coerced_target ?s requested (fill \<noteq> None) at_ms ?x)"
    and cons: "conservation_holds current"
    and mid: "transition_fill current ?s requested fill = Inr mid"
    and fin: "finish_transition current mid ?t at_ms = Inr next"
  note m = transition_fill_Inr [OF mid] and f = finish_transition_Inr [OF fin]
  have fields: "so_filled_input next = so_filled_input mid"
    "so_order_idempotency_key next = so_order_idempotency_key mid"
    "so_order_intent_id next = so_order_intent_id mid" "so_nonce next = so_nonce mid"
    "so_attempt_seq next = so_attempt_seq mid" "so_published_seq next = so_published_seq mid"
    by (subst f(5), simp)+
  have mids: "so_order_idempotency_key mid = so_order_idempotency_key current"
    "so_order_intent_id mid = so_order_intent_id current" "so_nonce mid = so_nonce current"
    "so_attempt_seq mid = so_attempt_seq current" "so_published_seq mid = so_published_seq current"
    by (subst m(4), simp)+
  have ident: "order_identity (so_order mid) = order_identity (so_order current)"
    by (subst m(3)) simp
  have "lo_max_input (so_order mid) = lo_max_input (so_order current)"
    by (rule order_identity_cong(3) [OF ident])
  then have "conservation_holds next"
    using cons m(1,2) fields(1) by (simp add: conservation_iff f(1))
  moreover have "can_transition_to ?s (lo_status (so_order next))"
    using final_target_edge [OF edge] by (simp add: f(1))
  moreover have "order_identity (so_order next) = order_identity (so_order current)"
    using ident by (simp add: f(1))
  ultimately show ?thesis
    using cons m(1) f(2-4) fields mids by (simp add: transition_ok_def)
qed

section \<open>Histories\<close>

text \<open>A call of \<open>apply_transition\<close>, and the orders a history of calls leads to.\<close>

type_synonym transition_call = "order_status \<times> fill_delta option \<times> i64"

inductive order_history :: "stored_limit_order \<Rightarrow> transition_call list \<Rightarrow> stored_limit_order \<Rightarrow> bool" where
  start: "order_history order [] order"
| step: "order_history order (calls @ [(to, fill, at_ms)]) next"
    if "order_history order calls current" and "apply_transition current to fill at_ms = Inr next"

inductive_cases order_history_snocE: "order_history order (calls @ [c]) next"

definition total_consumed :: "transition_call list \<Rightarrow> nat" where
  "total_consumed calls = (\<Sum>(_, fill, _) \<leftarrow> calls. consumed fill)"

lemma order_history_invariant:
  assumes "order_history order calls next" and "conservation_holds order"
  shows "conservation_holds next \<and>
    unat (so_filled_input next) = unat (so_filled_input order) + total_consumed calls \<and>
    unat (so_version next) = unat (so_version order) + length calls \<and>
    unat (so_last_transition_seq next) = unat (so_last_transition_seq order) + length calls \<and>
    order_identity (so_order next) = order_identity (so_order order)"
  using assms
proof (induction rule: order_history.induct)
  case (step order calls current to fill at_ms "next")
  from apply_transition_ok [OF step(2)] step.IH [OF step.prems] show ?case
    by (simp add: transition_ok_def total_consumed_def)
qed (simp add: total_consumed_def)

lemma history_prefix_open:
  assumes "order_history order (calls @ [c]) next"
  obtains current where "order_history order calls current" "\<not> is_terminal (lo_status (so_order current))"
  using assms
proof (rule order_history_snocE)
  fix cur to fill at_ms
  assume "order_history order calls cur" "apply_transition cur to fill at_ms = Inr next"
  with that show thesis
    using apply_transition_ok terminal_absorbing by (metis transition_ok_def)
qed

section \<open>Fill policy\<close>

text \<open>An all-or-nothing order in flight fills completely or not at all.\<close>

lemma fill_policy_SomeD:
  "fill_policy_check current status (Some delta) = Inr u \<Longrightarrow>
     fd_simulated_net_input delta \<noteq> 0 \<and> lo_min_fill (so_order current) \<le> fd_simulated_net_input delta"
  by (auto simp: fill_policy_check_def Let_def not_less split: if_splits)

lemma all_or_nothing_fill:
  assumes "apply_transition current requested (Some delta) at_ms = Inr next"
    and "\<not> lo_allow_partial_fill (so_order current)" and "amounts_ok (so_order current)"
  shows "lo_status (so_order next) = Filled \<and> lo_remaining_input (so_order next) = 0"
  using assms(1)
proof (rule apply_transition_Inr)
  fix mid :: stored_limit_order
  let ?s = "lo_status (so_order current)" and ?x = "lo_expires_at_ms (so_order current)"
  let ?r = "lo_remaining_input (so_order mid)"
  let ?t = "final_target ?s requested (Some delta \<noteq> None) at_ms ?x ?r"
  assume edge: "can_transition_to ?s (coerced_target ?s requested (Some delta \<noteq> None) at_ms ?x)"
    and mid: "transition_fill current ?s requested (Some delta) = Inr mid"
    and pf: "requested = PartiallyFilled \<Longrightarrow> ?r \<noteq> 0"
    and policy: "fill_policy_check current ?t (Some delta) = Inr ()"
    and fin: "finish_transition current mid ?t at_ms = Inr next"
  note m = transition_fill_Inr [OF mid] and f = finish_transition_Inr [OF fin]
  have "executable ?s" using edge terminal_absorbing executable_iff by blast
  then have "lo_min_fill (so_order current) = lo_remaining_input (so_order current)"
    using assms(2,3) by (simp add: amounts_ok_def)
  then have "unat (lo_remaining_input (so_order current)) \<le> consumed (Some delta)"
    using fill_policy_SomeD [OF policy] by (simp add: consumed_def word_le_nat_alt)
  then have r: "?r = 0" using m(2) by (simp add: word_unat_eq_iff)
  with pf m(5) have "?s \<in> {Executing, PartiallyFilled}" "requested \<in> {Filled, Expired}"
    by (auto simp: fill_allowed_def fill_required_def)
  then have "?t = Filled" using r by (auto simp: final_target_def coerced_target_def)
  with r show ?thesis by (simp add: f(1))
qed

section \<open>Deadlines\<close>

text \<open>An open order can be expired once its deadline has passed.\<close>

lemma expire_succeeds:
  assumes "\<not> is_terminal (lo_status (so_order current))" and "conservation_holds current"
    and "order_static (so_order current)" and "lo_expires_at_ms (so_order current) \<le> at_ms"
    and "unat (so_version current) + 1 < 2 ^ 64" and "unat (so_last_transition_seq current) + 1 < 2 ^ 64"
  shows "\<exists>next. apply_transition current Expired None at_ms = Inr next \<and> lo_status (so_order next) = Expired \<and>
    lo_remaining_input (so_order next) = lo_remaining_input (so_order current)"
proof -
  let ?o = "(so_order current)\<lparr>lo_status := Expired\<rparr>"
  have "order_static ?o" using assms(3) order_identity_cong(1) [of ?o "so_order current"] by simp
  moreover have "amounts_ok ?o"
    using assms(2) by (auto simp: amounts_ok_def executable_def conservation_iff word_le_nat_alt)
  moreover have "time_ok ?o at_ms" using assms(4) by (simp add: time_ok_def expiry_gated_def)
  ultimately have "order_validate ?o at_ms = Inr ()" by (simp add: order_validate_Inr_iff)
  moreover have "can_transition_to (lo_status (so_order current)) Expired" by (rule open_expires [OF assms(1)])
  ultimately show ?thesis
    using assms(2,4-6)
    by (auto simp: apply_transition_def coerced_target_def validate_transition_def deadline_check_def
        transition_fill_def fill_required_def fill_policy_check_def finish_transition_def Let_def
        checked_add_def)
qed

text \<open>No open status but \<open>Executing\<close> outlives the deadline, and \<open>Expired\<close> never precedes it.\<close>

lemma transition_time:
  assumes "apply_transition current requested fill at_ms = Inr next"
  shows "expiry_gated (lo_status (so_order next)) \<Longrightarrow> at_ms < lo_expires_at_ms (so_order next)"
    and "lo_status (so_order next) = Expired \<Longrightarrow> lo_expires_at_ms (so_order next) \<le> at_ms"
proof -
  have "time_ok (so_order next) at_ms"
    using apply_transition_ok [OF assms] by (simp add: transition_ok_def order_validate_Inr_iff)
  then show "expiry_gated (lo_status (so_order next)) \<Longrightarrow> at_ms < lo_expires_at_ms (so_order next)"
    "lo_status (so_order next) = Expired \<Longrightarrow> lo_expires_at_ms (so_order next) \<le> at_ms"
    by (simp_all add: time_ok_def)
qed

text \<open>
  A partial fill requested past the deadline that consumes the whole remainder is rejected, not
  closed as \<open>Filled\<close>: rule 6 compares the remainder with the requested status before the
  redirection to \<open>Filled\<close> is reached.
\<close>

lemma late_completing_partial_rejected:
  assumes "lo_status (so_order current) \<in> {Executing, PartiallyFilled}" and "conservation_holds current"
    and "lo_expires_at_ms (so_order current) \<le> at_ms"
    and "fd_simulated_net_input delta = lo_remaining_input (so_order current)" and "fd_remaining_after delta = 0"
  shows "apply_transition current PartiallyFilled (Some delta) at_ms = Inl LE_FillMismatch"
proof -
  let ?r = "lo_remaining_input (so_order current)"
  have "checked_add (so_filled_input current) ?r = Some (aa_amount (lo_max_input (so_order current)))"
    using assms(2) by (simp add: conservation_holds_def)
  moreover from this have "checked_add (aa_amount (lo_max_input (so_order current))) 0
      = Some (aa_amount (lo_max_input (so_order current)))"
    by (simp add: rust_arith)
  moreover have "checked_sub ?r ?r = Some 0" by (simp add: rust_arith)
  ultimately have "apply_fill current delta = Inr (current\<lparr>so_filled_input := aa_amount (lo_max_input (so_order current)),
      so_order := (so_order current)\<lparr>lo_remaining_input := 0\<rparr>\<rparr>)"
    using assms(4,5) by (simp add: apply_fill_def Let_def)
  then show ?thesis
    using assms(1-3)
    by (auto simp: apply_transition_def coerced_target_def validate_transition_def can_transition_to_def
        deadline_check_def transition_fill_def fill_allowed_def Let_def)
qed

section \<open>Properties\<close>

definition sample_order :: "bool \<Rightarrow> u128 \<Rightarrow> order_status \<Rightarrow> limit_order" where
  "sample_order partial remaining status = \<lparr>lo_id = ''o'', lo_owner = ''u'', lo_wallet_ref = ''w'', lo_chain = Base,
     lo_token_in = sample_in, lo_token_out = sample_out, lo_side = Buy,
     lo_max_input = \<lparr>aa_asset = sample_in, aa_amount = 100\<rparr>, lo_remaining_input = remaining,
     lo_limit_price = sample_price, lo_risk = sample_risk, lo_allow_partial_fill = partial,
     lo_min_fill = (if partial then 10 else 100), lo_expires_at_ms = 2000, lo_status = status\<rparr>"

definition sample_stored :: "bool \<Rightarrow> u64 \<Rightarrow> u128 \<Rightarrow> order_status \<Rightarrow> stored_limit_order" where
  "sample_stored partial seq remaining status = \<lparr>so_schema_version = 1, so_version = seq,
     so_order = sample_order partial remaining status, so_order_intent_id = ''i'',
     so_order_idempotency_key = ''k'', so_nonce = 1, so_attempt_seq = 0, so_filled_input = 100 - remaining,
     so_last_transition_seq = seq, so_published_seq = 0, so_next_eligible_at_ms = None\<rparr>"

definition sample_fill :: "u128 \<Rightarrow> u128 \<Rightarrow> fill_delta" where
  "sample_fill amount after = \<lparr>fd_simulated_net_input = amount, fd_simulated_net_output = 1,
     fd_remaining_after = after\<rparr>"

lemmas order_eval = sample_order_def sample_stored_def sample_fill_def sample_in_def sample_out_def
  sample_price_def sample_risk_def apply_transition_def coerced_target_def validate_transition_def
  can_transition_to_def conservation_holds_def deadline_check_def is_terminal_def transition_fill_def
  fill_allowed_def fill_required_def apply_fill_def fill_policy_check_def finish_transition_def
  order_validate_def string_id_validate_def chain_validate_def asset_validate_def
  ensure_asset_address_def ws_defs validate_nonzero_def amounts_validate_def executable_def
  expiry_gated_def limit_price_validate_def price_assets_def risk_validate_def
  checked_add_def checked_sub_def Let_def

lemma sample_partial:
  "apply_transition (sample_stored True 5 100 Executing) PartiallyFilled (Some (sample_fill 40 60)) 1000
     = Inr (sample_stored True 6 60 PartiallyFilled)"
  by (simp add: order_eval)

lemma sample_complete:
  "apply_transition (sample_stored True 6 60 PartiallyFilled) Filled (Some (sample_fill 60 0)) 1500
     = Inr (sample_stored True 7 0 Filled)"
  by (simp add: order_eval)

lemma sample_full:
  "apply_transition (sample_stored False 5 100 Executing) Filled (Some (sample_fill 100 0)) 1500
     = Inr (sample_stored False 6 0 Filled)"
  by (simp add: order_eval)

text \<open>C37. An accepted transition yields a well-formed record: the status moves along an edge of the
  domain's table, the post-state passes the domain's validation at the time of the transition, the
  ledger stays balanced and advances by exactly the fill, version and transition sequence grow by
  one without wrapping, and the identity of the order, its keys, its nonce and its publication
  watermark are those of the record before.\<close>

theorem limit_transition_well_formed:
  assumes "apply_transition current requested fill at_ms = Inr next"
  shows "transition_ok current fill at_ms next"
  by (rule apply_transition_ok [OF assms])

theorem limit_transition_well_formed_witness:
  "transition_ok (sample_stored True 5 100 Executing) (Some (sample_fill 40 60)) 1000
     (sample_stored True 6 60 PartiallyFilled)"
  by (rule limit_transition_well_formed [OF sample_partial])

text \<open>C29. Over any history of accepted transitions no input is lost or spent twice: the filled
  amount is what it was plus the sum of all fills, filled and remaining amount add up to the
  maximum input of the order, and the version counts the transitions.\<close>

theorem limit_order_history_conserves:
  assumes "order_history order calls next" and "conservation_holds order"
  shows "unat (so_filled_input next) = unat (so_filled_input order) + total_consumed calls \<and>
    unat (so_filled_input next) + unat (lo_remaining_input (so_order next))
      = unat (aa_amount (lo_max_input (so_order order))) \<and>
    unat (so_version next) = unat (so_version order) + length calls"
  using order_history_invariant [OF assms] order_identity_cong(3) [of "so_order next" "so_order order"]
  by (auto simp: conservation_iff)

theorem limit_order_history_conserves_witness:
  "unat (so_filled_input (sample_stored True 7 0 Filled)) =
     unat (so_filled_input (sample_stored True 5 100 Executing)) +
     total_consumed [(PartiallyFilled, Some (sample_fill 40 60), 1000), (Filled, Some (sample_fill 60 0), 1500)]"
proof -
  have "order_history (sample_stored True 5 100 Executing)
      ([(PartiallyFilled, Some (sample_fill 40 60), 1000)] @ [(Filled, Some (sample_fill 60 0), 1500)])
      (sample_stored True 7 0 Filled)"
    using order_history.step [OF order_history.step [OF order_history.start sample_partial] sample_complete]
    by simp
  moreover have "conservation_holds (sample_stored True 5 100 Executing)"
    by (simp add: order_eval)
  ultimately show ?thesis using limit_order_history_conserves by fastforce
qed

text \<open>Terminal states are absorbing: a filled, cancelled, expired or finally failed order
  answers every requested status, with or without a fill, with \<open>InvalidTransition\<close>.\<close>

theorem limit_order_terminal_absorbing:
  assumes "is_terminal (lo_status (so_order current))"
  shows "apply_transition current requested fill at_ms = Inl LE_InvalidTransition"
  using assms terminal_absorbing [OF assms]
  by (auto simp: apply_transition_def validate_transition_def Let_def)

theorem limit_order_terminal_absorbing_witness:
  "apply_transition (sample_stored True 7 0 Filled) Active None 1000 = Inl LE_InvalidTransition"
  by (rule limit_order_terminal_absorbing) (simp add: sample_stored_def sample_order_def is_terminal_def)

text \<open>No open order is stuck past its deadline: whatever open status it has, a balanced,
  statically valid record below the largest version can be moved to \<open>Expired\<close> at any time from
  its deadline on, and keeps what remains of it.\<close>

theorem limit_order_can_expire:
  assumes "\<not> is_terminal (lo_status (so_order current))" and "conservation_holds current"
    and "order_static (so_order current)" and "lo_expires_at_ms (so_order current) \<le> at_ms"
    and "unat (so_version current) + 1 < 2 ^ 64" and "unat (so_last_transition_seq current) + 1 < 2 ^ 64"
  shows "\<exists>next. apply_transition current Expired None at_ms = Inr next \<and>
    lo_status (so_order next) = Expired \<and>
    lo_remaining_input (so_order next) = lo_remaining_input (so_order current)"
  by (rule expire_succeeds [OF assms])

theorem limit_order_can_expire_witness:
  "\<exists>next. apply_transition (sample_stored True 5 60 Quoting) Expired None 2000 = Inr next \<and>
    lo_status (so_order next) = Expired"
proof -
  have "order_static (so_order (sample_stored True 5 60 Quoting))"
    by (simp add: order_static_def order_eval)
  with limit_order_can_expire [of "sample_stored True 5 60 Quoting" 2000] show ?thesis
    by (auto simp: sample_stored_def sample_order_def is_terminal_def conservation_holds_def checked_add_def)
qed

text \<open>C38. An all-or-nothing order that is in a consistent state never fills partially: a transition
  that carries a fill and is accepted consumes all that remains and leaves the order \<open>Filled\<close>.\<close>

theorem limit_order_all_or_nothing:
  assumes "apply_transition current requested (Some delta) at_ms = Inr next"
    and "\<not> lo_allow_partial_fill (so_order current)" and "amounts_ok (so_order current)"
  shows "lo_status (so_order next) = Filled \<and> lo_remaining_input (so_order next) = 0"
  by (rule all_or_nothing_fill [OF assms])

theorem limit_order_all_or_nothing_witness:
  "apply_transition (sample_stored False 5 100 Executing) Filled (Some (sample_fill 100 0)) 1500
     = Inr (sample_stored False 6 0 Filled) \<and> lo_status (so_order (sample_stored False 6 0 Filled)) = Filled"
proof -
  have "\<not> lo_allow_partial_fill (so_order (sample_stored False 5 100 Executing))"
    "amounts_ok (so_order (sample_stored False 5 100 Executing))"
    by (simp_all add: sample_stored_def sample_order_def amounts_ok_def)
  from limit_order_all_or_nothing [OF sample_full this] sample_full show ?thesis by simp
qed

end
