(* ===== verification/Limit_Store.thy ===== *)
theory Limit_Store
  imports Limit_Fsm "HOL-Library.AList" "HOL-Library.List_Lexorder" "HOL-Library.Char_ord"
begin

text \<open>
  Persistence of limit orders: the trait \<open>LimitOrderStore\<close> and \<open>InMemoryLimitOrderStore\<close> of
  \<open>crates/limit-engine/src/store.rs\<close>. A hash map is an association list, read with \<open>map_of\<close>.
  The mutex makes every method one atomic step; a poisoned lock, its only other outcome, is not
  modelled. \<open>&self\<close> methods that change the store return it updated.

  The locale \<open>order_store\<close> is the trait with the laws its documentation states; the
  in-memory store interprets it.
\<close>

section \<open>The in-memory store\<close>

datatype create_outcome = CreateCreated stored_limit_order | CreateExisting stored_limit_order

datatype append_outcome = Applied stored_limit_order | AlreadyApplied stored_limit_order

type_synonym transition_log = "(order_transition \<times> stored_limit_order) list"

record limit_store =
  ls_orders :: "(order_id \<times> stored_limit_order) list"
  ls_baseline :: "(order_id \<times> stored_limit_order) list"
  ls_by_idempotency :: "(idempotency_key \<times> order_id) list"
  ls_transitions :: "(order_id \<times> transition_log) list"

definition store_new :: limit_store where
  "store_new = \<lparr>ls_orders = [], ls_baseline = [], ls_by_idempotency = [], ls_transitions = []\<rparr>"

definition creation_order_id :: "idempotency_key \<Rightarrow> limit_engine_error + order_id" where
  "creation_order_id key =
     map_err (\<lambda>_. LE_StoreInvalid) (string_id_new ''order_id'' (''mem-'' @ key))"

definition store_create ::
  "limit_store \<Rightarrow> stored_limit_order \<Rightarrow> limit_store \<times> (limit_engine_error + create_outcome)" where
  "store_create st order =
     (if \<not> conservation_holds order then (st, Inl LE_InvalidOrder)
      else case map_of (ls_by_idempotency st) (so_order_idempotency_key order) of
        Some existing_id \<Rightarrow>
          (st,
           bindR (ok_or LE_StoreInvalid (map_of (ls_orders st) existing_id)) (\<lambda>existing.
           bindR (ok_or LE_StoreInvalid (map_of (ls_baseline st) existing_id)) (\<lambda>baseline.
           if baseline \<noteq> order then Inl LE_IdempotencyConflict
           else Inr (CreateExisting existing))))
      | None \<Rightarrow>
          let order_id = lo_id (so_order order) in
          if map_of (ls_orders st) order_id \<noteq> None then (st, Inl LE_IdempotencyConflict)
          else
            (st\<lparr>ls_baseline := AList.update order_id order (ls_baseline st),
                ls_by_idempotency :=
                  AList.update (so_order_idempotency_key order) order_id (ls_by_idempotency st),
                ls_orders := AList.update order_id order (ls_orders st)\<rparr>,
             Inr (CreateCreated order)))"

definition store_load :: "limit_store \<Rightarrow> order_id \<Rightarrow> stored_limit_order option" where
  "store_load st order_id = map_of (ls_orders st) order_id"

definition store_log :: "limit_store \<Rightarrow> order_id \<Rightarrow> transition_log" where
  "store_log st order_id =
     (case map_of (ls_transitions st) order_id of Some log \<Rightarrow> log | None \<Rightarrow> [])"

definition append_transition ::
  "limit_store \<Rightarrow> u64 \<Rightarrow> order_transition \<Rightarrow> stored_limit_order \<Rightarrow>
     limit_store \<times> (limit_engine_error + append_outcome)" where
  "append_transition st expected_version transition next =
     (case map_of (ls_orders st) (ot_order_id transition) of
        None \<Rightarrow> (st, Inl LE_StoreInvalid)
      | Some current \<Rightarrow>
          if ot_transition_seq transition \<le> so_last_transition_seq current
          then (st, Inr (AlreadyApplied current))
          else if expected_version \<noteq> so_version current then (st, Inl LE_PersistenceConflict)
          else case checked_add (so_last_transition_seq current) 1 of
            None \<Rightarrow> (st, Inl LE_StoreInvalid)
          | Some expected_seq \<Rightarrow>
              if ot_transition_seq transition \<noteq> expected_seq then (st, Inl LE_StoreInvalid)
              else if lo_id (so_order next) \<noteq> ot_order_id transition then (st, Inl LE_StoreInvalid)
              else if ot_from transition \<noteq> lo_status (so_order current) then (st, Inl LE_StoreInvalid)
              else
                case apply_transition current (ot_to transition) (ot_fill transition) (ot_at_ms transition) of
                  Inl _ \<Rightarrow> (st, Inl LE_StoreInvalid)
                | Inr derived \<Rightarrow>
                    if derived \<noteq> next then (st, Inl LE_StoreInvalid)
                    else
                      (st\<lparr>ls_transitions :=
                            AList.update (ot_order_id transition)
                              (store_log st (ot_order_id transition) @ [(transition, next)])
                              (ls_transitions st),
                          ls_orders := AList.update (ot_order_id transition) next (ls_orders st)\<rparr>,
                       Inr (Applied next)))"

text \<open>The state just before \<open>from_seq\<close>, and the replay of the rest of the log.\<close>

definition replay_start ::
  "stored_limit_order \<Rightarrow> transition_log \<Rightarrow> u64 \<Rightarrow> limit_engine_error + stored_limit_order" where
  "replay_start baseline log from_seq =
     (if from_seq = 0 then Inr baseline
      else case List.find (\<lambda>(transition, _). saturating_add (ot_transition_seq transition) 1 = from_seq) log of
        Some (_, next) \<Rightarrow> Inr next
      | None \<Rightarrow>
          (case log of
             [] \<Rightarrow> Inr baseline
           | (first, _) # _ \<Rightarrow>
               if from_seq \<le> ot_transition_seq first then Inr baseline
               else Inl LE_RecoveryInconsistent))"

fun replay_steps :: "stored_limit_order \<Rightarrow> transition_log \<Rightarrow> limit_engine_error + stored_limit_order" where
  "replay_steps state [] = Inr state"
| "replay_steps state ((transition, expected) # log) =
     bindR (apply_transition state (ot_to transition) (ot_fill transition) (ot_at_ms transition)) (\<lambda>state.
     if state \<noteq> expected then Inl LE_RecoveryInconsistent
     else replay_steps state log)"

definition replay_from ::
  "limit_store \<Rightarrow> order_id \<Rightarrow> u64 \<Rightarrow> limit_engine_error + stored_limit_order" where
  "replay_from st order_id from_seq =
     bindR (ok_or LE_StoreInvalid (map_of (ls_baseline st) order_id)) (\<lambda>baseline.
     let log = store_log st order_id in
     bindR (replay_start baseline log from_seq) (\<lambda>state.
     replay_steps state (filter (\<lambda>(transition, _). from_seq \<le> ot_transition_seq transition) log)))"

definition list_open :: "limit_store \<Rightarrow> stored_limit_order list" where
  "list_open st =
     sort_key (\<lambda>o1. lo_id (so_order o1))
       (filter (\<lambda>o1. \<not> is_terminal (lo_status (so_order o1))) (map snd (ls_orders st)))"

section \<open>The invariant\<close>

text \<open>A log that leads from the state at creation to the current state, without gaps.\<close>

fun log_ok :: "stored_limit_order \<Rightarrow> transition_log \<Rightarrow> stored_limit_order \<Rightarrow> bool" where
  "log_ok state [] current \<longleftrightarrow> current = state"
| "log_ok state ((t, next) # log) current \<longleftrightarrow>
     unat (ot_transition_seq t) = unat (so_last_transition_seq state) + 1 \<and>
     apply_transition state (ot_to t) (ot_fill t) (ot_at_ms t) = Inr next \<and> log_ok next log current"

definition order_ok :: "limit_store \<Rightarrow> order_id \<Rightarrow> stored_limit_order \<Rightarrow> bool" where
  "order_ok st i current \<longleftrightarrow>
     lo_id (so_order current) = i \<and>
     (\<exists>b. map_of (ls_baseline st) i = Some b \<and> conservation_holds b \<and> log_ok b (store_log st i) current)"

definition store_inv :: "limit_store \<Rightarrow> bool" where
  "store_inv st \<longleftrightarrow>
     distinct (map fst (ls_orders st)) \<and>
     (\<forall>i current. map_of (ls_orders st) i = Some current \<longrightarrow> order_ok st i current) \<and>
     (\<forall>i. map_of (ls_orders st) i = None \<longrightarrow> map_of (ls_baseline st) i = None \<and> map_of (ls_transitions st) i = None) \<and>
     (\<forall>k i. map_of (ls_by_idempotency st) k = Some i \<longrightarrow>
        (\<exists>b. map_of (ls_baseline st) i = Some b \<and> so_order_idempotency_key b = k \<and> map_of (ls_orders st) i \<noteq> None))"

lemma log_ok_snoc:
  "log_ok b (log @ [(t, next)]) current \<longleftrightarrow>
     (\<exists>mid. log_ok b log mid \<and> unat (ot_transition_seq t) = unat (so_last_transition_seq mid) + 1 \<and>
        apply_transition mid (ot_to t) (ot_fill t) (ot_at_ms t) = Inr next \<and> current = next)"
  by (induction b log current rule: log_ok.induct) auto

lemma store_log_update [simp]:
  "store_log (st\<lparr>ls_transitions := AList.update k log (ls_transitions st)\<rparr>) j =
     (if j = k then log else store_log st j)"
  "store_log (st\<lparr>ls_orders := orders\<rparr>) j = store_log st j"
  "store_log (st\<lparr>ls_baseline := baseline\<rparr>) j = store_log st j"
  "store_log (st\<lparr>ls_by_idempotency := keys\<rparr>) j = store_log st j"
  by (simp_all add: store_log_def)

lemma create_cases [consumes 1, case_names rejected existing created]:
  assumes "store_create st order = (st', r)"
  obtains e where "st' = st" "r = Inl e"
    | i existing where "map_of (ls_by_idempotency st) (so_order_idempotency_key order) = Some i"
      "map_of (ls_orders st) i = Some existing" "map_of (ls_baseline st) i = Some order"
      "st' = st" "r = Inr (CreateExisting existing)"
    | "conservation_holds order" "map_of (ls_by_idempotency st) (so_order_idempotency_key order) = None"
      "map_of (ls_orders st) (lo_id (so_order order)) = None" "r = Inr (CreateCreated order)"
      "st' = st\<lparr>ls_baseline := AList.update (lo_id (so_order order)) order (ls_baseline st),
        ls_by_idempotency := AList.update (so_order_idempotency_key order) (lo_id (so_order order)) (ls_by_idempotency st),
        ls_orders := AList.update (lo_id (so_order order)) order (ls_orders st)\<rparr>"
proof (cases "map_of (ls_by_idempotency st) (so_order_idempotency_key order)")
  case None
  show ?thesis
  proof (cases "conservation_holds order \<and> map_of (ls_orders st) (lo_id (so_order order)) = None")
    case True
    with None assms show ?thesis by (intro that(3)) (simp_all add: store_create_def Let_def)
  next
    case False
    with None assms have "st' = st \<and> (\<exists>e. r = Inl e)"
      by (auto simp: store_create_def Let_def split: if_splits)
    then show ?thesis using that(1) by blast
  qed
next
  case (Some i)
  have eq: "st' = st" "r = (if \<not> conservation_holds order then Inl LE_InvalidOrder
      else bindR (ok_or LE_StoreInvalid (map_of (ls_orders st) i)) (\<lambda>existing.
           bindR (ok_or LE_StoreInvalid (map_of (ls_baseline st) i)) (\<lambda>baseline.
           if baseline \<noteq> order then Inl LE_IdempotencyConflict else Inr (CreateExisting existing))))"
    using assms Some by (auto simp: store_create_def split: if_splits)
  show ?thesis
  proof (cases r)
    case (Inl e)
    with eq(1) that(1) show ?thesis by blast
  next
    case (Inr out)
    with eq(2) [symmetric] obtain existing where "map_of (ls_orders st) i = Some existing"
      "map_of (ls_baseline st) i = Some order" "out = CreateExisting existing"
      by (auto simp: bindR_Inr_iff ok_or_Inr_iff split: if_splits)
    with that(2) [OF Some] eq(1) Inr show ?thesis by blast
  qed
qed

lemma append_cases [consumes 1, case_names rejected already applied]:
  assumes "append_transition st v t next = (st', r)"
  obtains e where "st' = st" "r = Inl e"
    | current where "map_of (ls_orders st) (ot_order_id t) = Some current"
      "ot_transition_seq t \<le> so_last_transition_seq current" "st' = st" "r = Inr (AlreadyApplied current)"
    | current where "map_of (ls_orders st) (ot_order_id t) = Some current" "v = so_version current"
      "unat (ot_transition_seq t) = unat (so_last_transition_seq current) + 1"
      "lo_id (so_order next) = ot_order_id t" "ot_from t = lo_status (so_order current)"
      "apply_transition current (ot_to t) (ot_fill t) (ot_at_ms t) = Inr next" "r = Inr (Applied next)"
      "st' = st\<lparr>ls_transitions := AList.update (ot_order_id t) (store_log st (ot_order_id t) @ [(t, next)])
          (ls_transitions st), ls_orders := AList.update (ot_order_id t) next (ls_orders st)\<rparr>"
  using assms unfolding append_transition_def
  by (auto simp: rust_arith split: if_splits option.splits sum.splits)

lemma store_inv_order: "store_inv st \<Longrightarrow> map_of (ls_orders st) i = Some c \<Longrightarrow> order_ok st i c"
  unfolding store_inv_def by blast

lemma store_inv_key:
  "store_inv st \<Longrightarrow> map_of (ls_by_idempotency st) k = Some i \<Longrightarrow>
     \<exists>b. map_of (ls_baseline st) i = Some b \<and> so_order_idempotency_key b = k \<and> map_of (ls_orders st) i \<noteq> None"
  unfolding store_inv_def by blast

lemma store_new_inv: "store_inv store_new"
  by (simp add: store_inv_def store_new_def)

lemma create_inv:
  assumes inv: "store_inv st" and create: "store_create st order = (st', r)"
  shows "store_inv st'"
  using create
proof (cases rule: create_cases)
  case created
  let ?i = "lo_id (so_order order)"
  have none: "map_of (ls_transitions st) ?i = None" using inv created(3) by (simp add: store_inv_def)
  then have log: "store_log st ?i = []" by (simp add: store_log_def)
  have "order_ok st' j current" if "map_of (ls_orders st') j = Some current" for j current
  proof (cases "j = ?i")
    case True
    with that created(1,5) log show ?thesis by (simp add: order_ok_def)
  next
    case False
    with that created(5) have "map_of (ls_orders st) j = Some current" by simp
    with inv have "order_ok st j current" by (rule store_inv_order)
    with False created(5) show ?thesis by (simp add: order_ok_def)
  qed
  moreover have "map_of (ls_baseline st') j = None \<and> map_of (ls_transitions st') j = None"
    if "map_of (ls_orders st') j = None" for j
    using that inv created(5) by (simp add: store_inv_def split: if_splits)
  moreover have "\<exists>b. map_of (ls_baseline st') j = Some b \<and> so_order_idempotency_key b = k \<and>
      map_of (ls_orders st') j \<noteq> None" if k: "map_of (ls_by_idempotency st') k = Some j" for k j
  proof (cases "k = so_order_idempotency_key order")
    case True
    with k created(5) show ?thesis by simp
  next
    case False
    with k created(5) have "map_of (ls_by_idempotency st) k = Some j" by simp
    with inv obtain b where "map_of (ls_baseline st) j = Some b" "so_order_idempotency_key b = k"
      "map_of (ls_orders st) j \<noteq> None" using store_inv_key by blast
    with created(3,5) show ?thesis by auto
  qed
  moreover have "distinct (map fst (ls_orders st'))"
    using inv created(5) by (simp add: store_inv_def distinct_update)
  ultimately show ?thesis by (simp add: store_inv_def)
qed (use inv in simp_all)

lemma append_inv:
  assumes inv: "store_inv st" and app: "append_transition st v t next = (st', r)"
  shows "store_inv st'"
  using app
proof (cases rule: append_cases)
  case (applied current)
  let ?i = "ot_order_id t"
  from inv applied(1) obtain b where b: "map_of (ls_baseline st) ?i = Some b" "conservation_holds b"
    "log_ok b (store_log st ?i) current" using store_inv_order [OF inv applied(1)] by (auto simp: order_ok_def)
  have "order_ok st' j c" if "map_of (ls_orders st') j = Some c" for j c
  proof (cases "j = ?i")
    case True
    have "log_ok b (store_log st ?i @ [(t, next)]) next"
      using b(3) applied(3,6) by (auto simp: log_ok_snoc)
    with True that b applied(4,8) show ?thesis by (simp add: order_ok_def)
  next
    case False
    with that applied(8) have "map_of (ls_orders st) j = Some c" by simp
    with inv have "order_ok st j c" by (rule store_inv_order)
    with False applied(8) show ?thesis by (simp add: order_ok_def)
  qed
  moreover have "map_of (ls_baseline st') j = None \<and> map_of (ls_transitions st') j = None"
    if "map_of (ls_orders st') j = None" for j
    using that inv applied(8) by (simp add: store_inv_def split: if_splits)
  moreover have "\<exists>b. map_of (ls_baseline st') j = Some b \<and> so_order_idempotency_key b = k \<and>
      map_of (ls_orders st') j \<noteq> None" if "map_of (ls_by_idempotency st') k = Some j" for k j
    using that store_inv_key [OF inv] applied(8) by fastforce
  moreover have "distinct (map fst (ls_orders st'))"
    using inv applied(8) by (simp add: store_inv_def distinct_update)
  ultimately show ?thesis by (simp add: store_inv_def)
qed (use inv in simp_all)

section \<open>Replay\<close>

lemma log_ok_last:
  "log_ok b log current \<Longrightarrow> unat (so_last_transition_seq current) = unat (so_last_transition_seq b) + length log"
  by (induction b log current rule: log_ok.induct)
    (auto dest!: apply_transition_ok simp: transition_ok_def)

lemma log_ok_nth:
  "log_ok b log current \<Longrightarrow> k < length log \<Longrightarrow>
     unat (ot_transition_seq (fst (log ! k))) = unat (so_last_transition_seq b) + k + 1"
proof (induction b log current arbitrary: k rule: log_ok.induct)
  case (2 state t "next" log current)
  from 2(2) have "unat (so_last_transition_seq next) = unat (so_last_transition_seq state) + 1"
    by (auto dest!: apply_transition_ok simp: transition_ok_def)
  with 2 show ?case by (cases k) auto
qed simp

lemma replay_steps_log_ok: "log_ok b log current \<Longrightarrow> replay_steps b log = Inr current"
  by (induction b log current rule: log_ok.induct) auto

lemma log_ok_append:
  "log_ok b (log @ log') current \<longleftrightarrow> (\<exists>mid. log_ok b log mid \<and> log_ok mid log' current)"
  by (induction b log current rule: log_ok.induct) auto

lemma filter_suffix:
  assumes "\<And>j. j < length xs \<Longrightarrow> P (xs ! j) \<longleftrightarrow> m \<le> j"
  shows "filter P xs = drop m xs"
proof -
  have "filter P (take m xs) = []"
    using assms by (auto simp: filter_empty_conv in_set_conv_nth)
  moreover have "filter P (drop m xs) = drop m xs"
    using assms by (auto simp: filter_id_conv in_set_conv_nth)
  ultimately show ?thesis by (metis append_Nil append_take_drop_id filter_append)
qed

lemma log_ok_split:
  assumes "log_ok b log current" and "k < length log"
  shows "log_ok (snd (log ! k)) (drop (Suc k) log) current"
proof -
  obtain t n where k: "log ! k = (t, n)" by (cases "log ! k")
  have "(take k log @ [(t, n)]) @ drop (Suc k) log = log"
    using id_take_nth_drop [OF assms(2)] k by simp
  then have "log_ok b ((take k log @ [(t, n)]) @ drop (Suc k) log) current" using assms(1) by simp
  then obtain mid where "log_ok b (take k log @ [(t, n)]) mid" "log_ok mid (drop (Suc k) log) current"
    unfolding log_ok_append by blast
  with k show ?thesis by (auto simp: log_ok_snoc)
qed

lemma replay_current:
  assumes inv: "store_inv st" and load: "map_of (ls_orders st) i = Some current"
    and last: "unat (so_last_transition_seq current) + 1 < 2 ^ 64"
    and seq: "unat from_seq \<le> unat (so_last_transition_seq current) + 1"
  shows "replay_from st i from_seq = Inr current"
proof -
  define log where "log = store_log st i"
  from store_inv_order [OF inv load] obtain b where
    b: "map_of (ls_baseline st) i = Some b" "log_ok b log current" by (auto simp: order_ok_def log_def)
  define S where "S = unat (so_last_transition_seq b)"
  have n: "unat (so_last_transition_seq current) = S + length log" using log_ok_last [OF b(2)] by (simp add: S_def)
  have nth: "unat (ot_transition_seq (fst (log ! k))) = S + k + 1" if "k < length log" for k
    using log_ok_nth [OF b(2) that] by (simp add: S_def)
  have sat: "saturating_add (ot_transition_seq (fst (log ! k))) 1 = from_seq \<longleftrightarrow> unat from_seq = S + k + 2"
    if "k < length log" for k
    using nth [OF that] that n last
    by (auto simp: saturating_add_def word_unat_eq_iff unat_add_no_overflow)
  have rest: "filter (\<lambda>(t, _). from_seq \<le> ot_transition_seq t) log = drop (unat from_seq - (S + 1)) log"
    by (rule filter_suffix) (auto simp: split_beta word_le_nat_alt nth)
  show ?thesis
  proof (cases "unat from_seq \<le> S + 1")
    case True
    have "saturating_add (ot_transition_seq (fst x)) 1 \<noteq> from_seq" if "x \<in> set log" for x
    proof -
      from that obtain k where "k < length log" "x = log ! k" by (auto simp: in_set_conv_nth)
      with sat [of k] True show ?thesis by simp
    qed
    then have "List.find (\<lambda>(t, _). saturating_add (ot_transition_seq t) 1 = from_seq) log = None"
      unfolding find_None_iff split_beta by blast
    moreover have "from_seq \<le> ot_transition_seq (fst (hd log))" if "log \<noteq> []"
      using True nth [of 0] that by (simp add: word_le_nat_alt hd_conv_nth)
    ultimately have "replay_start b log from_seq = Inr b"
      by (auto simp: replay_start_def split: list.splits)
    then show ?thesis
      using True rest b replay_steps_log_ok [OF b(2)] by (simp add: replay_from_def log_def [symmetric])
  next
    case False
    define k where "k = unat from_seq - (S + 2)"
    have k: "k < length log" "unat from_seq = S + k + 2" using False seq n by (auto simp: k_def)
    have "saturating_add (ot_transition_seq (fst (log ! k))) 1 = from_seq" using sat k by simp
    moreover have "saturating_add (ot_transition_seq (fst (log ! j))) 1 \<noteq> from_seq" if "j < k" for j
      using sat [of j] k that by simp
    ultimately have "List.find (\<lambda>(t, _). saturating_add (ot_transition_seq t) 1 = from_seq) log = Some (log ! k)"
      unfolding find_Some_iff split_beta using k(1) by blast
    moreover have "from_seq \<noteq> 0" using k(2) by auto
    ultimately have "replay_start b log from_seq = Inr (snd (log ! k))"
      by (simp add: replay_start_def split_beta)
    then show ?thesis
      using rest k(2) b(1) replay_steps_log_ok [OF log_ok_split [OF b(2) k(1)]]
      by (simp add: replay_from_def log_def [symmetric])
  qed
qed

section \<open>The contract of a store\<close>

text \<open>
  The trait \<open>LimitOrderStore\<close>: \<open>create\<close> is idempotent by key, \<open>append\<close> is a compare-and-swap
  on the version that does not apply a sequence twice, \<open>replay\<close> rebuilds the stored state from
  the log and \<open>open_orders\<close> lists what is not terminal.
\<close>

locale order_store =
  fixes inv :: "'s \<Rightarrow> bool"
    and create :: "'s \<Rightarrow> stored_limit_order \<Rightarrow> 's \<times> (limit_engine_error + create_outcome)"
    and load :: "'s \<Rightarrow> order_id \<Rightarrow> stored_limit_order option"
    and append :: "'s \<Rightarrow> u64 \<Rightarrow> order_transition \<Rightarrow> stored_limit_order \<Rightarrow> 's \<times> (limit_engine_error + append_outcome)"
    and replay :: "'s \<Rightarrow> order_id \<Rightarrow> u64 \<Rightarrow> limit_engine_error + stored_limit_order"
    and open_orders :: "'s \<Rightarrow> stored_limit_order list"
  assumes inv_create: "inv st \<Longrightarrow> inv (fst (create st order))"
    and inv_append: "inv st \<Longrightarrow> inv (fst (append st v t next))"
    and create_created: "\<lbrakk>inv st; snd (create st order) = Inr (CreateCreated r)\<rbrakk> \<Longrightarrow>
      r = order \<and> load st (lo_id (so_order order)) = None \<and>
      load (fst (create st order)) = (load st)(lo_id (so_order order) \<mapsto> order)"
    and create_other: "\<lbrakk>inv st; \<nexists>r. snd (create st order) = Inr (CreateCreated r)\<rbrakk> \<Longrightarrow> fst (create st order) = st"
    and create_again: "\<lbrakk>inv st; snd (create st order) = Inr outcome\<rbrakk> \<Longrightarrow>
      \<exists>i current. load (fst (create st order)) i = Some current \<and> lo_id (so_order current) = i \<and>
        create (fst (create st order)) order = (fst (create st order), Inr (CreateExisting current))"
    and append_applied: "\<lbrakk>inv st; snd (append st v t next) = Inr (Applied r)\<rbrakk> \<Longrightarrow>
      r = next \<and> load (fst (append st v t next)) = (load st)(ot_order_id t \<mapsto> next) \<and>
      (\<exists>current. load st (ot_order_id t) = Some current \<and> so_version current = v \<and>
        unat (ot_transition_seq t) = unat (so_last_transition_seq current) + 1 \<and>
        apply_transition current (ot_to t) (ot_fill t) (ot_at_ms t) = Inr next)"
    and append_other: "\<lbrakk>inv st; \<nexists>r. snd (append st v t next) = Inr (Applied r)\<rbrakk> \<Longrightarrow> fst (append st v t next) = st"
    and append_replayed: "\<lbrakk>inv st; load st (ot_order_id t) = Some current;
        ot_transition_seq t \<le> so_last_transition_seq current\<rbrakk> \<Longrightarrow>
      append st v t next = (st, Inr (AlreadyApplied current))"
    and append_stale: "\<lbrakk>inv st; load st (ot_order_id t) = Some current;
        so_last_transition_seq current < ot_transition_seq t; v \<noteq> so_version current\<rbrakk> \<Longrightarrow>
      append st v t next = (st, Inl LE_PersistenceConflict)"
    and replay_load: "\<lbrakk>inv st; load st i = Some current; unat (so_last_transition_seq current) + 1 < 2 ^ 64;
        unat from_seq \<le> unat (so_last_transition_seq current) + 1\<rbrakk> \<Longrightarrow> replay st i from_seq = Inr current"
    and open_orders: "inv st \<Longrightarrow> set (open_orders st) = {r. \<exists>i. load st i = Some r \<and> \<not> is_terminal (lo_status (so_order r))}"
begin

text \<open>An append under a version that is not the stored one never changes the store, and which answer it gets.\<close>

lemma append_outdated:
  assumes "inv st" and "load st (ot_order_id t) = Some current" and "so_version current \<noteq> v"
  shows "append st v t next = (st, if ot_transition_seq t \<le> so_last_transition_seq current
    then Inr (AlreadyApplied current) else Inl LE_PersistenceConflict)"
  using append_replayed [OF assms(1,2)] append_stale [OF assms(1,2)] assms(3) by (auto simp: not_le)

end

lemma create_again_existing:
  assumes inv: "store_inv st" and "store_create st order = (st', Inr outcome)"
  shows "\<exists>i current. store_load st' i = Some current \<and> lo_id (so_order current) = i \<and>
    store_create st' order = (st', Inr (CreateExisting current))"
  using assms(2)
proof (cases rule: create_cases)
  case (existing i existing)
  have "conservation_holds order" "lo_id (so_order existing) = i"
    using store_inv_order [OF inv existing(2)] existing(3) by (auto simp: order_ok_def)
  with existing show ?thesis by (auto simp: store_create_def store_load_def)
next
  case created
  then show ?thesis by (auto simp: store_create_def store_load_def)
qed simp

lemma list_open_set:
  assumes "store_inv st"
  shows "set (list_open st) = {r. \<exists>i. store_load st i = Some r \<and> \<not> is_terminal (lo_status (so_order r))}"
proof -
  have "distinct (map fst (ls_orders st))" using assms by (simp add: store_inv_def)
  then have "r \<in> snd ` set (ls_orders st) \<longleftrightarrow> (\<exists>i. map_of (ls_orders st) i = Some r)" for r
    by (force simp: map_of_eq_Some_iff)
  then show ?thesis by (auto simp: list_open_def store_load_def)
qed

interpretation mem: order_store store_inv store_create store_load append_transition replay_from list_open
proof
  fix st order r v t "next" outcome
  obtain st1 r1 where c: "store_create st order = (st1, r1)" by fastforce
  obtain st2 r2 where a: "append_transition st v t next = (st2, r2)" by fastforce
  show "store_inv (fst (store_create st order))" if "store_inv st"
    using create_inv [OF that c] c by simp
  show "store_inv (fst (append_transition st v t next))" if "store_inv st"
    using append_inv [OF that a] a by simp
  show "r = order \<and> store_load st (lo_id (so_order order)) = None \<and>
      store_load (fst (store_create st order)) = (store_load st)(lo_id (so_order order) \<mapsto> order)"
    if "snd (store_create st order) = Inr (CreateCreated r)"
  proof -
    have "r1 = Inr (CreateCreated r)" using that c by simp
    with c have "r = order \<and> store_load st (lo_id (so_order order)) = None \<and>
        store_load st1 = (store_load st)(lo_id (so_order order) \<mapsto> order)"
      by (cases rule: create_cases) (auto simp: store_load_def fun_eq_iff)
    then show ?thesis using c by simp
  qed
  show "fst (store_create st order) = st" if "\<nexists>r. snd (store_create st order) = Inr (CreateCreated r)"
    using c that by (cases rule: create_cases) (auto simp: c)
  show "\<exists>i current. store_load (fst (store_create st order)) i = Some current \<and> lo_id (so_order current) = i \<and>
      store_create (fst (store_create st order)) order = (fst (store_create st order), Inr (CreateExisting current))"
    if "store_inv st" "snd (store_create st order) = Inr outcome"
    using create_again_existing [of st order st1 outcome] c that by simp
  show "r = next \<and> store_load (fst (append_transition st v t next)) = (store_load st)(ot_order_id t \<mapsto> next) \<and>
      (\<exists>current. store_load st (ot_order_id t) = Some current \<and> so_version current = v \<and>
        unat (ot_transition_seq t) = unat (so_last_transition_seq current) + 1 \<and>
        apply_transition current (ot_to t) (ot_fill t) (ot_at_ms t) = Inr next)"
    if "snd (append_transition st v t next) = Inr (Applied r)"
  proof -
    have "r2 = Inr (Applied r)" using that a by simp
    with a have "r = next \<and> store_load st2 = (store_load st)(ot_order_id t \<mapsto> next) \<and>
        (\<exists>current. store_load st (ot_order_id t) = Some current \<and> so_version current = v \<and>
          unat (ot_transition_seq t) = unat (so_last_transition_seq current) + 1 \<and>
          apply_transition current (ot_to t) (ot_fill t) (ot_at_ms t) = Inr next)"
      by (cases rule: append_cases) (auto simp: store_load_def fun_eq_iff)
    then show ?thesis using a by simp
  qed
  show "fst (append_transition st v t next) = st" if "\<nexists>r. snd (append_transition st v t next) = Inr (Applied r)"
  proof -
    have "\<nexists>r. r2 = Inr (Applied r)" using that a by simp
    with a have "st2 = st" by (cases rule: append_cases) auto
    then show ?thesis using a by simp
  qed
qed (simp_all add: replay_current list_open_set store_load_def append_transition_def)

section \<open>Reachable stores\<close>

inductive store_reachable :: "limit_store \<Rightarrow> bool" where
  fresh: "store_reachable store_new"
| create: "store_reachable (fst (store_create st order))" if "store_reachable st"
| append: "store_reachable (fst (append_transition st v t next))" if "store_reachable st"

lemma reachable_inv: "store_reachable st \<Longrightarrow> store_inv st"
  by (induction rule: store_reachable.induct) (simp_all add: store_new_inv mem.inv_create mem.inv_append)

definition log_calls :: "transition_log \<Rightarrow> transition_call list" where
  "log_calls log = map (\<lambda>(t, _). (ot_to t, ot_fill t, ot_at_ms t)) log"

lemma log_ok_history: "log_ok b log current \<Longrightarrow> order_history b (log_calls log) current"
proof (induction log arbitrary: current rule: rev_induct)
  case Nil
  then show ?case by (simp add: log_calls_def order_history.start)
next
  case (snoc x log)
  obtain t n where x: "x = (t, n)" by (cases x)
  with snoc.prems obtain mid where "log_ok b log mid"
    "apply_transition mid (ot_to t) (ot_fill t) (ot_at_ms t) = Inr current" by (auto simp: log_ok_snoc)
  with snoc.IH [of mid] show ?case
    by (simp add: log_calls_def x) (rule order_history.step)
qed









text \<open>A store with one order that was filled in part.\<close>

definition sample_transition :: order_transition where
  "sample_transition = \<lparr>ot_order_id = ''o'', ot_from = Executing, ot_to = PartiallyFilled,
     ot_transition_seq = 6, ot_fill = Some (sample_fill 40 60), ot_at_ms = 1000\<rparr>"

definition sample_created :: limit_store where
  "sample_created = fst (store_create store_new (sample_stored True 5 100 Executing))"

definition sample_filled :: limit_store where
  "sample_filled = fst (append_transition sample_created 5 sample_transition (sample_stored True 6 60 PartiallyFilled))"

lemma sample_created_reachable: "store_reachable sample_created"
  unfolding sample_created_def by (intro store_reachable.intros)

lemma sample_filled_reachable: "store_reachable sample_filled"
  unfolding sample_filled_def by (intro store_reachable.intros sample_created_reachable)

lemma sample_created_load: "store_load sample_created ''o'' = Some (sample_stored True 5 100 Executing)"
  by (simp add: sample_created_def store_create_def store_new_def store_load_def order_eval)

lemma sample_applied:
  "append_transition sample_created 5 sample_transition (sample_stored True 6 60 PartiallyFilled) =
     (sample_filled, Inr (Applied (sample_stored True 6 60 PartiallyFilled)))"
proof -
  have "snd (append_transition sample_created 5 sample_transition (sample_stored True 6 60 PartiallyFilled)) =
      Inr (Applied (sample_stored True 6 60 PartiallyFilled))"
    using sample_created_load sample_partial
    by (simp add: append_transition_def sample_transition_def store_load_def)
      (simp add: sample_stored_def sample_order_def checked_add_def)
  then show ?thesis by (simp add: sample_filled_def prod_eq_iff)
qed

lemma sample_filled_load: "store_load sample_filled ''o'' = Some (sample_stored True 6 60 PartiallyFilled)"
  using mem.append_applied [OF reachable_inv [OF sample_created_reachable], of 5 sample_transition
      "sample_stored True 6 60 PartiallyFilled"] sample_applied
  by (auto simp: sample_transition_def)

text \<open>C30. Replaying a log gives back what was stored: in every store that calls of \<open>create\<close> and
  \<open>append_transition\<close> can produce, replaying an order from any sequence up to one past its last
  transition, from the recorded state at that point, returns exactly the order that \<open>load\<close> returns,
  and the replay reports no inconsistency.\<close>

theorem store_replay_roundtrip:
  assumes "store_reachable st" and "store_load st i = Some current"
    and "unat (so_last_transition_seq current) + 1 < 2 ^ 64"
    and "unat from_seq \<le> unat (so_last_transition_seq current) + 1"
  shows "replay_from st i from_seq = Inr current"
  by (rule mem.replay_load [OF reachable_inv [OF assms(1)] assms(2-4)])

theorem store_replay_roundtrip_witness:
  "replay_from sample_filled ''o'' 6 = Inr (sample_stored True 6 60 PartiallyFilled)"
  by (rule store_replay_roundtrip [OF sample_filled_reachable sample_filled_load]) (simp_all add: sample_stored_def)

text \<open>C36. The store refines the state machine: the order held under an identifier is the end of a
  history of accepted transitions, those of its log, that starts at the record stored when it was
  created; it carries that identifier and its input is conserved.\<close>

theorem store_refines_order_history:
  assumes "store_reachable st" and "store_load st i = Some current"
  shows "\<exists>b. map_of (ls_baseline st) i = Some b \<and> order_history b (log_calls (store_log st i)) current \<and>
    lo_id (so_order current) = i \<and> conservation_holds current"
proof -
  from reachable_inv [OF assms(1)] assms(2) obtain b where b: "lo_id (so_order current) = i"
    "map_of (ls_baseline st) i = Some b" "conservation_holds b" "log_ok b (store_log st i) current"
    using store_inv_order [of st i current] by (auto simp: order_ok_def store_load_def)
  with log_ok_history [OF b(4)] order_history_invariant show ?thesis by blast
qed

theorem store_refines_order_history_witness:
  "conservation_holds (sample_stored True 6 60 PartiallyFilled) \<and>
    (\<exists>b. map_of (ls_baseline sample_filled) ''o'' = Some b)"
  using store_refines_order_history [OF sample_filled_reachable sample_filled_load] by blast



text \<open>Creation is idempotent: after a successful \<open>create\<close> the same call again succeeds, leaves the
  store as it is and returns the order that the store holds, however far it has advanced.\<close>

theorem store_create_idempotent:
  assumes "store_reachable st" and "store_create st order = (st', Inr outcome)"
  shows "\<exists>current. store_load st' (lo_id (so_order current)) = Some current \<and>
    store_create st' order = (st', Inr (CreateExisting current))"
  using mem.create_again [OF reachable_inv [OF assms(1)], of order outcome] assms(2) by auto

theorem store_create_idempotent_witness:
  "\<exists>current. store_create sample_created (sample_stored True 5 100 Executing) =
     (sample_created, Inr (CreateExisting current))"
proof -
  have "store_create store_new (sample_stored True 5 100 Executing) =
      (sample_created, Inr (CreateCreated (sample_stored True 5 100 Executing)))"
    by (simp add: sample_created_def store_create_def store_new_def order_eval)
  from store_create_idempotent [OF store_reachable.fresh this] show ?thesis by blast
qed

end
