(* ===== verification/Policy.thy ===== *)
theory Policy
  imports Orders
begin

text \<open>
  The trading policy and its kill switch, \<open>crates/policy/src/lib.rs\<close>. \<open>UsdMicros\<close> is the \<open>u64\<close> it
  wraps, a hash set is a set. The atomic flag of \<open>TradingGate\<close> is the state of the engine: each load
  and store is one step, and \<open>disable_trading\<close> returns the changed engine.
\<close>

section \<open>Limits and facts\<close>

type_synonym usd_micros = u64

datatype policy_error =
    PO_TradingDisabled
  | PO_InvalidTradingEnabled
  | PO_InvalidLimits
  | PO_IntentInvalid
  | PO_ChainNotAllowed
  | PO_InvalidValuation
  | PO_ValuationMismatch
  | PO_ValuationOutOfRange
  | PO_TradeSizeExceeded
  | PO_HourlyTurnoverExceeded
  | PO_DailyTurnoverExceeded
  | PO_TurnoverOverflow
  | PO_RiskLimitExceeded
  | PO_VenueNotAllowed

definition gate_from_trusted_startup :: "string option \<Rightarrow> policy_error + bool" where
  "gate_from_trusted_startup value =
     (case value of
        None \<Rightarrow> Inr False
      | Some v \<Rightarrow>
          if v = ''false'' then Inr False
          else if v = ''true'' then Inr True
          else Inl PO_InvalidTradingEnabled)"

record policy_limits =
  pl_max_trade_usd :: usd_micros
  pl_max_hourly_turnover_usd :: usd_micros
  pl_max_daily_turnover_usd :: usd_micros
  pl_max_buy_tax :: bps
  pl_max_sell_tax :: bps
  pl_max_price_impact :: bps
  pl_max_slippage :: bps
  pl_allowed_chains :: "chain_id set"
  pl_allowed_venues :: "string set"

definition limits_validate :: "policy_limits \<Rightarrow> policy_error + unit" where
  "limits_validate l =
     (if pl_max_trade_usd l = 0 \<or> pl_max_hourly_turnover_usd l < pl_max_trade_usd l \<or>
         pl_max_daily_turnover_usd l < pl_max_trade_usd l
      then Inl PO_InvalidLimits
      else if pl_allowed_chains l = {} then Inl PO_InvalidLimits
      else if \<exists>v \<in> pl_allowed_venues l. trim_is_empty v then Inl PO_InvalidLimits
      else Inr ())"

record turnover_snapshot =
  tu_hourly_used_usd :: usd_micros
  tu_daily_used_usd :: usd_micros

record policy_context =
  pc_now_ms :: i64
  pc_trade_usd :: usd_micros
  pc_turnover :: turnover_snapshot
  pc_venue :: "string option"

definition context_from_trusted_backend_state ::
  "i64 \<Rightarrow> usd_micros \<Rightarrow> turnover_snapshot \<Rightarrow> string option \<Rightarrow> policy_error + policy_context" where
  "context_from_trusted_backend_state now_ms trade_usd turnover venue =
     (if trade_usd = 0 then Inl PO_InvalidValuation
      else if (case venue of Some value \<Rightarrow> trim_is_empty value | None \<Rightarrow> False) then Inl PO_VenueNotAllowed
      else Inr \<lparr>pc_now_ms = now_ms, pc_trade_usd = trade_usd, pc_turnover = turnover, pc_venue = venue\<rparr>)"

record approved_execution =
  ae_intent_id :: intent_id
  ae_wallet_ref :: wallet_ref
  ae_chain :: chain_id
  ae_idempotency_key :: idempotency_key
  ae_expires_at_ms :: "i64 option"
  ae_approved_trade_usd :: usd_micros
  ae_approved_at_ms :: i64

section \<open>The engine\<close>

record policy_engine =
  pg_enabled :: bool
  pg_limits :: policy_limits

definition engine_new :: "bool \<Rightarrow> policy_limits \<Rightarrow> policy_error + policy_engine" where
  "engine_new gate limits =
     bindR (limits_validate limits) (\<lambda>_. Inr \<lparr>pg_enabled = gate, pg_limits = limits\<rparr>)"

definition is_trading_enabled :: "policy_engine \<Rightarrow> bool" where
  "is_trading_enabled e = pg_enabled e"

definition disable_trading :: "policy_engine \<Rightarrow> policy_engine" where
  "disable_trading e = e\<lparr>pg_enabled := False\<rparr>"

definition check_turnover :: "policy_limits \<Rightarrow> policy_context \<Rightarrow> policy_error + unit" where
  "check_turnover l ctx =
     bindR (ok_or PO_TurnoverOverflow
              (checked_add (tu_hourly_used_usd (pc_turnover ctx)) (pc_trade_usd ctx))) (\<lambda>hourly.
     if pl_max_hourly_turnover_usd l < hourly then Inl PO_HourlyTurnoverExceeded
     else
       bindR (ok_or PO_TurnoverOverflow
                (checked_add (tu_daily_used_usd (pc_turnover ctx)) (pc_trade_usd ctx))) (\<lambda>daily.
       if pl_max_daily_turnover_usd l < daily then Inl PO_DailyTurnoverExceeded else Inr ()))"

definition check_valuation :: "trade_intent \<Rightarrow> policy_context \<Rightarrow> policy_error + unit" where
  "check_valuation intent ctx =
     (if pc_trade_usd ctx = 0 then Inl PO_InvalidValuation
      else if ti_amount_type intent = UsdMicros then
        (if 2 ^ 64 \<le> unat (ti_amount intent) then Inl PO_ValuationOutOfRange
         else if ucast (ti_amount intent) \<noteq> pc_trade_usd ctx then Inl PO_ValuationMismatch
         else Inr ())
      else Inr ())"

definition check_venue :: "policy_limits \<Rightarrow> policy_context \<Rightarrow> policy_error + unit" where
  "check_venue l ctx =
     (if pl_allowed_venues l \<noteq> {} then
        bindR (ok_or PO_VenueNotAllowed (pc_venue ctx)) (\<lambda>venue.
        if venue \<notin> pl_allowed_venues l then Inl PO_VenueNotAllowed else Inr ())
      else Inr ())"

definition authorize_trade ::
  "policy_engine \<Rightarrow> trade_intent \<Rightarrow> policy_context \<Rightarrow> policy_error + approved_execution" where
  "authorize_trade e intent ctx =
     (let l = pg_limits e in
      if \<not> pg_enabled e then Inl PO_TradingDisabled
      else
        bindR (map_err (\<lambda>_. PO_IntentInvalid) (intent_validate intent (pc_now_ms ctx))) (\<lambda>_.
        bindR (check_valuation intent ctx) (\<lambda>_.
        if ti_chain intent \<notin> pl_allowed_chains l then Inl PO_ChainNotAllowed
        else if pl_max_trade_usd l < pc_trade_usd ctx then Inl PO_TradeSizeExceeded
        else
          bindR (check_turnover l ctx) (\<lambda>_.
          if pl_max_buy_tax l < max_buy_tax (ti_risk intent) \<or>
             pl_max_sell_tax l < max_sell_tax (ti_risk intent) \<or>
             pl_max_price_impact l < max_price_impact (ti_risk intent) \<or>
             pl_max_slippage l < max_slippage (ti_risk intent)
          then Inl PO_RiskLimitExceeded
          else
            bindR (check_venue l ctx) (\<lambda>_.
            Inr \<lparr>ae_intent_id = ti_id intent, ae_wallet_ref = ti_wallet_ref intent, ae_chain = ti_chain intent,
                 ae_idempotency_key = ti_idempotency_key intent, ae_expires_at_ms = ti_expiry_ms intent,
                 ae_approved_trade_usd = pc_trade_usd ctx, ae_approved_at_ms = pc_now_ms ctx\<rparr>)))))"

section \<open>What an approval means\<close>

text \<open>The policy as a condition on natural numbers, without the order of the checks.\<close>

definition within_policy :: "policy_engine \<Rightarrow> trade_intent \<Rightarrow> policy_context \<Rightarrow> bool" where
  "within_policy e intent ctx \<longleftrightarrow>
     (let l = pg_limits e; usd = unat (pc_trade_usd ctx) in
      is_trading_enabled e \<and> intent_validate intent (pc_now_ms ctx) = Inr () \<and>
      0 < usd \<and> (ti_amount_type intent = UsdMicros \<longrightarrow> unat (ti_amount intent) = usd) \<and>
      ti_chain intent \<in> pl_allowed_chains l \<and>
      usd \<le> unat (pl_max_trade_usd l) \<and>
      unat (tu_hourly_used_usd (pc_turnover ctx)) + usd \<le> unat (pl_max_hourly_turnover_usd l) \<and>
      unat (tu_daily_used_usd (pc_turnover ctx)) + usd \<le> unat (pl_max_daily_turnover_usd l) \<and>
      max_buy_tax (ti_risk intent) \<le> pl_max_buy_tax l \<and> max_sell_tax (ti_risk intent) \<le> pl_max_sell_tax l \<and>
      max_price_impact (ti_risk intent) \<le> pl_max_price_impact l \<and> max_slippage (ti_risk intent) \<le> pl_max_slippage l \<and>
      (pl_allowed_venues l = {} \<or> (\<exists>v \<in> pl_allowed_venues l. pc_venue ctx = Some v)))"

definition approval_of :: "trade_intent \<Rightarrow> policy_context \<Rightarrow> approved_execution" where
  "approval_of intent ctx =
     \<lparr>ae_intent_id = ti_id intent, ae_wallet_ref = ti_wallet_ref intent, ae_chain = ti_chain intent,
      ae_idempotency_key = ti_idempotency_key intent, ae_expires_at_ms = ti_expiry_ms intent,
      ae_approved_trade_usd = pc_trade_usd ctx, ae_approved_at_ms = pc_now_ms ctx\<rparr>"

lemma check_turnover_Inr_iff [result_iff]:
  "check_turnover l ctx = Inr u \<longleftrightarrow>
     unat (tu_hourly_used_usd (pc_turnover ctx)) + unat (pc_trade_usd ctx) \<le> unat (pl_max_hourly_turnover_usd l) \<and>
     unat (tu_daily_used_usd (pc_turnover ctx)) + unat (pc_trade_usd ctx) \<le> unat (pl_max_daily_turnover_usd l)"
  using unat_bound [of "pl_max_hourly_turnover_usd l"] unat_bound [of "pl_max_daily_turnover_usd l"]
  by (auto simp: check_turnover_def result_iff checked_add_def word_less_nat_alt unat_add_no_overflow not_less)

lemma unat_ucast_u64: "unat (x :: u128) < 2 ^ 64 \<Longrightarrow> unat (ucast x :: u64) = unat x"
  by (simp add: unat_narrow)

lemma check_valuation_Inr_iff [result_iff]:
  "check_valuation intent ctx = Inr u \<longleftrightarrow>
     0 < unat (pc_trade_usd ctx) \<and> (ti_amount_type intent = UsdMicros \<longrightarrow> unat (ti_amount intent) = unat (pc_trade_usd ctx))"
proof -
  have "ucast (ti_amount intent) = pc_trade_usd ctx \<longleftrightarrow> unat (ti_amount intent) = unat (pc_trade_usd ctx)"
    if "unat (ti_amount intent) < 2 ^ 64"
    using that by (metis unat_ucast_u64 word_unat_eq_iff)
  then show ?thesis
    using unat_bound [of "pc_trade_usd ctx"]
    by (auto simp: check_valuation_def unat_gt_0 not_le split: if_splits)
qed

lemma check_venue_Inr_iff [result_iff]:
  "check_venue l ctx = Inr u \<longleftrightarrow> pl_allowed_venues l = {} \<or> (\<exists>v \<in> pl_allowed_venues l. pc_venue ctx = Some v)"
  by (auto simp: check_venue_def result_iff)

lemma authorize_trade_Inr_iff:
  "authorize_trade e intent ctx = Inr a \<longleftrightarrow> within_policy e intent ctx \<and> a = approval_of intent ctx"
  unfolding authorize_trade_def within_policy_def approval_of_def is_trading_enabled_def
  by (auto simp: Let_def result_iff not_less word_le_nat_alt)

text \<open>C23. The engine authorises a trade exactly when it is within the policy: the gate is open, the intent is
  valid and valued, and size, turnover with the trade added, risk, chain and venue are inside the limits,
  compared as natural numbers, so that no sum wraps. The approval names that very trade.\<close>

theorem policy_authorizes_exactly:
  "authorize_trade e intent ctx = Inr a \<longleftrightarrow> within_policy e intent ctx \<and> a = approval_of intent ctx"
  by (rule authorize_trade_Inr_iff)

end
