(* ===== verification/Exec_Preview.thy ===== *)
theory Exec_Preview
  imports Orders Wide_Arith
begin

text \<open>
  Execution previews, \<open>crates/domain/src/execution_preview.rs\<close>: the simulated net balance change of
  an execution, bound to the intent and to the route or split plan it came from, and the check of the
  limit price on exact products. The 256-bit multiplication and comparison of that file are those of
  \<open>Wide_Arith\<close>. A \<open>ValidatedExecutionPreview\<close> wraps the preview it was made from and is that preview
  here; it is produced by the two validators only.
\<close>

section \<open>Cost components\<close>

record execution_cost_components =
  ec_gas_cost :: "asset_amount option"
  ec_dex_fee :: "asset_amount option"
  ec_provider_fee :: "asset_amount option"
  ec_tax_cost :: "asset_amount option"

text \<open>The check of a component that must be in one of the two traded assets, with its message.\<close>

definition pair_cost_validate ::
  "chain_id \<Rightarrow> asset_id \<Rightarrow> asset_id \<Rightarrow> string \<Rightarrow> asset_amount option \<Rightarrow> domain_error + unit" where
  "pair_cost_validate chain token_in token_out message cost =
     (case cost of
        None \<Rightarrow> Inr ()
      | Some c \<Rightarrow>
          bindR (map_err (\<lambda>_. DE_ZeroCostComponent) (validate_nonzero c)) (\<lambda>_.
          if asset_chain (aa_asset c) \<noteq> chain then Inl DE_ChainMismatch
          else if aa_asset c \<noteq> token_in \<and> aa_asset c \<noteq> token_out
          then Inl (DE_InconsistentNetEconomics message)
          else Inr ()))"

definition cost_components_validate ::
  "execution_cost_components \<Rightarrow> chain_id \<Rightarrow> asset_id \<Rightarrow> asset_id \<Rightarrow> domain_error + unit" where
  "cost_components_validate costs chain token_in token_out =
     bindR (case ec_gas_cost costs of
              None \<Rightarrow> Inr ()
            | Some gas \<Rightarrow>
                bindR (map_err (\<lambda>_. DE_ZeroCostComponent) (validate_nonzero gas)) (\<lambda>_.
                if asset_chain (aa_asset gas) \<noteq> chain then Inl DE_ChainMismatch else Inr ())) (\<lambda>_.
     bindR (pair_cost_validate chain token_in token_out
              ''dex fee must be denominated in token_in or token_out'' (ec_dex_fee costs)) (\<lambda>_.
     bindR (pair_cost_validate chain token_in token_out
              ''provider fee must be denominated in token_in or token_out'' (ec_provider_fee costs)) (\<lambda>_.
     pair_cost_validate chain token_in token_out
       ''tax cost must be denominated in token_in or token_out'' (ec_tax_cost costs))))"

fun sum_costs :: "asset_id \<Rightarrow> asset_amount list \<Rightarrow> u128 \<Rightarrow> domain_error + u128" where
  "sum_costs asset [] acc = Inr acc"
| "sum_costs asset (cost # costs) acc =
     (if aa_asset cost = asset
      then bindR (ok_or (DE_InconsistentNetEconomics ''cost component sum overflowed u128'')
                    (checked_add acc (aa_amount cost))) (sum_costs asset costs)
      else sum_costs asset costs acc)"

definition present_costs :: "execution_cost_components \<Rightarrow> asset_amount list" where
  "present_costs costs =
     List.map_filter (\<lambda>c. c) [ec_gas_cost costs, ec_dex_fee costs, ec_provider_fee costs, ec_tax_cost costs]"

definition sum_for_asset :: "execution_cost_components \<Rightarrow> asset_id \<Rightarrow> domain_error + atomic_amount" where
  "sum_for_asset costs asset = sum_costs asset (present_costs costs) 0"

section \<open>Previews\<close>

record execution_preview =
  ep_intent_id :: intent_id
  ep_chain :: chain_id
  ep_token_in :: asset_id
  ep_token_out :: asset_id
  ep_side :: trade_side
  ep_simulated_net_input :: asset_amount
  ep_simulated_net_output :: asset_amount
  ep_gross_output :: asset_amount
  ep_cost_components :: execution_cost_components
  ep_local_state_freshness :: freshness_status

definition executable_net_price :: "execution_preview \<Rightarrow> domain_error + price_ratio" where
  "executable_net_price p =
     (case ep_side p of
        Buy \<Rightarrow> map_err (\<lambda>_. DE_InvalidNetPriceDecision
                 ''simulated net amounts cannot form a valid buy price ratio'')
               (price_ratio_new (aa_amount (ep_simulated_net_input p)) (aa_amount (ep_simulated_net_output p)))
      | Sell \<Rightarrow> map_err (\<lambda>_. DE_InvalidNetPriceDecision
                 ''simulated net amounts cannot form a valid sell price ratio'')
               (price_ratio_new (aa_amount (ep_simulated_net_output p)) (aa_amount (ep_simulated_net_input p))))"

definition gross_quote_price :: "execution_preview \<Rightarrow> domain_error + price_ratio" where
  "gross_quote_price p =
     (case ep_side p of
        Buy \<Rightarrow> map_err (\<lambda>_. DE_InvalidNetPriceDecision
                 ''gross quote amounts cannot form a valid buy price ratio'')
               (price_ratio_new (aa_amount (ep_simulated_net_input p)) (aa_amount (ep_gross_output p)))
      | Sell \<Rightarrow> map_err (\<lambda>_. DE_InvalidNetPriceDecision
                 ''gross quote amounts cannot form a valid sell price ratio'')
               (price_ratio_new (aa_amount (ep_gross_output p)) (aa_amount (ep_simulated_net_input p))))"

definition satisfies_limit_price :: "execution_preview \<Rightarrow> limit_price \<Rightarrow> domain_error + bool" where
  "satisfies_limit_price p limit =
     bindR (limit_price_validate (ep_side p) (ep_token_in p) (ep_token_out p) limit) (\<lambda>_.
     let net_in = aa_amount (ep_simulated_net_input p);
         net_out = aa_amount (ep_simulated_net_output p);
         limit_num = numerator_atomic (lp_ratio limit);
         limit_den = denominator_atomic (lp_ratio limit)
     in case ep_side p of
          Buy \<Rightarrow> Inr (cmp_u128_products net_in limit_den limit_num net_out \<noteq> Greater)
        | Sell \<Rightarrow> Inr (cmp_u128_products net_out limit_den limit_num net_in \<noteq> Less))"

text \<open>The checks of \<open>validate_internal\<close> that relate output, gross output and costs.\<close>

definition output_accounting :: "execution_preview \<Rightarrow> domain_error + unit" where
  "output_accounting p =
     bindR (sum_for_asset (ep_cost_components p) (ep_token_out p)) (\<lambda>output_costs.
     if aa_amount (ep_gross_output p) < output_costs
     then Inl (DE_InconsistentNetEconomics ''output-denominated costs exceed gross output quote'')
     else
       bindR (ok_or (DE_InconsistentNetEconomics ''net output and output costs sum overflowed u128'')
                (checked_add (aa_amount (ep_simulated_net_output p)) output_costs)) (\<lambda>total_accounted_output.
       if aa_amount (ep_gross_output p) < total_accounted_output
       then Inl (DE_InconsistentNetEconomics
              ''sum of simulated net output and output costs exceeds gross quote'')
       else Inr ()))"

definition preview_validate_internal :: "execution_preview \<Rightarrow> domain_error + unit" where
  "preview_validate_internal p =
     bindR (string_id_validate ''intent_id'' (ep_intent_id p)) (\<lambda>_.
     bindR (map_err (\<lambda>_. DE_ChainMismatch) (chain_validate (ep_chain p))) (\<lambda>_.
     bindR (map_err (\<lambda>_. DE_ChainMismatch) (asset_validate (ep_token_in p))) (\<lambda>_.
     bindR (map_err (\<lambda>_. DE_ChainMismatch) (asset_validate (ep_token_out p))) (\<lambda>_.
     if ep_token_in p = ep_token_out p then Inl DE_SameAssetPair
     else if asset_chain (ep_token_in p) \<noteq> ep_chain p \<or> asset_chain (ep_token_out p) \<noteq> ep_chain p
     then Inl DE_ChainMismatch
     else if aa_asset (ep_simulated_net_input p) \<noteq> ep_token_in p then Inl DE_InputAssetMismatch
     else if aa_asset (ep_simulated_net_output p) \<noteq> ep_token_out p then Inl DE_OutputAssetMismatch
     else if aa_asset (ep_gross_output p) \<noteq> ep_token_out p then Inl DE_OutputAssetMismatch
     else if aa_amount (ep_simulated_net_input p) = 0 \<or> aa_amount (ep_simulated_net_output p) = 0
     then Inl DE_ZeroSimulatedDelta
     else if aa_amount (ep_gross_output p) = 0 then Inl DE_ZeroSimulatedDelta
     else if aa_amount (ep_gross_output p) < aa_amount (ep_simulated_net_output p)
     then Inl (DE_InconsistentNetEconomics ''simulated net output cannot exceed gross output quote'')
     else
       bindR (cost_components_validate (ep_cost_components p) (ep_chain p) (ep_token_in p) (ep_token_out p))
         (\<lambda>_. output_accounting p)))))"

section \<open>Validation against an intent\<close>

definition intent_binding :: "execution_preview \<Rightarrow> trade_intent \<Rightarrow> domain_error + unit" where
  "intent_binding p intent =
     (if ep_intent_id p \<noteq> ti_id intent then Inl DE_IntentIdMismatch
      else if ep_chain p \<noteq> ti_chain intent then Inl DE_ChainMismatch
      else if ep_token_in p \<noteq> ti_token_in intent then Inl DE_InputAssetMismatch
      else if ep_token_out p \<noteq> ti_token_out intent then Inl DE_OutputAssetMismatch
      else if ep_side p \<noteq> ti_side intent then Inl DE_TradeSideMismatch
      else Inr ())"

definition route_binding :: "execution_preview \<Rightarrow> route_plan \<Rightarrow> domain_error + unit" where
  "route_binding p route =
     (let legs = rp_legs route in
      if legs = [] then Inl DE_EmptyRoute
      else if rl_token_in (hd legs) \<noteq> ep_token_in p then Inl DE_RouteTokenMismatch
      else if rl_token_out (last legs) \<noteq> ep_token_out p then Inl DE_RouteOutputAssetMismatch
      else if aa_asset (rp_expected_net_output route) \<noteq> ep_token_out p then Inl DE_RouteOutputAssetMismatch
      else if rp_expected_net_output route \<noteq> ep_simulated_net_output p then Inl DE_RouteOutputAmountMismatch
      else
        bindR (for_each (\<lambda>leg. if asset_chain (rl_token_in leg) \<noteq> ep_chain p \<or>
                                 asset_chain (rl_token_out leg) \<noteq> ep_chain p
                              then Inl DE_ChainMismatch else Inr ()) legs) (\<lambda>_.
        if aa_amount (ep_simulated_net_input p) < rl_amount_in (hd legs) then Inl DE_RouteUnmodeledFunding
        else for_each (\<lambda>(a, b). if rl_expected_amount_out a < rl_amount_in b
                               then Inl DE_RouteUnmodeledFunding else Inr ()) (windows2 legs)))"

definition require_fresh :: "freshness_status \<Rightarrow> domain_error + unit" where
  "require_fresh status =
     (case status of
        FS_Fresh \<Rightarrow> Inr ()
      | FS_Stale \<Rightarrow> Inl DE_StaleMarketState
      | FS_ResyncRequired \<Rightarrow> Inl DE_ResyncRequired)"

definition validate_aggregate_freshness ::
  "execution_preview \<Rightarrow> freshness \<Rightarrow> i64 \<Rightarrow> domain_error + unit" where
  "validate_aggregate_freshness p state now_ms =
     bindR (require_fresh (ep_local_state_freshness p)) (\<lambda>_.
     if fr_observed_at_ms state \<le> 0 then Inl DE_StaleMarketState
     else if fr_sequence state = 0 then Inl DE_ResyncRequired
     else
       bindR (map_err (\<lambda>_. DE_StaleMarketState)
                (evaluate_freshness default_freshness_policy (fr_observed_at_ms state) now_ms
                   (fr_sequence state) False)) (\<lambda>meta.
       require_fresh (fm_status meta)))"

definition validate_intent_risk_and_amount :: "execution_preview \<Rightarrow> trade_intent \<Rightarrow> domain_error + unit" where
  "validate_intent_risk_and_amount p intent =
     bindR (case max_total_cost (ti_risk intent) of
              None \<Rightarrow> Inr ()
            | Some max_cost \<Rightarrow>
                if aa_asset (ep_simulated_net_input p) \<noteq> aa_asset max_cost
                then Inl DE_MaxTotalCostAssetMismatch
                else if aa_amount max_cost < aa_amount (ep_simulated_net_input p)
                then Inl (DE_InconsistentNetEconomics ''simulated net input exceeds intent max_total_cost'')
                else Inr ()) (\<lambda>_.
     case ti_amount_type intent of
       InputAssetAtomic \<Rightarrow>
         if ti_amount intent < aa_amount (ep_simulated_net_input p)
         then Inl (DE_InconsistentNetEconomics ''simulated net input exceeds intent amount'')
         else if \<not> ti_allow_partial_fill intent \<and> aa_amount (ep_simulated_net_input p) \<noteq> ti_amount intent
         then Inl (DE_InconsistentNetEconomics ''all-or-nothing intent cannot accept partial simulated input'')
         else Inr ()
     | _ \<Rightarrow> Inl DE_UnsupportedAmountType)"

definition limit_check :: "execution_preview \<Rightarrow> trade_intent \<Rightarrow> domain_error + execution_preview" where
  "limit_check p intent =
     (case ti_limit_price intent of
        None \<Rightarrow> Inr p
      | Some limit \<Rightarrow>
          bindR (satisfies_limit_price p limit) (\<lambda>ok. if \<not> ok then Inl DE_LimitPriceViolated else Inr p))"

text \<open>
  \<open>validate\<close> writes out its steps 5 to 8; they are the same statements as the bodies of
  \<open>validate_aggregate_freshness\<close> and \<open>validate_intent_risk_and_amount\<close>, on the state of the route.
\<close>

definition preview_validate ::
  "execution_preview \<Rightarrow> trade_intent \<Rightarrow> route_plan \<Rightarrow> i64 \<Rightarrow> domain_error + execution_preview" where
  "preview_validate p intent route now_ms =
     bindR (intent_validate intent now_ms) (\<lambda>_.
     bindR (route_validate route) (\<lambda>_.
     bindR (preview_validate_internal p) (\<lambda>_.
     bindR (intent_binding p intent) (\<lambda>_.
     bindR (route_binding p route) (\<lambda>_.
     bindR (validate_aggregate_freshness p (rp_state route) now_ms) (\<lambda>_.
     bindR (validate_intent_risk_and_amount p intent) (\<lambda>_.
     limit_check p intent)))))))"

fun sum_inputs :: "split_leg list \<Rightarrow> u128 \<Rightarrow> domain_error + u128" where
  "sum_inputs [] input_sum = Inr input_sum"
| "sum_inputs (leg # legs) input_sum =
     bindR (ok_or DE_SplitInputConservationViolated (checked_add input_sum (sl_amount_in leg))) (sum_inputs legs)"

definition split_binding :: "execution_preview \<Rightarrow> split_plan \<Rightarrow> domain_error + unit" where
  "split_binding p split =
     bindR (sum_inputs (sp_legs split) 0) (\<lambda>input_sum.
     if input_sum \<noteq> aa_amount (ep_simulated_net_input p) then Inl DE_SplitInputConservationViolated
     else if sp_expected_net_output split \<noteq> ep_simulated_net_output p
     then Inl DE_SplitOutputConservationViolated
     else Inr ())"

definition preview_validate_split ::
  "execution_preview \<Rightarrow> trade_intent \<Rightarrow> split_plan \<Rightarrow> i64 \<Rightarrow> domain_error + execution_preview" where
  "preview_validate_split p intent split now_ms =
     bindR (intent_validate intent now_ms) (\<lambda>_.
     bindR (split_validate split intent) (\<lambda>_.
     bindR (preview_validate_internal p) (\<lambda>_.
     bindR (intent_binding p intent) (\<lambda>_.
     bindR (split_binding p split) (\<lambda>_.
     bindR (validate_aggregate_freshness p (sp_state split) now_ms) (\<lambda>_.
     bindR (validate_intent_risk_and_amount p intent) (\<lambda>_.
     limit_check p intent)))))))"

definition validate_execution_preview ::
  "trade_intent \<Rightarrow> route_plan \<Rightarrow> execution_preview \<Rightarrow> i64 \<Rightarrow> domain_error + execution_preview" where
  "validate_execution_preview intent route p now_ms = preview_validate p intent route now_ms"

definition validate_split_execution_preview ::
  "trade_intent \<Rightarrow> split_plan \<Rightarrow> execution_preview \<Rightarrow> i64 \<Rightarrow> domain_error + execution_preview" where
  "validate_split_execution_preview intent split p now_ms = preview_validate_split p intent split now_ms"

section \<open>What a validated preview guarantees\<close>

lemma limit_price_validate_Inr_iff [result_iff]:
  "limit_price_validate side i out price = Inr u \<longleftrightarrow>
     (lp_numerator_asset price, lp_denominator_asset price) = price_assets side i out"
  by (auto simp: limit_price_validate_def Let_def prod_eq_iff split: if_splits)

text \<open>The limit price as a condition on natural numbers: no division, no rounding.\<close>

definition within_limit :: "trade_side \<Rightarrow> price_ratio \<Rightarrow> u128 \<Rightarrow> u128 \<Rightarrow> bool" where
  "within_limit side limit net_in net_out \<longleftrightarrow>
     (case side of
        Buy \<Rightarrow> unat net_in * unat (denominator_atomic limit) \<le> unat (numerator_atomic limit) * unat net_out
      | Sell \<Rightarrow> unat (numerator_atomic limit) * unat net_in \<le> unat net_out * unat (denominator_atomic limit))"

lemma satisfies_limit_price_iff:
  "satisfies_limit_price p limit = Inr b \<longleftrightarrow>
     (lp_numerator_asset limit, lp_denominator_asset limit) = price_assets (ep_side p) (ep_token_in p) (ep_token_out p) \<and>
     (b \<longleftrightarrow> within_limit (ep_side p) (lp_ratio limit) (aa_amount (ep_simulated_net_input p))
        (aa_amount (ep_simulated_net_output p)))"
  by (auto simp: satisfies_limit_price_def within_limit_def Let_def result_iff cmp_u128_products_eq cmp_iff
      split: trade_side.splits)

lemma sum_costs_Inr:
  "sum_costs asset costs acc = Inr r \<Longrightarrow>
     unat r = unat acc + (\<Sum>c \<leftarrow> filter (\<lambda>c. aa_asset c = asset) costs. unat (aa_amount c))"
  by (induction asset costs acc rule: sum_costs.induct) (auto simp: result_iff rust_arith split: if_splits)

lemma sum_inputs_Inr:
  "sum_inputs legs acc = Inr r \<Longrightarrow> unat r = unat acc + (\<Sum>leg \<leftarrow> legs. unat (sl_amount_in leg))"
  by (induction legs acc rule: sum_inputs.induct) (auto simp: result_iff rust_arith)

definition costs_in :: "asset_id \<Rightarrow> execution_cost_components \<Rightarrow> nat" where
  "costs_in asset costs =
     (\<Sum>c \<leftarrow> filter (\<lambda>c. aa_asset c = asset) (present_costs costs). unat (aa_amount c))"

text \<open>
  What both validators establish about the preview: it is bound to the intent, spends no more than
  the intent allows, its outputs and the costs taken from them fit the gross quote, and its net
  amounts respect the limit price.
\<close>

definition preview_sound :: "execution_preview \<Rightarrow> trade_intent \<Rightarrow> bool" where
  "preview_sound p intent \<longleftrightarrow>
     ep_intent_id p = ti_id intent \<and> ep_chain p = ti_chain intent \<and> ep_side p = ti_side intent \<and>
     aa_asset (ep_simulated_net_input p) = ti_token_in intent \<and>
     aa_asset (ep_simulated_net_output p) = ti_token_out intent \<and>
     0 < unat (aa_amount (ep_simulated_net_input p)) \<and> 0 < unat (aa_amount (ep_simulated_net_output p)) \<and>
     unat (aa_amount (ep_simulated_net_input p)) \<le> unat (ti_amount intent) \<and>
     (ti_allow_partial_fill intent \<or> aa_amount (ep_simulated_net_input p) = ti_amount intent) \<and>
     (case max_total_cost (ti_risk intent) of
        None \<Rightarrow> True
      | Some cost \<Rightarrow> unat (aa_amount (ep_simulated_net_input p)) \<le> unat (aa_amount cost)) \<and>
     unat (aa_amount (ep_simulated_net_output p)) + costs_in (ti_token_out intent) (ep_cost_components p)
       \<le> unat (aa_amount (ep_gross_output p)) \<and>
     (case ti_limit_price intent of
        None \<Rightarrow> True
      | Some limit \<Rightarrow> within_limit (ti_side intent) (lp_ratio limit)
          (aa_amount (ep_simulated_net_input p)) (aa_amount (ep_simulated_net_output p)))"

definition state_current :: "freshness \<Rightarrow> i64 \<Rightarrow> bool" where
  "state_current state now_ms \<longleftrightarrow>
     0 < fr_observed_at_ms state \<and> fr_sequence state \<noteq> 0 \<and>
     now_ms - fr_observed_at_ms state \<le> uint DEFAULT_MAX_STALENESS_MS"

lemma output_accounting_Inr:
  assumes "output_accounting p = Inr ()"
  shows "unat (aa_amount (ep_simulated_net_output p)) + costs_in (ep_token_out p) (ep_cost_components p)
    \<le> unat (aa_amount (ep_gross_output p))"
  using assms by (auto simp: output_accounting_def sum_for_asset_def costs_in_def result_iff rust_arith
      not_less word_le_nat_alt dest!: sum_costs_Inr split: if_splits)

lemma intent_binding_Inr_iff [result_iff]:
  "intent_binding p intent = Inr u \<longleftrightarrow> ep_intent_id p = ti_id intent \<and> ep_chain p = ti_chain intent \<and>
     ep_token_in p = ti_token_in intent \<and> ep_token_out p = ti_token_out intent \<and> ep_side p = ti_side intent"
  by (auto simp: intent_binding_def)

lemma preview_internal_Inr:
  assumes "preview_validate_internal p = Inr ()"
  shows "aa_asset (ep_simulated_net_input p) = ep_token_in p \<and> aa_asset (ep_simulated_net_output p) = ep_token_out p \<and>
    aa_amount (ep_simulated_net_input p) \<noteq> 0 \<and> aa_amount (ep_simulated_net_output p) \<noteq> 0 \<and>
    output_accounting p = Inr ()"
  using assms unfolding preview_validate_internal_def by (auto simp: result_iff split: if_splits)

lemma require_fresh_Inr_iff [result_iff]: "require_fresh s = Inr u \<longleftrightarrow> s = FS_Fresh"
  by (cases s) (auto simp: require_fresh_def)

lemma risk_and_amount_Inr:
  assumes "validate_intent_risk_and_amount p intent = Inr ()"
  shows "unat (aa_amount (ep_simulated_net_input p)) \<le> unat (ti_amount intent) \<and>
    (ti_allow_partial_fill intent \<or> aa_amount (ep_simulated_net_input p) = ti_amount intent) \<and>
    (case max_total_cost (ti_risk intent) of None \<Rightarrow> True
     | Some cost \<Rightarrow> unat (aa_amount (ep_simulated_net_input p)) \<le> unat (aa_amount cost))"
  using assms unfolding validate_intent_risk_and_amount_def
  by (auto simp: result_iff not_less word_le_nat_alt split: if_splits option.splits amount_type.splits)

lemma limit_check_Inr:
  assumes "limit_check p intent = Inr v"
  shows "v = p \<and> (case ti_limit_price intent of None \<Rightarrow> True
    | Some limit \<Rightarrow> within_limit (ep_side p) (lp_ratio limit)
        (aa_amount (ep_simulated_net_input p)) (aa_amount (ep_simulated_net_output p)))"
  using assms by (auto simp: limit_check_def result_iff satisfies_limit_price_iff split: option.splits if_splits)

lemma preview_soundI:
  assumes "preview_validate_internal p = Inr ()" and "intent_binding p intent = Inr ()"
    and "validate_intent_risk_and_amount p intent = Inr ()" and "limit_check p intent = Inr v"
  shows "v = p \<and> preview_sound p intent"
proof -
  have bound: "ep_intent_id p = ti_id intent" "ep_chain p = ti_chain intent" "ep_token_in p = ti_token_in intent"
    "ep_token_out p = ti_token_out intent" "ep_side p = ti_side intent"
    using assms(2) by (simp_all add: intent_binding_Inr_iff)
  from preview_internal_Inr [OF assms(1)] output_accounting_Inr [of p] risk_and_amount_Inr [OF assms(3)]
    limit_check_Inr [OF assms(4)]
  show ?thesis unfolding preview_sound_def bound by (auto simp: unat_gt_0)
qed

lemma aggregate_freshness_current:
  assumes "validate_aggregate_freshness p state now_ms = Inr ()" and "now_ms < 2 ^ 63"
  shows "ep_local_state_freshness p = FS_Fresh \<and> state_current state now_ms"
proof -
  from assms(1) obtain m where m: "ep_local_state_freshness p = FS_Fresh" "0 < fr_observed_at_ms state"
    "fr_sequence state \<noteq> 0" "fm_status m = FS_Fresh"
    "evaluate_freshness default_freshness_policy (fr_observed_at_ms state) now_ms (fr_sequence state) False = Inr m"
    unfolding validate_aggregate_freshness_def by (auto simp: result_iff split: if_splits)
  have "now_ms - fr_observed_at_ms state \<le> uint DEFAULT_MAX_STALENESS_MS"
  proof (cases "now_ms < fr_observed_at_ms state")
    case True
    then show ?thesis using uint_nonnegative [of DEFAULT_MAX_STALENESS_MS] by linarith
  next
    case False
    then have "\<not> uint (max_staleness_ms default_freshness_policy) < now_ms - fr_observed_at_ms state"
      using m assms(2)
      by (auto simp: evaluate_freshness_def Let_def result_iff word_of_int_less_iff simp del: of_int_diff
          split: if_splits)
    then show ?thesis by (simp add: default_freshness_policy_def)
  qed
  with m show ?thesis by (simp add: state_current_def)
qed

lemma route_binding_Inr:
  assumes "route_binding p route = Inr ()"
  shows "rp_legs route \<noteq> [] \<and> rl_token_in (hd (rp_legs route)) = ep_token_in p \<and>
    rl_token_out (last (rp_legs route)) = ep_token_out p \<and>
    rp_expected_net_output route = ep_simulated_net_output p \<and>
    unat (rl_amount_in (hd (rp_legs route))) \<le> unat (aa_amount (ep_simulated_net_input p)) \<and>
    (\<forall>i. i + 1 < length (rp_legs route) \<longrightarrow>
      unat (rl_amount_in (rp_legs route ! (i + 1))) \<le> unat (rl_expected_amount_out (rp_legs route ! i)))"
proof -
  have "(rp_legs route ! i, rp_legs route ! (i + 1)) \<in> set (windows2 (rp_legs route))"
    if "i + 1 < length (rp_legs route)" for i
    unfolding windows2_nth using that by blast
  with assms show ?thesis unfolding route_binding_def
    by (force simp: Let_def result_iff not_less word_le_nat_alt split: if_splits)
qed

lemma split_binding_Inr:
  assumes "split_binding p split = Inr ()"
  shows "(\<Sum>leg \<leftarrow> sp_legs split. unat (sl_amount_in leg)) = unat (aa_amount (ep_simulated_net_input p)) \<and>
    sp_expected_net_output split = ep_simulated_net_output p"
  using assms by (auto simp: split_binding_def result_iff dest!: sum_inputs_Inr split: if_splits)

section \<open>Properties\<close>

definition sample_preview :: execution_preview where
  "sample_preview = \<lparr>ep_intent_id = ''i'', ep_chain = Base, ep_token_in = sample_in, ep_token_out = sample_out,
     ep_side = Buy, ep_simulated_net_input = \<lparr>aa_asset = sample_in, aa_amount = 100\<rparr>,
     ep_simulated_net_output = \<lparr>aa_asset = sample_out, aa_amount = 60\<rparr>,
     ep_gross_output = \<lparr>aa_asset = sample_out, aa_amount = 62\<rparr>,
     ep_cost_components = \<lparr>ec_gas_cost = None, ec_dex_fee = Some \<lparr>aa_asset = sample_out, aa_amount = 2\<rparr>,
       ec_provider_fee = None, ec_tax_cost = None\<rparr>,
     ep_local_state_freshness = FS_Fresh\<rparr>"

definition sample_route :: route_plan where
  "sample_route = sl_route (sample_branch ''p'' 100 60)"

lemmas preview_eval = sample_preview_def sample_intent_def sample_in_def sample_out_def sample_price_def sample_risk_def
  preview_validate_internal_def intent_binding_def validate_aggregate_freshness_def require_fresh_def
  validate_intent_risk_and_amount_def limit_check_def satisfies_limit_price_def limit_price_validate_def
  price_assets_def cost_components_validate_def pair_cost_validate_def output_accounting_def sum_for_asset_def
  present_costs_def map_filter_simps intent_validate_def risk_validate_def string_id_validate_def
  chain_validate_def asset_validate_def ensure_asset_address_def ws_defs validate_nonzero_def checked_add_def
  evaluate_freshness_def policy_validate_def default_freshness_policy_def MIN_POLICY_STALENESS_MS_def
  MAX_POLICY_STALENESS_MS_def MAX_POLICY_FUTURE_SKEW_MS_def DEFAULT_MAX_STALENESS_MS_def
  DEFAULT_MAX_FUTURE_SKEW_MS_def cmp_u128_products_eq Let_def

lemma sample_preview_valid: "preview_validate sample_preview sample_intent sample_route 1500 = Inr sample_preview"
  by (simp add: preview_validate_def sample_route_def sample_branch_def route_binding_def route_validate_def
      leg_validate_def preview_eval)

lemma sample_preview_split_valid:
  "preview_validate_split sample_preview sample_intent sample_split 1500 = Inr sample_preview"
proof -
  have "split_binding sample_preview sample_split = Inr ()"
    by (simp add: split_binding_def sample_split_def sample_branch_def sample_preview_def checked_add_def)
  then show ?thesis
    by (simp add: preview_validate_split_def sample_split_valid) (simp add: sample_split_def preview_eval)
qed

text \<open>C27. A preview that validates against an intent and a route is returned unchanged and is safe to
  execute: it is bound to the intent, spends at most the amount and the maximum cost of the intent
  (exactly the amount when partial fills are not allowed), its net output plus the costs taken from it
  fit the gross quote, and its exact net amounts respect the limit price, compared as products of natural
  numbers. The route delivers exactly the net output, every hop is funded by the one before, and the
  market state is at most the default staleness old.\<close>

theorem validated_preview_sound:
  assumes "preview_validate p intent route now_ms = Inr v" and "now_ms < 2 ^ 63"
  shows "v = p \<and> preview_sound p intent \<and> state_current (rp_state route) now_ms \<and>
    rp_expected_net_output route = ep_simulated_net_output p \<and>
    unat (rl_amount_in (hd (rp_legs route))) \<le> unat (aa_amount (ep_simulated_net_input p)) \<and>
    (\<forall>i. i + 1 < length (rp_legs route) \<longrightarrow>
      unat (rl_amount_in (rp_legs route ! (i + 1))) \<le> unat (rl_expected_amount_out (rp_legs route ! i)))"
proof -
  from assms(1) have steps: "preview_validate_internal p = Inr ()" "intent_binding p intent = Inr ()"
    "route_binding p route = Inr ()" "validate_aggregate_freshness p (rp_state route) now_ms = Inr ()"
    "validate_intent_risk_and_amount p intent = Inr ()" "limit_check p intent = Inr v"
    by (auto simp: preview_validate_def bindR_Inr_iff)
  from preview_soundI [OF steps(1,2,5,6)] aggregate_freshness_current [OF steps(4) assms(2)]
    route_binding_Inr [OF steps(3)] show ?thesis by blast
qed

theorem validated_preview_sound_witness: "preview_sound sample_preview sample_intent"
  using validated_preview_sound [OF sample_preview_valid] by simp

text \<open>A preview that validates against a split plan conserves value over the branches: the budgets of
  the branches add up to the net input and their outputs to the net output, no pool is used twice, and the
  preview has all the guarantees of a validated preview against the oldest state of its branches.\<close>

theorem validated_split_preview_conserves:
  assumes "preview_validate_split p intent split now_ms = Inr v" and "now_ms < 2 ^ 63"
  shows "v = p \<and> preview_sound p intent \<and> state_current (sp_state split) now_ms \<and>
    (\<Sum>leg \<leftarrow> sp_legs split. unat (sl_amount_in leg)) = unat (aa_amount (ep_simulated_net_input p)) \<and>
    (\<Sum>leg \<leftarrow> sp_legs split. leg_output leg) = unat (aa_amount (ep_simulated_net_output p)) \<and>
    distinct (concat (map leg_pools (sp_legs split)))"
proof -
  from assms(1) have steps: "preview_validate_internal p = Inr ()" "intent_binding p intent = Inr ()"
    "split_binding p split = Inr ()" "validate_aggregate_freshness p (sp_state split) now_ms = Inr ()"
    "validate_intent_risk_and_amount p intent = Inr ()" "limit_check p intent = Inr v"
    "split_validate split intent = Inr ()"
    by (auto simp: preview_validate_split_def bindR_Inr_iff)
  from preview_soundI [OF steps(1,2,5,6)] aggregate_freshness_current [OF steps(4) assms(2)]
    split_binding_Inr [OF steps(3)] split_validate_Inr [OF steps(7)] show ?thesis by auto
qed

theorem validated_split_preview_conserves_witness:
  "(\<Sum>leg \<leftarrow> sp_legs sample_split. unat (sl_amount_in leg)) = unat (aa_amount (ep_simulated_net_input sample_preview))"
  using validated_split_preview_conserves [OF sample_preview_split_valid] by simp

end
