(* ===== verification/Signing.thy ===== *)
theory Signing
  imports Policy Exec_Preview
begin

text \<open>
  The signing boundary, \<open>crates/privy/src/signing.rs\<close> and \<open>lib.rs\<close>: the canonical encoding of a
  signing request, its binding to the approval, the intent, the route and the preview, and the
  ledger that lets each idempotency key through once.

  Bytes are \<open>u8\<close> words and a digest is a list of them. SHA-256 is a function of another crate and an
  argument of the definitions that call it. The mutable output vector is passed and returned.
\<close>

section \<open>Encoding\<close>

datatype privy_error =
    PV_SigningUnavailable
  | PV_InvalidExecutionReference
  | PV_ApprovalBindingMismatch
  | PV_UnsupportedChain
  | PV_ApprovalExpired
  | PV_TradingDisabled
  | PV_PreviewRevalidationFailed
  | PV_MissingPayloadDigest
  | PV_DuplicateSigningRequest
  | PV_IdempotencyConflict
  | PV_SignerRejected

type_synonym bytes = "u8 list"
type_synonym digest = bytes
type_synonym hash = "bytes \<Rightarrow> digest"

text \<open>\<open>as_bytes\<close> and \<open>to_be_bytes\<close>: the bytes of a string, and the \<open>n\<close> bytes of a number, most
  significant first.\<close>

definition as_bytes :: "string \<Rightarrow> bytes" where
  "as_bytes s = map (\<lambda>c. of_nat (byte c)) s"

primrec be_bytes :: "nat \<Rightarrow> nat \<Rightarrow> bytes" where
  "be_bytes 0 v = []"
| "be_bytes (Suc n) v = be_bytes n (v div 256) @ [of_nat (v mod 256)]"

definition u16_be :: "u16 \<Rightarrow> bytes" where "u16_be v = be_bytes 2 (unat v)"
definition u32_be :: "u32 \<Rightarrow> bytes" where "u32_be v = be_bytes 4 (unat v)"
definition u64_be :: "u64 \<Rightarrow> bytes" where "u64_be v = be_bytes 8 (unat v)"
definition u128_be :: "u128 \<Rightarrow> bytes" where "u128_be v = be_bytes 16 (unat v)"
definition i64_be :: "i64 \<Rightarrow> bytes" where "i64_be v = u64_be (word_of_int v)"

definition ROUTE_TAG :: bytes where "ROUTE_TAG = as_bytes ''privy.signing.route.v1''"
definition SPLIT_ROUTE_TAG :: bytes where "SPLIT_ROUTE_TAG = as_bytes ''privy.signing.split_route.v1''"
definition REQUEST_TAG :: bytes where "REQUEST_TAG = as_bytes ''privy.signing.request.v1''"
definition INTENT_TAG :: bytes where "INTENT_TAG = as_bytes ''privy.signing.intent.v1''"
definition SCHEMA_VERSION :: u16 where "SCHEMA_VERSION = 1"

definition payload_is_zero :: "digest \<Rightarrow> bool" where
  "payload_is_zero d \<longleftrightarrow> d = replicate 32 0"

definition chain_tag :: "chain_id \<Rightarrow> privy_error + u8" where
  "chain_tag chain =
     (case chain of
        Solana \<Rightarrow> Inr 0
      | Base \<Rightarrow> Inr 1
      | BnbChain \<Rightarrow> Inr 2
      | Ethereum \<Rightarrow> Inr 3
      | RobinhoodAssociated \<Rightarrow> Inr 4
      | Other _ \<Rightarrow> Inl PV_UnsupportedChain)"

definition canonical_chain_tag :: "chain_id \<Rightarrow> privy_error + u8" where
  "canonical_chain_tag chain = chain_tag chain"

definition chain_from_canonical_tag :: "u8 \<Rightarrow> chain_id option" where
  "chain_from_canonical_tag tag =
     (if tag = 0 then Some Solana
      else if tag = 1 then Some Base
      else if tag = 2 then Some BnbChain
      else if tag = 3 then Some Ethereum
      else if tag = 4 then Some RobinhoodAssociated
      else None)"

definition trade_source_tag :: "trade_source \<Rightarrow> u8" where
  "trade_source_tag source =
     (case source of TS_Web \<Rightarrow> 0 | TS_Mcp \<Rightarrow> 1 | TS_Telegram \<Rightarrow> 2 | TS_Internal \<Rightarrow> 3)"

definition amount_type_tag :: "amount_type \<Rightarrow> u8" where
  "amount_type_tag t = (case t of InputAssetAtomic \<Rightarrow> 0 | OutputAssetAtomic \<Rightarrow> 1 | UsdMicros \<Rightarrow> 2)"

definition order_type_tag :: "order_type \<Rightarrow> u8" where
  "order_type_tag t = (case t of Market \<Rightarrow> 0 | Limit \<Rightarrow> 1)"

definition side_tag :: "trade_side \<Rightarrow> u8" where
  "side_tag side = (case side of Buy \<Rightarrow> 0 | Sell \<Rightarrow> 1)"

definition u32_try_from :: "nat \<Rightarrow> privy_error + u32" where
  "u32_try_from n = (if n < 2 ^ 32 then Inr (of_nat n) else Inl PV_ApprovalBindingMismatch)"

definition push_len_prefixed :: "bytes \<Rightarrow> bytes \<Rightarrow> privy_error + bytes" where
  "push_len_prefixed out bytes =
     bindR (u32_try_from (length bytes)) (\<lambda>len. Inr (out @ u32_be len @ bytes))"

definition push_asset :: "bytes \<Rightarrow> asset_id \<Rightarrow> privy_error + bytes" where
  "push_asset out asset =
     bindR (chain_tag (asset_chain asset)) (\<lambda>tag.
     push_len_prefixed (out @ [tag]) (as_bytes (asset_address asset)))"

definition hex_digit :: "u8 \<Rightarrow> char" where
  "hex_digit n = ''0123456789abcdef'' ! unat n"

definition hex_lower :: "bytes \<Rightarrow> string" where
  "hex_lower bytes = concat (map (\<lambda>byte. [hex_digit (drop_bit 4 byte), hex_digit (byte AND 0x0f)]) bytes)"

fun push_legs :: "bytes \<Rightarrow> route_leg list \<Rightarrow> privy_error + bytes" where
  "push_legs bytes [] = Inr bytes"
| "push_legs bytes (leg # legs) =
     bindR (push_len_prefixed bytes (as_bytes (rl_venue leg))) (\<lambda>bytes.
     bindR (push_len_prefixed bytes (as_bytes (rl_pool_ref leg))) (\<lambda>bytes.
     bindR (push_asset bytes (rl_token_in leg)) (\<lambda>bytes.
     bindR (push_asset bytes (rl_token_out leg)) (\<lambda>bytes.
     push_legs (bytes @ u128_be (rl_amount_in leg) @ u128_be (rl_expected_amount_out leg)) legs))))"

definition compute_route_digest :: "hash \<Rightarrow> route_plan \<Rightarrow> privy_error + digest" where
  "compute_route_digest sha256 route =
     bindR (u32_try_from (length (rp_legs route))) (\<lambda>leg_count.
     bindR (push_legs (ROUTE_TAG @ u32_be leg_count) (rp_legs route)) (\<lambda>bytes.
     bindR (push_asset bytes (aa_asset (rp_expected_net_output route))) (\<lambda>bytes.
     Inr (sha256 (bytes @ u128_be (aa_amount (rp_expected_net_output route)))))))"

fun push_branches :: "bytes \<Rightarrow> u128 \<Rightarrow> split_leg list \<Rightarrow> privy_error + bytes \<times> u128" where
  "push_branches bytes aggregate_input [] = Inr (bytes, aggregate_input)"
| "push_branches bytes aggregate_input (branch # branches) =
     (let route = sl_route branch in
      bindR (u32_try_from (length (rp_legs route))) (\<lambda>route_legs.
      bindR (push_legs (bytes @ u128_be (sl_amount_in branch) @ u32_be route_legs) (rp_legs route)) (\<lambda>bytes.
      bindR (push_asset bytes (aa_asset (rp_expected_net_output route))) (\<lambda>bytes.
      bindR (ok_or PV_ApprovalBindingMismatch (checked_add aggregate_input (sl_amount_in branch))) (\<lambda>aggregate.
      push_branches (bytes @ u128_be (aa_amount (rp_expected_net_output route))) aggregate branches)))))"

definition compute_split_route_digest :: "hash \<Rightarrow> split_plan \<Rightarrow> privy_error + digest" where
  "compute_split_route_digest sha256 split =
     bindR (u32_try_from (length (sp_legs split))) (\<lambda>branch_count.
     bindR (push_branches (SPLIT_ROUTE_TAG @ u32_be branch_count) 0 (sp_legs split)) (\<lambda>(bytes, aggregate_input).
     bindR (push_asset bytes (aa_asset (sp_expected_net_output split))) (\<lambda>bytes.
     Inr (sha256 (bytes @ u128_be aggregate_input @ u128_be (aa_amount (sp_expected_net_output split)))))))"

definition push_limit_price :: "bytes \<Rightarrow> limit_price option \<Rightarrow> privy_error + bytes" where
  "push_limit_price bytes limit_price =
     (case limit_price of
        Some limit \<Rightarrow>
          bindR (push_asset (bytes @ [1]) (lp_numerator_asset limit)) (\<lambda>bytes.
          bindR (push_asset bytes (lp_denominator_asset limit)) (\<lambda>bytes.
          Inr (bytes @ u128_be (numerator_atomic (lp_ratio limit)) @ u128_be (denominator_atomic (lp_ratio limit)))))
      | None \<Rightarrow> Inr (bytes @ [0]))"

definition push_total_cost :: "bytes \<Rightarrow> asset_amount option \<Rightarrow> privy_error + bytes" where
  "push_total_cost bytes cost =
     (case cost of
        Some total_cost \<Rightarrow>
          bindR (push_asset (bytes @ [1]) (aa_asset total_cost)) (\<lambda>bytes.
          Inr (bytes @ u128_be (aa_amount total_cost)))
      | None \<Rightarrow> Inr (bytes @ [0]))"

definition expiry_bytes :: "i64 option \<Rightarrow> bytes" where
  "expiry_bytes expiry_ms = (case expiry_ms of Some expiry \<Rightarrow> 1 # i64_be expiry | None \<Rightarrow> [0])"

definition compute_intent_digest :: "hash \<Rightarrow> trade_intent \<Rightarrow> privy_error + digest" where
  "compute_intent_digest sha256 intent =
     bindR (push_len_prefixed INTENT_TAG (as_bytes (ti_id intent))) (\<lambda>bytes.
     bindR (push_len_prefixed (bytes @ [trade_source_tag (ti_source intent)]) (as_bytes (ti_user_id intent))) (\<lambda>bytes.
     bindR (push_len_prefixed bytes (as_bytes (ti_wallet_ref intent))) (\<lambda>bytes.
     bindR (chain_tag (ti_chain intent)) (\<lambda>tag.
     bindR (push_asset (bytes @ [tag]) (ti_token_in intent)) (\<lambda>bytes.
     bindR (push_asset bytes (ti_token_out intent)) (\<lambda>bytes.
     let bytes = bytes @ [side_tag (ti_side intent), amount_type_tag (ti_amount_type intent)]
           @ u128_be (ti_amount intent) @ [order_type_tag (ti_order_type intent)] in
     bindR (push_limit_price bytes (ti_limit_price intent)) (\<lambda>bytes.
     let bytes = bytes @ u16_be (max_buy_tax (ti_risk intent)) @ u16_be (max_sell_tax (ti_risk intent))
           @ u16_be (max_price_impact (ti_risk intent)) @ u16_be (max_slippage (ti_risk intent)) in
     bindR (push_total_cost bytes (max_total_cost (ti_risk intent))) (\<lambda>bytes.
     let bytes = bytes @ [if ti_allow_partial_fill intent then 1 else 0]
           @ expiry_bytes (ti_expiry_ms intent) @ u64_be (ti_nonce intent) in
     bindR (push_len_prefixed bytes (as_bytes (ti_idempotency_key intent))) (\<lambda>bytes.
     Inr (sha256 bytes))))))))))"

record prepared_execution_ref =
  px_reference :: string
  px_intent_id :: intent_id
  px_idempotency_key :: idempotency_key

definition prepared_new ::
  "string \<Rightarrow> intent_id \<Rightarrow> idempotency_key \<Rightarrow> privy_error + prepared_execution_ref" where
  "prepared_new reference intent_id key =
     (if trim_is_empty reference then Inl PV_InvalidExecutionReference
      else Inr \<lparr>px_reference = reference, px_intent_id = intent_id, px_idempotency_key = key\<rparr>)"

definition compute_request_digest ::
  "hash \<Rightarrow> approved_execution \<Rightarrow> prepared_execution_ref \<Rightarrow> trade_intent \<Rightarrow> execution_preview \<Rightarrow>
     digest \<Rightarrow> digest \<Rightarrow> digest \<Rightarrow> privy_error + digest" where
  "compute_request_digest sha256 approval prepared intent preview payload_digest route_digest intent_digest =
     bindR (push_len_prefixed (REQUEST_TAG @ u16_be SCHEMA_VERSION) (as_bytes (ti_id intent))) (\<lambda>bytes.
     bindR (push_len_prefixed bytes (as_bytes (ti_idempotency_key intent))) (\<lambda>bytes.
     bindR (push_len_prefixed bytes (as_bytes (ti_wallet_ref intent))) (\<lambda>bytes.
     bindR (chain_tag (ti_chain intent)) (\<lambda>tag.
     bindR (push_asset (bytes @ [tag] @ u64_be (ti_nonce intent) @ [side_tag (ti_side intent)])
              (ti_token_in intent)) (\<lambda>bytes.
     bindR (push_asset bytes (ti_token_out intent)) (\<lambda>bytes.
     let bytes = bytes @ u128_be (aa_amount (ep_simulated_net_input preview))
           @ u128_be (aa_amount (ep_gross_output preview))
           @ u128_be (aa_amount (ep_simulated_net_output preview))
           @ payload_digest @ expiry_bytes (ae_expires_at_ms approval)
           @ i64_be (ae_approved_at_ms approval) @ u64_be (ae_approved_trade_usd approval) in
     bindR (push_len_prefixed bytes (as_bytes (px_reference prepared))) (\<lambda>bytes.
     Inr (sha256 (bytes @ route_digest @ intent_digest)))))))))"

section \<open>Signing requests\<close>

record signing_request =
  sr_request_digest :: digest
  sr_intent_id :: intent_id
  sr_idempotency_key :: idempotency_key
  sr_wallet_ref :: wallet_ref
  sr_chain :: chain_id
  sr_nonce :: u64
  sr_payload_digest :: digest

text \<open>Steps 1 to 6, which \<open>bind\<close> and \<open>bind_split\<close> share.\<close>

definition bind_checks ::
  "policy_engine \<Rightarrow> approved_execution \<Rightarrow> prepared_execution_ref \<Rightarrow> trade_intent \<Rightarrow> execution_preview \<Rightarrow>
     i64 \<Rightarrow> privy_error + unit" where
  "bind_checks policy approval prepared intent preview now_ms =
     (if ti_id intent \<noteq> ae_intent_id approval \<or> ti_id intent \<noteq> ep_intent_id preview
      then Inl PV_ApprovalBindingMismatch
      else if ti_wallet_ref intent \<noteq> ae_wallet_ref approval \<or> ti_chain intent \<noteq> ae_chain approval \<or>
              ti_chain intent \<noteq> ep_chain preview
      then Inl PV_ApprovalBindingMismatch
      else if ti_idempotency_key intent \<noteq> ae_idempotency_key approval \<or>
              ti_idempotency_key intent \<noteq> px_idempotency_key prepared \<or> px_intent_id prepared \<noteq> ti_id intent
      then Inl PV_ApprovalBindingMismatch
      else if ep_token_in preview \<noteq> ti_token_in intent \<or> ep_token_out preview \<noteq> ti_token_out intent \<or>
              ep_side preview \<noteq> ti_side intent
      then Inl PV_PreviewRevalidationFailed
      else if \<not> is_trading_enabled policy then Inl PV_TradingDisabled
      else if (case ae_expires_at_ms approval of Some expires \<Rightarrow> expires \<le> now_ms | None \<Rightarrow> False)
      then Inl PV_ApprovalExpired
      else Inr ())"

text \<open>The digests and the request, after step 8.\<close>

definition bound_request ::
  "hash \<Rightarrow> approved_execution \<Rightarrow> prepared_execution_ref \<Rightarrow> trade_intent \<Rightarrow> execution_preview \<Rightarrow>
     digest \<Rightarrow> privy_error + digest \<Rightarrow> privy_error + signing_request" where
  "bound_request sha256 approval prepared intent preview payload_digest route_result =
     bindR route_result (\<lambda>route_digest.
     bindR (compute_intent_digest sha256 intent) (\<lambda>intent_digest.
     bindR (compute_request_digest sha256 approval prepared intent preview payload_digest route_digest intent_digest)
       (\<lambda>request_digest.
     Inr \<lparr>sr_request_digest = request_digest, sr_intent_id = ti_id intent,
          sr_idempotency_key = ti_idempotency_key intent, sr_wallet_ref = ti_wallet_ref intent,
          sr_chain = ti_chain intent, sr_nonce = ti_nonce intent, sr_payload_digest = payload_digest\<rparr>)))"

definition signing_bind ::
  "hash \<Rightarrow> policy_engine \<Rightarrow> approved_execution \<Rightarrow> prepared_execution_ref \<Rightarrow> trade_intent \<Rightarrow> route_plan \<Rightarrow>
     execution_preview \<Rightarrow> digest \<Rightarrow> i64 \<Rightarrow> privy_error + signing_request" where
  "signing_bind sha256 policy approval prepared intent route preview payload_digest now_ms =
     bindR (bind_checks policy approval prepared intent preview now_ms) (\<lambda>_.
     bindR (map_err (\<lambda>_. PV_PreviewRevalidationFailed) (preview_validate preview intent route now_ms)) (\<lambda>_.
     if payload_is_zero payload_digest then Inl PV_MissingPayloadDigest
     else bound_request sha256 approval prepared intent preview payload_digest (compute_route_digest sha256 route)))"

definition signing_bind_split ::
  "hash \<Rightarrow> policy_engine \<Rightarrow> approved_execution \<Rightarrow> prepared_execution_ref \<Rightarrow> trade_intent \<Rightarrow> split_plan \<Rightarrow>
     execution_preview \<Rightarrow> digest \<Rightarrow> i64 \<Rightarrow> privy_error + signing_request" where
  "signing_bind_split sha256 policy approval prepared intent split preview payload_digest now_ms =
     bindR (bind_checks policy approval prepared intent preview now_ms) (\<lambda>_.
     bindR (map_err (\<lambda>_. PV_PreviewRevalidationFailed) (preview_validate_split preview intent split now_ms)) (\<lambda>_.
     if payload_is_zero payload_digest then Inl PV_MissingPayloadDigest
     else bound_request sha256 approval prepared intent preview payload_digest (compute_split_route_digest sha256 split)))"

definition provider_idempotency_id :: "signing_request \<Rightarrow> string" where
  "provider_idempotency_id request = ''pep-sign-v1-'' @ hex_lower (sr_request_digest request)"

section \<open>The signing ledger\<close>

record privy_signed_ref =
  vs_reference :: string
  vs_request_digest :: digest
  vs_intent_id :: intent_id
  vs_idempotency_key :: idempotency_key

definition privy_signed_new ::
  "string \<Rightarrow> digest \<Rightarrow> intent_id \<Rightarrow> idempotency_key \<Rightarrow> privy_error + privy_signed_ref" where
  "privy_signed_new reference request_digest intent_id key =
     (if trim_is_empty reference then Inl PV_InvalidExecutionReference
      else Inr \<lparr>vs_reference = reference, vs_request_digest = request_digest, vs_intent_id = intent_id,
                vs_idempotency_key = key\<rparr>)"

text \<open>
  The boundary's \<open>seen\<close> ledger. The transport is injected; a call is given what it answers
  (\<open>answer\<close>) and returns the request and identifier it was called with, if it was called.
\<close>

type_synonym signing_ledger = "(idempotency_key \<times> digest) list"

definition submit_signing_request ::
  "signing_ledger \<Rightarrow> signing_request \<Rightarrow> privy_error + string \<Rightarrow>
     signing_ledger \<times> (signing_request \<times> string) option \<times> (privy_error + privy_signed_ref)" where
  "submit_signing_request seen request answer =
     (case map_of seen (sr_idempotency_key request) of
        Some existing \<Rightarrow>
          if existing = sr_request_digest request then (seen, None, Inl PV_DuplicateSigningRequest)
          else (seen, None, Inl PV_IdempotencyConflict)
      | None \<Rightarrow>
          ((sr_idempotency_key request, sr_request_digest request) # seen,
           Some (request, provider_idempotency_id request),
           bindR answer (\<lambda>reference.
           privy_signed_new reference (sr_request_digest request) (sr_intent_id request) (sr_idempotency_key request))))"

text \<open>Calls of the boundary one after the other, and the calls of the transport they make.\<close>

fun transport_calls :: "signing_ledger \<Rightarrow> (signing_request \<times> (privy_error + string)) list \<Rightarrow> (signing_request \<times> string) list" where
  "transport_calls seen [] = []"
| "transport_calls seen ((request, answer) # calls) =
     (case submit_signing_request seen request answer of
        (seen', Some call, _) \<Rightarrow> call # transport_calls seen' calls
      | (seen', None, _) \<Rightarrow> transport_calls seen' calls)"

lemma transport_calls_once:
  "distinct (map (\<lambda>c. sr_idempotency_key (fst c)) (transport_calls seen calls)) \<and>
   (\<forall>c \<in> set (transport_calls seen calls). map_of seen (sr_idempotency_key (fst c)) = None)"
proof (induction calls arbitrary: seen)
  case (Cons call calls)
  obtain request answer where c: "call = (request, answer)" by (cases call)
  show ?case
  proof (cases "map_of seen (sr_idempotency_key request)")
    case None
    with c Cons.IH [of "(sr_idempotency_key request, sr_request_digest request) # seen"] show ?thesis
      by (auto simp: submit_signing_request_def split: if_splits)
  next
    case (Some d)
    with c Cons.IH [of seen] show ?thesis by (auto simp: submit_signing_request_def)
  qed
qed simp

lemma chain_tag_roundtrip: "chain_from_canonical_tag tag = Some chain \<longleftrightarrow> canonical_chain_tag chain = Inr tag"
  by (cases chain) (auto simp: chain_from_canonical_tag_def canonical_chain_tag_def chain_tag_def)

section \<open>The documented layout\<close>

text \<open>
  The byte strings of the documentation of \<open>signing.rs\<close> in closed form, and that the encoders
  succeed on encodable data only and then hash these strings.
\<close>

definition lp :: "bytes \<Rightarrow> bytes" where
  "lp x = be_bytes 4 (length x) @ x"

definition lp_ok :: "string \<Rightarrow> bool" where
  "lp_ok s \<longleftrightarrow> length s < 2 ^ 32"

definition chain_byte :: "chain_id \<Rightarrow> u8" where
  "chain_byte chain = (case chain_tag chain of Inr tag \<Rightarrow> tag | Inl _ \<Rightarrow> 255)"

definition chain_ok :: "chain_id \<Rightarrow> bool" where
  "chain_ok chain \<longleftrightarrow> (\<forall>name. chain \<noteq> Other name)"

definition asset_bytes :: "asset_id \<Rightarrow> bytes" where
  "asset_bytes a = chain_byte (asset_chain a) # lp (as_bytes (asset_address a))"

definition asset_ok :: "asset_id \<Rightarrow> bool" where
  "asset_ok a \<longleftrightarrow> chain_ok (asset_chain a) \<and> lp_ok (asset_address a)"

definition leg_bytes :: "route_leg \<Rightarrow> bytes" where
  "leg_bytes leg = lp (as_bytes (rl_venue leg)) @ lp (as_bytes (rl_pool_ref leg)) @
     asset_bytes (rl_token_in leg) @ asset_bytes (rl_token_out leg) @
     u128_be (rl_amount_in leg) @ u128_be (rl_expected_amount_out leg)"

definition leg_ok :: "route_leg \<Rightarrow> bool" where
  "leg_ok leg \<longleftrightarrow> lp_ok (rl_venue leg) \<and> lp_ok (rl_pool_ref leg) \<and> asset_ok (rl_token_in leg) \<and> asset_ok (rl_token_out leg)"

definition legs_ok :: "route_leg list \<Rightarrow> bool" where
  "legs_ok legs \<longleftrightarrow> length legs < 2 ^ 32 \<and> (\<forall>leg \<in> set legs. leg_ok leg)"

definition legs_bytes :: "route_leg list \<Rightarrow> bytes" where
  "legs_bytes legs = be_bytes 4 (length legs) @ concat (map leg_bytes legs)"

definition route_bytes :: "route_plan \<Rightarrow> bytes" where
  "route_bytes route = ROUTE_TAG @ legs_bytes (rp_legs route) @
     asset_bytes (aa_asset (rp_expected_net_output route)) @ u128_be (aa_amount (rp_expected_net_output route))"

definition route_ok :: "route_plan \<Rightarrow> bool" where
  "route_ok route \<longleftrightarrow> legs_ok (rp_legs route) \<and> asset_ok (aa_asset (rp_expected_net_output route))"

definition branch_bytes :: "split_leg \<Rightarrow> bytes" where
  "branch_bytes branch = u128_be (sl_amount_in branch) @ legs_bytes (rp_legs (sl_route branch)) @
     asset_bytes (aa_asset (rp_expected_net_output (sl_route branch))) @
     u128_be (aa_amount (rp_expected_net_output (sl_route branch)))"

definition split_route_bytes :: "u128 \<Rightarrow> split_plan \<Rightarrow> bytes" where
  "split_route_bytes aggregate_input split = SPLIT_ROUTE_TAG @ be_bytes 4 (length (sp_legs split)) @
     concat (map branch_bytes (sp_legs split)) @ asset_bytes (aa_asset (sp_expected_net_output split)) @
     u128_be aggregate_input @ u128_be (aa_amount (sp_expected_net_output split))"

definition limit_bytes :: "limit_price option \<Rightarrow> bytes" where
  "limit_bytes limit_price =
     (case limit_price of
        Some limit \<Rightarrow> 1 # asset_bytes (lp_numerator_asset limit) @ asset_bytes (lp_denominator_asset limit) @
          u128_be (numerator_atomic (lp_ratio limit)) @ u128_be (denominator_atomic (lp_ratio limit))
      | None \<Rightarrow> [0])"

definition cost_bytes :: "asset_amount option \<Rightarrow> bytes" where
  "cost_bytes cost =
     (case cost of Some c \<Rightarrow> 1 # asset_bytes (aa_asset c) @ u128_be (aa_amount c) | None \<Rightarrow> [0])"

definition limit_ok :: "limit_price option \<Rightarrow> bool" where
  "limit_ok limit_price \<longleftrightarrow>
     (case limit_price of Some limit \<Rightarrow> asset_ok (lp_numerator_asset limit) \<and> asset_ok (lp_denominator_asset limit)
      | None \<Rightarrow> True)"

definition cost_ok :: "asset_amount option \<Rightarrow> bool" where
  "cost_ok cost \<longleftrightarrow> (case cost of Some c \<Rightarrow> asset_ok (aa_asset c) | None \<Rightarrow> True)"

definition intent_bytes :: "trade_intent \<Rightarrow> bytes" where
  "intent_bytes i = INTENT_TAG @ lp (as_bytes (ti_id i)) @ [trade_source_tag (ti_source i)] @
     lp (as_bytes (ti_user_id i)) @ lp (as_bytes (ti_wallet_ref i)) @ [chain_byte (ti_chain i)] @
     asset_bytes (ti_token_in i) @ asset_bytes (ti_token_out i) @
     [side_tag (ti_side i), amount_type_tag (ti_amount_type i)] @ u128_be (ti_amount i) @
     [order_type_tag (ti_order_type i)] @ limit_bytes (ti_limit_price i) @
     u16_be (max_buy_tax (ti_risk i)) @ u16_be (max_sell_tax (ti_risk i)) @
     u16_be (max_price_impact (ti_risk i)) @ u16_be (max_slippage (ti_risk i)) @
     cost_bytes (max_total_cost (ti_risk i)) @ [if ti_allow_partial_fill i then 1 else 0] @
     expiry_bytes (ti_expiry_ms i) @ u64_be (ti_nonce i) @ lp (as_bytes (ti_idempotency_key i))"

definition intent_ok :: "trade_intent \<Rightarrow> bool" where
  "intent_ok i \<longleftrightarrow> lp_ok (ti_id i) \<and> lp_ok (ti_user_id i) \<and> lp_ok (ti_wallet_ref i) \<and> chain_ok (ti_chain i) \<and>
     asset_ok (ti_token_in i) \<and> asset_ok (ti_token_out i) \<and> limit_ok (ti_limit_price i) \<and>
     cost_ok (max_total_cost (ti_risk i)) \<and> lp_ok (ti_idempotency_key i)"

definition request_bytes ::
  "approved_execution \<Rightarrow> prepared_execution_ref \<Rightarrow> trade_intent \<Rightarrow> execution_preview \<Rightarrow>
     digest \<Rightarrow> digest \<Rightarrow> digest \<Rightarrow> bytes" where
  "request_bytes approval prepared i preview payload_digest route_digest intent_digest =
     REQUEST_TAG @ u16_be SCHEMA_VERSION @ lp (as_bytes (ti_id i)) @ lp (as_bytes (ti_idempotency_key i)) @
     lp (as_bytes (ti_wallet_ref i)) @ [chain_byte (ti_chain i)] @ u64_be (ti_nonce i) @ [side_tag (ti_side i)] @
     asset_bytes (ti_token_in i) @ asset_bytes (ti_token_out i) @
     u128_be (aa_amount (ep_simulated_net_input preview)) @ u128_be (aa_amount (ep_gross_output preview)) @
     u128_be (aa_amount (ep_simulated_net_output preview)) @ payload_digest @
     expiry_bytes (ae_expires_at_ms approval) @ i64_be (ae_approved_at_ms approval) @
     u64_be (ae_approved_trade_usd approval) @ lp (as_bytes (px_reference prepared)) @ route_digest @ intent_digest"

lemma length_as_bytes [simp]: "length (as_bytes s) = length s"
  by (simp add: as_bytes_def)

lemma length_be_bytes [simp]: "length (be_bytes n v) = n"
  by (induction n arbitrary: v) simp_all

lemma u32_try_from_Inr_iff [result_iff]: "u32_try_from n = Inr w \<longleftrightarrow> n < 2 ^ 32 \<and> w = of_nat n"
  by (auto simp: u32_try_from_def)

lemma u32_be_of_nat: "n < 2 ^ 32 \<Longrightarrow> u32_be (of_nat n) = be_bytes 4 n"
  by (simp add: u32_be_def unat_of_nat_bound)

lemma push_len_prefixed_Inr_iff [result_iff]:
  "push_len_prefixed out (as_bytes s) = Inr r \<longleftrightarrow> lp_ok s \<and> r = out @ lp (as_bytes s)"
  by (auto simp: push_len_prefixed_def lp_def lp_ok_def result_iff u32_be_of_nat)

lemma chain_tag_Inr_iff [result_iff]: "chain_tag chain = Inr tag \<longleftrightarrow> chain_ok chain \<and> tag = chain_byte chain"
  by (cases chain) (auto simp: chain_tag_def chain_ok_def chain_byte_def)

lemma push_asset_Inr_iff [result_iff]: "push_asset out a = Inr r \<longleftrightarrow> asset_ok a \<and> r = out @ asset_bytes a"
  by (auto simp: push_asset_def asset_ok_def asset_bytes_def result_iff)

lemma push_legs_Inr_iff:
  "push_legs out legs = Inr r \<longleftrightarrow> (\<forall>leg \<in> set legs. leg_ok leg) \<and> r = out @ concat (map leg_bytes legs)"
  by (induction out legs arbitrary: r rule: push_legs.induct) (auto simp: result_iff leg_ok_def leg_bytes_def)

lemma compute_route_digest_Inr_iff:
  "compute_route_digest sha256 route = Inr d \<longleftrightarrow> route_ok route \<and> d = sha256 (route_bytes route)"
  by (auto simp: compute_route_digest_def route_ok_def route_bytes_def legs_ok_def legs_bytes_def result_iff
      push_legs_Inr_iff u32_be_of_nat)

lemma push_limit_price_Inr_iff [result_iff]:
  "push_limit_price out l = Inr r \<longleftrightarrow> limit_ok l \<and> r = out @ limit_bytes l"
  by (auto simp: push_limit_price_def limit_ok_def limit_bytes_def result_iff split: option.splits)

lemma push_total_cost_Inr_iff [result_iff]:
  "push_total_cost out c = Inr r \<longleftrightarrow> cost_ok c \<and> r = out @ cost_bytes c"
  by (auto simp: push_total_cost_def cost_ok_def cost_bytes_def result_iff split: option.splits)

lemma compute_intent_digest_Inr_iff:
  "compute_intent_digest sha256 i = Inr d \<longleftrightarrow> intent_ok i \<and> d = sha256 (intent_bytes i)"
  by (auto simp: compute_intent_digest_def intent_ok_def intent_bytes_def result_iff Let_def)

lemma compute_request_digest_Inr_iff:
  "compute_request_digest sha256 approval prepared i preview pd rd idg = Inr d \<longleftrightarrow>
     lp_ok (ti_id i) \<and> lp_ok (ti_idempotency_key i) \<and> lp_ok (ti_wallet_ref i) \<and> chain_ok (ti_chain i) \<and>
     asset_ok (ti_token_in i) \<and> asset_ok (ti_token_out i) \<and> lp_ok (px_reference prepared) \<and>
     d = sha256 (request_bytes approval prepared i preview pd rd idg)"
  by (auto simp: compute_request_digest_def request_bytes_def result_iff Let_def)

lemma push_branches_Inr:
  "push_branches out acc branches = Inr (r, agg) \<Longrightarrow>
     (\<forall>b \<in> set branches. route_ok (sl_route b)) \<and> r = out @ concat (map branch_bytes branches) \<and>
     unat agg = unat acc + (\<Sum>b \<leftarrow> branches. unat (sl_amount_in b))"
proof (induction branches arbitrary: out acc)
  case (Cons b branches)
  let ?route = "sl_route b"
  from Cons.prems obtain agg' where b: "route_ok ?route" "checked_add acc (sl_amount_in b) = Some agg'"
    and rest: "push_branches (out @ branch_bytes b) agg' branches = Inr (r, agg)"
    by (auto simp: result_iff push_legs_Inr_iff Let_def route_ok_def legs_ok_def legs_bytes_def branch_bytes_def
        u32_be_of_nat)
  from Cons.IH [OF rest] b show ?case by (auto simp: rust_arith)
qed simp

lemma compute_split_route_digest_Inr:
  assumes "compute_split_route_digest sha256 split = Inr d"
  obtains agg where "length (sp_legs split) < 2 ^ 32" "\<forall>b \<in> set (sp_legs split). route_ok (sl_route b)"
    "asset_ok (aa_asset (sp_expected_net_output split))" "d = sha256 (split_route_bytes agg split)"
    "unat agg = (\<Sum>b \<leftarrow> sp_legs split. unat (sl_amount_in b))"
proof -
  from assms obtain bytes agg where s: "length (sp_legs split) < 2 ^ 32"
    "push_branches (SPLIT_ROUTE_TAG @ be_bytes 4 (length (sp_legs split))) 0 (sp_legs split) = Inr (bytes, agg)"
    "asset_ok (aa_asset (sp_expected_net_output split))"
    "d = sha256 (bytes @ asset_bytes (aa_asset (sp_expected_net_output split)) @ u128_be agg @
       u128_be (aa_amount (sp_expected_net_output split)))"
    by (auto simp: compute_split_route_digest_def result_iff u32_be_of_nat split: prod.splits)
  from push_branches_Inr [OF s(2)] s(1,3,4) show thesis
    by (intro that [of agg]) (auto simp: split_route_bytes_def)
qed

section \<open>The layout can be read back\<close>

text \<open>Each field determines itself and what follows it, so the whole string determines every field.\<close>

named_theorems layout \<open>a field at the head of two equal byte strings\<close>

lemma be_bytes_inj: "v < 256 ^ n \<Longrightarrow> w < 256 ^ n \<Longrightarrow> be_bytes n v = be_bytes n w \<longleftrightarrow> v = w"
proof (induction n arbitrary: v w)
  case (Suc n)
  have "unat (of_nat (x mod 256) :: u8) = x mod 256" for x
    by (rule unat_of_nat_bound) simp
  then have "(of_nat (v mod 256) :: u8) = of_nat (w mod 256) \<longleftrightarrow> v mod 256 = w mod 256"
    by (metis (no_types))
  moreover have "be_bytes n (v div 256) = be_bytes n (w div 256) \<longleftrightarrow> v div 256 = w div 256"
    by (rule Suc.IH) (use Suc.prems in \<open>simp_all add: div_less_iff_less_mult mult.commute\<close>)
  ultimately show ?case by simp (metis div_mult_mod_eq)
qed simp

lemma be_bytes_head:
  "v < 256 ^ n \<Longrightarrow> w < 256 ^ n \<Longrightarrow> be_bytes n v @ r = be_bytes n w @ s \<longleftrightarrow> v = w \<and> r = s"
  by (simp add: be_bytes_inj)

lemma word_be_head [layout]:
  "u16_be a @ r = u16_be a' @ s \<longleftrightarrow> a = a' \<and> r = s"
  "u64_be b @ r = u64_be b' @ s \<longleftrightarrow> b = b' \<and> r = s"
  "u128_be c @ r = u128_be c' @ s \<longleftrightarrow> c = c' \<and> r = s"
  using unat_bound [of a] unat_bound [of a'] unat_bound [of b] unat_bound [of b'] unat_bound [of c] unat_bound [of c']
  by (simp_all add: u16_be_def u64_be_def u128_be_def be_bytes_inj word_unat_eq_iff)

lemma as_bytes_inj: "as_bytes s = as_bytes t \<longleftrightarrow> s = t"
proof -
  have "unat (of_nat (byte c) :: u8) = byte c" for c
    by (rule unat_of_nat_bound) (simp add: byte_def nat_of_char_less_256)
  then have "inj (\<lambda>c. of_nat (byte c) :: u8)"
    by (intro injI) (metis byte_def of_char_eq_iff)
  then show ?thesis by (simp add: as_bytes_def inj_map_eq_map)
qed

lemma lp_head [layout]:
  "lp_ok x \<Longrightarrow> lp_ok y \<Longrightarrow> lp (as_bytes x) @ r = lp (as_bytes y) @ s \<longleftrightarrow> x = y \<and> r = s"
  by (auto simp: lp_def lp_ok_def be_bytes_inj as_bytes_inj)

lemma chain_byte_inj [layout]: "chain_ok c \<Longrightarrow> chain_ok d \<Longrightarrow> chain_byte c = chain_byte d \<longleftrightarrow> c = d"
  by (cases c; cases d) (simp_all add: chain_byte_def chain_tag_def chain_ok_def)

lemma tag_inj [layout]:
  "trade_source_tag a = trade_source_tag a' \<longleftrightarrow> a = a'"
  "side_tag b = side_tag b' \<longleftrightarrow> b = b'"
  "amount_type_tag c = amount_type_tag c' \<longleftrightarrow> c = c'"
  "order_type_tag d = order_type_tag d' \<longleftrightarrow> d = d'"
  by (simp_all add: trade_source_tag_def side_tag_def amount_type_tag_def order_type_tag_def
      split: trade_source.split trade_side.split amount_type.split order_type.split)

lemma asset_head [layout]:
  "asset_ok a \<Longrightarrow> asset_ok b \<Longrightarrow> asset_bytes a @ r = asset_bytes b @ s \<longleftrightarrow> a = b \<and> r = s"
  by (cases a; cases b) (auto simp: asset_bytes_def asset_ok_def layout)

definition in_i64 :: "i64 \<Rightarrow> bool" where
  "in_i64 v \<longleftrightarrow> - (2 ^ 63) \<le> v \<and> v < 2 ^ 63"

lemma i64_be_head [layout]:
  assumes "in_i64 a" and "in_i64 b"
  shows "i64_be a @ r = i64_be b @ s \<longleftrightarrow> a = b \<and> r = s"
proof -
  have "sint (word_of_int v :: u64) = v" if "in_i64 v" for v
    using that by (simp add: in_i64_def sint_sbintrunc' signed_take_bit_int_eq_self)
  then have "(word_of_int a :: u64) = word_of_int b \<longleftrightarrow> a = b" using assms by metis
  then show ?thesis by (simp add: i64_be_def layout)
qed

lemma expiry_head [layout]:
  "pred_option in_i64 a \<Longrightarrow> pred_option in_i64 b \<Longrightarrow>
     expiry_bytes a @ r = expiry_bytes b @ s \<longleftrightarrow> a = b \<and> r = s"
  by (cases a; cases b) (simp_all add: expiry_bytes_def layout)

lemma cost_head [layout]:
  "cost_ok a \<Longrightarrow> cost_ok b \<Longrightarrow> cost_bytes a @ r = cost_bytes b @ s \<longleftrightarrow> a = b \<and> r = s"
  by (cases a; cases b) (auto simp: cost_bytes_def cost_ok_def layout)

lemma limit_head [layout]:
  assumes "limit_ok a" and "limit_ok b"
  shows "limit_bytes a @ r = limit_bytes b @ s \<longleftrightarrow> a = b \<and> r = s"
proof (cases a; cases b)
  fix x y
  assume "a = Some x" "b = Some y"
  with assms show ?thesis
    by (cases x; cases y; cases "lp_ratio x"; cases "lp_ratio y") (auto simp: limit_bytes_def limit_ok_def layout)
qed (simp_all add: limit_bytes_def)

lemma leg_head [layout]:
  "leg_ok a \<Longrightarrow> leg_ok b \<Longrightarrow> leg_bytes a @ r = leg_bytes b @ s \<longleftrightarrow> a = b \<and> r = s"
  by (cases a; cases b) (auto simp: leg_bytes_def leg_ok_def layout)

lemma fields_head:
  assumes "\<And>x y r s. P x \<Longrightarrow> P y \<Longrightarrow> f x @ r = f y @ s \<longleftrightarrow> x = y \<and> r = s"
  shows "length xs = length ys \<Longrightarrow> \<forall>x \<in> set xs. P x \<Longrightarrow> \<forall>y \<in> set ys. P y \<Longrightarrow>
    concat (map f xs) @ r = concat (map f ys) @ s \<longleftrightarrow> xs = ys \<and> r = s"
  by (induction xs ys rule: list_induct2) (auto simp: assms)

lemma legs_head [layout]:
  assumes "legs_ok a" and "legs_ok b"
  shows "legs_bytes a @ r = legs_bytes b @ s \<longleftrightarrow> a = b \<and> r = s"
proof -
  have "legs_bytes a @ r = legs_bytes b @ s \<longleftrightarrow>
      length a = length b \<and> concat (map leg_bytes a) @ r = concat (map leg_bytes b) @ s"
    using assms by (simp add: legs_bytes_def legs_ok_def be_bytes_inj)
  also have "\<dots> \<longleftrightarrow> a = b \<and> r = s"
    using fields_head [of leg_ok leg_bytes a b r s] assms layout by (auto simp: legs_ok_def)
  finally show ?thesis .
qed

text \<open>What a route commits to: its legs and its output, not the state it was computed on.\<close>

lemma route_bytes_inj:
  assumes "route_ok a" and "route_ok b"
  shows "route_bytes a = route_bytes b \<longleftrightarrow>
    rp_legs a = rp_legs b \<and> rp_expected_net_output a = rp_expected_net_output b"
proof -
  have "route_bytes a @ [] = route_bytes b @ [] \<longleftrightarrow>
      rp_legs a = rp_legs b \<and> aa_asset (rp_expected_net_output a) = aa_asset (rp_expected_net_output b) \<and>
      aa_amount (rp_expected_net_output a) = aa_amount (rp_expected_net_output b)"
    using assms by (simp only: route_bytes_def append_assoc same_append_eq route_ok_def layout) auto
  then show ?thesis by (cases "rp_expected_net_output a"; cases "rp_expected_net_output b") simp
qed

lemma split_route_separate: "split_route_bytes agg split \<noteq> route_bytes route"
  by (simp add: split_route_bytes_def route_bytes_def SPLIT_ROUTE_TAG_def ROUTE_TAG_def as_bytes_def byte_def)

lemma flag_byte_inj [layout]: "(if p then 1 else 0 :: u8) = (if q then 1 else 0) \<longleftrightarrow> p = q"
  by simp

lemma intent_bytes_inj:
  assumes "intent_ok a" and "intent_ok b" and "pred_option in_i64 (ti_expiry_ms a)" and "pred_option in_i64 (ti_expiry_ms b)"
  shows "intent_bytes a = intent_bytes b \<longleftrightarrow> a = b"
proof
  assume "intent_bytes a = intent_bytes b"
  then have "intent_bytes a @ [] = intent_bytes b @ []" by simp
  then have f: "ti_id a = ti_id b \<and> ti_source a = ti_source b \<and> ti_user_id a = ti_user_id b \<and>
      ti_wallet_ref a = ti_wallet_ref b \<and> ti_chain a = ti_chain b \<and> ti_token_in a = ti_token_in b \<and>
      ti_token_out a = ti_token_out b \<and> ti_side a = ti_side b \<and> ti_amount_type a = ti_amount_type b \<and>
      ti_amount a = ti_amount b \<and> ti_order_type a = ti_order_type b \<and> ti_limit_price a = ti_limit_price b \<and>
      max_buy_tax (ti_risk a) = max_buy_tax (ti_risk b) \<and> max_sell_tax (ti_risk a) = max_sell_tax (ti_risk b) \<and>
      max_price_impact (ti_risk a) = max_price_impact (ti_risk b) \<and> max_slippage (ti_risk a) = max_slippage (ti_risk b) \<and>
      max_total_cost (ti_risk a) = max_total_cost (ti_risk b) \<and> ti_allow_partial_fill a = ti_allow_partial_fill b \<and>
      ti_expiry_ms a = ti_expiry_ms b \<and> ti_nonce a = ti_nonce b \<and> ti_idempotency_key a = ti_idempotency_key b"
    using assms unfolding intent_ok_def
    by (simp only: intent_bytes_def append_assoc same_append_eq append_Cons append_Nil list.inject layout)
  then have "ti_risk a = ti_risk b" by (intro risk_constraints.equality) simp_all
  with f show "a = b" by (intro trade_intent.equality) simp_all
qed simp

definition digest_ok :: "hash \<Rightarrow> bool" where
  "digest_ok sha256 \<longleftrightarrow> (\<forall>m. length (sha256 m) = 32)"

lemma request_bytes_fields:
  assumes "request_bytes ap px i pv pd rd d = request_bytes ap' px' i' pv' pd' rd' d'"
    and "lp_ok (ti_id i)" "lp_ok (ti_id i')" "lp_ok (ti_idempotency_key i)" "lp_ok (ti_idempotency_key i')"
    and "lp_ok (ti_wallet_ref i)" "lp_ok (ti_wallet_ref i')" "chain_ok (ti_chain i)" "chain_ok (ti_chain i')"
    and "asset_ok (ti_token_in i)" "asset_ok (ti_token_in i')" "asset_ok (ti_token_out i)" "asset_ok (ti_token_out i')"
    and "lp_ok (px_reference px)" "lp_ok (px_reference px')"
    and "length pd = length pd'" "length rd = length rd'"
    and "pred_option in_i64 (ae_expires_at_ms ap)" "pred_option in_i64 (ae_expires_at_ms ap')"
    and "in_i64 (ae_approved_at_ms ap)" "in_i64 (ae_approved_at_ms ap')"
  shows "aa_amount (ep_simulated_net_input pv) = aa_amount (ep_simulated_net_input pv') \<and>
    aa_amount (ep_gross_output pv) = aa_amount (ep_gross_output pv') \<and>
    aa_amount (ep_simulated_net_output pv) = aa_amount (ep_simulated_net_output pv') \<and> pd = pd' \<and>
    ae_expires_at_ms ap = ae_expires_at_ms ap' \<and> ae_approved_at_ms ap = ae_approved_at_ms ap' \<and>
    ae_approved_trade_usd ap = ae_approved_trade_usd ap' \<and> px_reference px = px_reference px' \<and> rd = rd' \<and> d = d'"
proof -
  have pd: "pd @ r = pd' @ s \<longleftrightarrow> pd = pd' \<and> r = s" for r s using assms(16) by simp
  have rd: "rd @ r = rd' @ s \<longleftrightarrow> rd = rd' \<and> r = s" for r s using assms(17) by simp
  show ?thesis using assms(1)
    by (simp only: request_bytes_def append_assoc same_append_eq append_Cons append_Nil list.inject layout pd rd assms)
qed

lemma bound_request_Inr:
  assumes "bound_request sha256 ap px i pv pd route_result = Inr req"
  obtains rd where "route_result = Inr rd" "intent_ok i" "lp_ok (px_reference px)"
    "sr_request_digest req = sha256 (request_bytes ap px i pv pd rd (sha256 (intent_bytes i)))"
    "sr_intent_id req = ti_id i" "sr_idempotency_key req = ti_idempotency_key i" "sr_chain req = ti_chain i"
    "sr_payload_digest req = pd"
  using assms by (auto simp: bound_request_def result_iff compute_intent_digest_Inr_iff compute_request_digest_Inr_iff)

lemma signing_bind_Inr:
  assumes "signing_bind sha256 policy ap px i route pv pd now_ms = Inr req"
  shows "is_trading_enabled policy" and "preview_validate pv i route now_ms = Inr pv" and "route_ok route"
    and "bound_request sha256 ap px i pv pd (Inr (sha256 (route_bytes route))) = Inr req"
    and "bind_checks policy ap px i pv now_ms = Inr ()" and "\<not> payload_is_zero pd"
proof -
  from assms obtain v where v: "bind_checks policy ap px i pv now_ms = Inr ()"
    "preview_validate pv i route now_ms = Inr v" "\<not> payload_is_zero pd"
    "bound_request sha256 ap px i pv pd (compute_route_digest sha256 route) = Inr req"
    by (auto simp: signing_bind_def result_iff)
  from v(2) have "v = pv" by (auto simp: preview_validate_def bindR_Inr_iff dest!: limit_check_Inr)
  moreover from v(4) obtain rd where "compute_route_digest sha256 route = Inr rd"
    by (auto simp: bound_request_def result_iff)
  then have "route_ok route" "compute_route_digest sha256 route = Inr (sha256 (route_bytes route))"
    by (simp_all add: compute_route_digest_Inr_iff)
  ultimately show "is_trading_enabled policy" "preview_validate pv i route now_ms = Inr pv" "route_ok route"
    "bound_request sha256 ap px i pv pd (Inr (sha256 (route_bytes route))) = Inr req"
    "bind_checks policy ap px i pv now_ms = Inr ()" "\<not> payload_is_zero pd"
    using v by (auto simp: bind_checks_def split: if_splits)
qed

lemma bind_checks_Inr:
  "bind_checks policy ap px i pv now_ms = Inr () \<Longrightarrow>
     ae_intent_id ap = ti_id i \<and> ae_wallet_ref ap = ti_wallet_ref i \<and> ae_chain ap = ti_chain i \<and>
     ae_idempotency_key ap = ti_idempotency_key i \<and> px_idempotency_key px = ti_idempotency_key i \<and>
     px_intent_id px = ti_id i \<and> is_trading_enabled policy \<and>
     (\<forall>expires. ae_expires_at_ms ap = Some expires \<longrightarrow> now_ms < expires)"
  by (auto simp: bind_checks_def split: if_splits option.splits)

section \<open>Properties\<close>

text \<open>The three messages that are hashed for a request.\<close>

definition signed_messages ::
  "hash \<Rightarrow> approved_execution \<Rightarrow> prepared_execution_ref \<Rightarrow> trade_intent \<Rightarrow> route_plan \<Rightarrow> execution_preview \<Rightarrow>
     digest \<Rightarrow> bytes set" where
  "signed_messages sha256 ap px i route pv pd =
     {intent_bytes i, route_bytes route,
      request_bytes ap px i pv pd (sha256 (route_bytes route)) (sha256 (intent_bytes i))}"

definition times_in_i64 :: "approved_execution \<Rightarrow> trade_intent \<Rightarrow> bool" where
  "times_in_i64 ap i \<longleftrightarrow> pred_option in_i64 (ti_expiry_ms i) \<and> pred_option in_i64 (ae_expires_at_ms ap) \<and>
     in_i64 (ae_approved_at_ms ap)"

text \<open>C5. The digest of a signing request commits to everything that is signed: if two requests bind
  with the same digest, and SHA-256 has no collision among the messages hashed for the two, then they
  have the same complete intent, the same route legs and output, the same approval and prepared
  execution, the same payload digest and the same simulated amounts. Timestamps are 64-bit integers
  and digests 32 bytes.\<close>

theorem signing_request_binds:
  assumes "signing_bind sha256 policy ap px i route pv pd now_ms = Inr req"
    and "signing_bind sha256 policy' ap' px' i' route' pv' pd' now_ms' = Inr req'"
    and "sr_request_digest req = sr_request_digest req'"
    and "inj_on sha256 (signed_messages sha256 ap px i route pv pd \<union> signed_messages sha256 ap' px' i' route' pv' pd')"
    and "digest_ok sha256" and "length pd = 32" and "length pd' = 32"
    and "times_in_i64 ap i" and "times_in_i64 ap' i'"
  shows "i = i' \<and> rp_legs route = rp_legs route' \<and> rp_expected_net_output route = rp_expected_net_output route' \<and>
    ap = ap' \<and> px = px' \<and> pd = pd' \<and>
    aa_amount (ep_simulated_net_input pv) = aa_amount (ep_simulated_net_input pv') \<and>
    aa_amount (ep_gross_output pv) = aa_amount (ep_gross_output pv') \<and>
    aa_amount (ep_simulated_net_output pv) = aa_amount (ep_simulated_net_output pv')"
proof -
  let ?m = "request_bytes ap px i pv pd (sha256 (route_bytes route)) (sha256 (intent_bytes i))"
  let ?m' = "request_bytes ap' px' i' pv' pd' (sha256 (route_bytes route')) (sha256 (intent_bytes i'))"
  note b = signing_bind_Inr [OF assms(1)] and b' = signing_bind_Inr [OF assms(2)]
  from b(4) b'(4) have ok: "intent_ok i" "intent_ok i'" "lp_ok (px_reference px)" "lp_ok (px_reference px')"
    and d: "sr_request_digest req = sha256 ?m" "sr_request_digest req' = sha256 ?m'"
    by (auto elim!: bound_request_Inr)
  have inj: "x = y" if "sha256 x = sha256 y" "x \<in> signed_messages sha256 ap px i route pv pd"
    "y \<in> signed_messages sha256 ap' px' i' route' pv' pd'" for x y
    using inj_onD [OF assms(4) that(1)] that by blast
  have m: "?m = ?m'" by (rule inj) (use assms(3) d in \<open>simp_all add: signed_messages_def\<close>)
  have f: "aa_amount (ep_simulated_net_input pv) = aa_amount (ep_simulated_net_input pv') \<and>
    aa_amount (ep_gross_output pv) = aa_amount (ep_gross_output pv') \<and>
    aa_amount (ep_simulated_net_output pv) = aa_amount (ep_simulated_net_output pv') \<and> pd = pd' \<and>
    ae_expires_at_ms ap = ae_expires_at_ms ap' \<and> ae_approved_at_ms ap = ae_approved_at_ms ap' \<and>
    ae_approved_trade_usd ap = ae_approved_trade_usd ap' \<and> px_reference px = px_reference px' \<and>
    sha256 (route_bytes route) = sha256 (route_bytes route') \<and> sha256 (intent_bytes i) = sha256 (intent_bytes i')"
    using ok assms(5-) unfolding intent_ok_def digest_ok_def times_in_i64_def
    by (intro request_bytes_fields [OF m]) simp_all
  have "intent_bytes i = intent_bytes i'" by (rule inj) (use f in \<open>simp_all add: signed_messages_def\<close>)
  then have i: "i = i'" using intent_bytes_inj ok assms(8,9) by (simp add: times_in_i64_def)
  have "route_bytes route = route_bytes route'" by (rule inj) (use f in \<open>simp_all add: signed_messages_def\<close>)
  then have "rp_legs route = rp_legs route' \<and> rp_expected_net_output route = rp_expected_net_output route'"
    using route_bytes_inj b(3) b'(3) by simp
  moreover from bind_checks_Inr [OF b(5)] bind_checks_Inr [OF b'(5)] f i have "ap = ap'" "px = px'"
    by (auto intro: approved_execution.equality prepared_execution_ref.equality)
  ultimately show ?thesis using f i by blast
qed

definition sample_engine :: policy_engine where
  "sample_engine = \<lparr>pg_enabled = True, pg_limits = \<lparr>pl_max_trade_usd = 1000, pl_max_hourly_turnover_usd = 5000,
     pl_max_daily_turnover_usd = 9000, pl_max_buy_tax = 500, pl_max_sell_tax = 500, pl_max_price_impact = 500,
     pl_max_slippage = 500, pl_allowed_chains = {Base}, pl_allowed_venues = {}\<rparr>\<rparr>"

definition sample_trade :: "string \<Rightarrow> trade_intent" where
  "sample_trade key = sample_intent\<lparr>ti_idempotency_key := key\<rparr>"

definition sample_approval :: "string \<Rightarrow> approved_execution" where
  "sample_approval key = \<lparr>ae_intent_id = ''i'', ae_wallet_ref = ''w'', ae_chain = Base, ae_idempotency_key = key,
     ae_expires_at_ms = Some 2000, ae_approved_trade_usd = 100, ae_approved_at_ms = 1400\<rparr>"

definition sample_prepared :: "string \<Rightarrow> prepared_execution_ref" where
  "sample_prepared key = \<lparr>px_reference = ''ref'', px_intent_id = ''i'', px_idempotency_key = key\<rparr>"

text \<open>A hash for the samples: length and last byte of the message, in 32 bytes.\<close>

definition sample_weight :: "bytes \<Rightarrow> nat" where
  "sample_weight m = length m + 1000 * unat (last m)"

definition sample_hash :: hash where
  "sample_hash m = be_bytes 32 (sample_weight m)"

definition sample_payload_digest :: digest where
  "sample_payload_digest = sample_hash [7]"

abbreviation sample_bind :: "string \<Rightarrow> privy_error + signing_request" where
  "sample_bind key \<equiv> signing_bind sample_hash sample_engine (sample_approval key) (sample_prepared key)
     (sample_trade key) sample_route sample_preview sample_payload_digest 1500"

lemmas sample_request_defs = sample_trade_def sample_approval_def sample_prepared_def sample_intent_def
  sample_route_def sample_branch_def sample_preview_def sample_in_def sample_out_def sample_price_def sample_risk_def

lemma last_be_bytes: "last (be_bytes (Suc n) v) = of_nat (v mod 256)"
  by simp

lemma last_be_bytes_32: "last (be_bytes 32 v) = of_nat (v mod 256)"
  using last_be_bytes [of 31 v] by simp

lemma be_bytes_nonempty [simp]: "be_bytes n v = [] \<longleftrightarrow> n = 0"
  by (metis length_be_bytes length_0_conv)

lemma length_encoded:
  "length (u16_be a) = 2" "length (u32_be b) = 4" "length (u64_be c) = 8" "length (u128_be d) = 16"
  "length (i64_be e) = 8" "length (lp x) = 4 + length x" "length (asset_bytes f) = 5 + length (asset_address f)"
  by (simp_all add: u16_be_def u32_be_def u64_be_def u128_be_def i64_be_def lp_def asset_bytes_def)

lemma sample_checks:
  "bind_checks sample_engine (sample_approval key) (sample_prepared key) (sample_trade key) sample_preview 1500 = Inr ()"
  by (simp add: bind_checks_def sample_engine_def is_trading_enabled_def sample_request_defs)

lemma sample_preview_trade_valid:
  "\<not> trim_is_empty key \<Longrightarrow> preview_validate sample_preview (sample_trade key) sample_route 1500 = Inr sample_preview"
  by (simp add: preview_validate_def sample_trade_def sample_route_def sample_branch_def route_binding_def
      route_validate_def leg_validate_def preview_eval)

lemma sample_binds:
  assumes "\<not> trim_is_empty key" and "length key < 2 ^ 32"
  shows "\<exists>req. sample_bind key = Inr req"
proof -
  have ok: "intent_ok (sample_trade key)" "lp_ok (px_reference (sample_prepared key))" "route_ok sample_route"
    using assms(2) by (simp_all add: sample_request_defs intent_ok_def lp_ok_def chain_ok_def asset_ok_def
        limit_ok_def cost_ok_def route_ok_def legs_ok_def leg_ok_def)
  have "last (be_bytes 32 7001) \<noteq> last (replicate 32 0)" by (simp add: last_be_bytes_32)
  then have nz: "\<not> payload_is_zero sample_payload_digest"
    by (auto simp: payload_is_zero_def sample_payload_digest_def sample_hash_def sample_weight_def)
  define rd idg where d: "rd = sample_hash (route_bytes sample_route)" "idg = sample_hash (intent_bytes (sample_trade key))"
  have "compute_route_digest sample_hash sample_route = Inr rd"
    using ok by (simp add: compute_route_digest_Inr_iff d)
  moreover have "compute_intent_digest sample_hash (sample_trade key) = Inr idg"
    using ok by (simp add: compute_intent_digest_Inr_iff d)
  moreover have "\<exists>r. compute_request_digest sample_hash (sample_approval key) (sample_prepared key) (sample_trade key)
      sample_preview sample_payload_digest rd idg = Inr r"
    using ok by (simp add: compute_request_digest_Inr_iff intent_ok_def)
  ultimately show ?thesis using sample_checks nz sample_preview_trade_valid [OF assms(1)]
    by (auto simp only: signing_bind_def bound_request_def bindR_simps map_err_simps if_False)
qed

lemma unat_byte: "unat (of_nat (byte c) :: u8) = byte c"
  by (rule unat_of_nat_bound) (simp add: byte_def nat_of_char_less_256)

lemma sample_route_weight: "sample_weight (route_bytes sample_route) = 60107"
proof -
  have "last (u128_be 60) = 60" using last_be_bytes [of 15 60] by (simp add: u128_be_def)
  moreover have "u128_be 60 \<noteq> []" by (simp add: u128_be_def)
  ultimately have "last (route_bytes sample_route) = 60" by (simp add: route_bytes_def sample_request_defs)
  then show ?thesis
    by (simp add: sample_weight_def) (simp add: route_bytes_def sample_request_defs legs_bytes_def leg_bytes_def
        length_encoded ROUTE_TAG_def)
qed

lemma sample_intent_weight: "sample_weight (intent_bytes (sample_trade [c])) = 154 + 1000 * byte c"
proof -
  have "last (intent_bytes (sample_trade [c])) = of_nat (byte c)"
    by (simp add: intent_bytes_def sample_trade_def lp_def as_bytes_def)
  then show ?thesis
    by (simp add: sample_weight_def unat_byte) (simp add: intent_bytes_def sample_request_defs limit_bytes_def cost_bytes_def
        expiry_bytes_def length_encoded INTENT_TAG_def)
qed

lemma sample_request_weight:
  assumes "length rd = 32"
  shows "sample_weight (request_bytes (sample_approval key) (sample_prepared key) (sample_trade [c]) sample_preview
     sample_payload_digest rd (be_bytes 32 v)) = 242 + 1000 * (v mod 256)" (is "sample_weight ?m = _")
proof -
  have "last ?m = of_nat (v mod 256)"
    by (simp add: request_bytes_def last_be_bytes_32)
  moreover have "unat (of_nat (v mod 256) :: u8) = v mod 256" by (rule unat_of_nat_bound) simp
  ultimately show ?thesis using assms
    by (simp only: sample_weight_def) (simp add: request_bytes_def sample_request_defs
        expiry_bytes_def length_encoded REQUEST_TAG_def sample_payload_digest_def sample_hash_def)
qed

lemma sample_hash_separates:
  "inj_on sample_hash
    (signed_messages sample_hash (sample_approval ''k'') (sample_prepared ''k'') (sample_trade ''k'') sample_route
       sample_preview sample_payload_digest \<union>
     signed_messages sample_hash (sample_approval ''l'') (sample_prepared ''l'') (sample_trade ''l'') sample_route
       sample_preview sample_payload_digest)"
proof -
  have inj: "sample_hash x = sample_hash y \<longleftrightarrow> sample_weight x = sample_weight y"
    if "sample_weight x < 256 ^ 32" "sample_weight y < 256 ^ 32" for x y
    using that by (simp add: sample_hash_def be_bytes_inj)
  have i: "sample_weight (intent_bytes (sample_trade ''k'')) = 107154" "sample_weight (intent_bytes (sample_trade ''l'')) = 108154"
    by (simp_all add: sample_intent_weight byte_def)
  have "sample_weight (request_bytes (sample_approval key) (sample_prepared key) (sample_trade [c]) sample_preview
      sample_payload_digest (sample_hash m) (sample_hash m')) = 242 + 1000 * (sample_weight m' mod 256)" for key c m m'
    using sample_request_weight by (simp add: sample_hash_def)
  with i sample_route_weight show ?thesis
    by (simp add: inj_on_def signed_messages_def inj del: One_nat_def)
qed

text \<open>Two trades that differ in their idempotency key only never share a request digest.\<close>

theorem signing_request_binds_witness:
  "\<exists>req req'. sample_bind ''k'' = Inr req \<and> sample_bind ''l'' = Inr req' \<and> sr_request_digest req \<noteq> sr_request_digest req'"
proof -
  obtain req where k: "sample_bind ''k'' = Inr req" using sample_binds [of "''k''"] by (auto simp: ws_defs)
  obtain req' where l: "sample_bind ''l'' = Inr req'" using sample_binds [of "''l''"] by (auto simp: ws_defs)
  have "sample_trade ''k'' \<noteq> sample_trade ''l''" by (simp add: sample_trade_def sample_intent_def)
  then have "sr_request_digest req \<noteq> sr_request_digest req'"
    using signing_request_binds [OF k l _ sample_hash_separates]
    by (auto simp: digest_ok_def sample_hash_def sample_payload_digest_def times_in_i64_def in_i64_def
        sample_approval_def sample_trade_def sample_intent_def)
  with k l show ?thesis by blast
qed

end
