(* ===== verification/Relay_Store.thy ===== *)
theory Relay_Store
  imports Signing "HOL-Library.AList"
begin

text \<open>
  Execution attempts of the relay crate: bound submissions (\<open>crates/execution-relay/src/plan.rs\<close>),
  outcomes, the life cycle and the store trait (\<open>state.rs\<close>), and the two stores of \<open>reservation.rs\<close>.

  The trait \<open>AttemptReservationStore\<close> is the record \<open>store_ops\<close> of the methods the relay calls; a
  method takes the state of the store and returns it changed. The default bodies of the trait are
  definitions of their own. The locale \<open>attempt_store\<close> states what the relay relies on, and
  \<open>durable_store\<close> extends it with what the marker \<open>DurableAttemptStore\<close> stands for. Locks are held for
  one method and recover from poisoning, so a method is one step.
\<close>

section \<open>Bound submissions\<close>

datatype relay_error =
    RE_TradingDisabled
  | RE_ChainHealthUnavailable
  | RE_SigningUnavailable
  | RE_SigningFailed
  | RE_SigningRequestMismatch
  | RE_ChainMismatch
  | RE_MissingSignedPayload
  | RE_SignedPayloadEmpty
  | RE_SignedPayloadTooLarge
  | RE_SignedPayloadDigestMismatch
  | RE_ReservationUnavailable
  | RE_IdempotencyConflict
  | RE_AdapterUnavailable
  | RE_AdapterRejected
  | RE_AdapterTimeout
  | RE_UnknownSubmissionState
  | RE_InvalidTransition
  | RE_StoreUnavailable

definition MAX_SIGNED_PAYLOAD_BYTES :: usize where
  "MAX_SIGNED_PAYLOAD_BYTES = 2 ^ 20"

record signed_payload =
  sy_bytes :: bytes
  sy_digest :: digest

definition signed_payload_new :: "hash \<Rightarrow> bytes \<Rightarrow> relay_error + signed_payload" where
  "signed_payload_new sha256 bytes =
     (if bytes = [] then Inl RE_SignedPayloadEmpty
      else if MAX_SIGNED_PAYLOAD_BYTES < length bytes then Inl RE_SignedPayloadTooLarge
      else Inr \<lparr>sy_bytes = bytes, sy_digest = sha256 bytes\<rparr>)"

record signed_execution_ref =
  se_reference :: string
  se_request_digest :: digest
  se_intent_id :: intent_id
  se_idempotency_key :: idempotency_key

definition signed_ref_new ::
  "string \<Rightarrow> digest \<Rightarrow> intent_id \<Rightarrow> idempotency_key \<Rightarrow> relay_error + signed_execution_ref" where
  "signed_ref_new reference request_digest intent_id key =
     (if trim_is_empty reference then Inl RE_SigningFailed
      else Inr \<lparr>se_reference = reference, se_request_digest = request_digest, se_intent_id = intent_id,
                se_idempotency_key = key\<rparr>)"

record submit_request =
  sb_intent_id :: intent_id
  sb_idempotency_key :: idempotency_key
  sb_chain :: chain_id
  sb_request_digest :: digest
  sb_payload_digest :: digest
  sb_signed_reference :: string
  sb_chain_reference :: "string option"
  sb_payload :: bytes

text \<open>Whether a signed reference attests to a signing request.\<close>

definition attests :: "signed_execution_ref \<Rightarrow> signing_request \<Rightarrow> bool" where
  "attests sref signing \<longleftrightarrow>
     \<not> (se_request_digest sref \<noteq> sr_request_digest signing \<or> se_intent_id sref \<noteq> sr_intent_id signing \<or>
        se_idempotency_key sref \<noteq> sr_idempotency_key signing)"

definition submit_bind ::
  "signing_request \<Rightarrow> signed_execution_ref \<Rightarrow> signed_payload \<Rightarrow> chain_id \<Rightarrow> relay_error + submit_request" where
  "submit_bind signing sref payload chain =
     (if \<not> attests sref signing then Inl RE_SigningRequestMismatch
      else if chain \<noteq> sr_chain signing then Inl RE_ChainMismatch
      else if sy_bytes payload = [] then Inl RE_SignedPayloadEmpty
      else if MAX_SIGNED_PAYLOAD_BYTES < length (sy_bytes payload) then Inl RE_SignedPayloadTooLarge
      else if sy_digest payload \<noteq> sr_payload_digest signing then Inl RE_SignedPayloadDigestMismatch
      else Inr \<lparr>sb_intent_id = sr_intent_id signing, sb_idempotency_key = sr_idempotency_key signing,
                sb_chain = chain, sb_request_digest = sr_request_digest signing,
                sb_payload_digest = sr_payload_digest signing, sb_signed_reference = se_reference sref,
                sb_chain_reference = None, sb_payload = sy_bytes payload\<rparr>)"

definition with_chain_reference :: "submit_request \<Rightarrow> string \<Rightarrow> submit_request" where
  "with_chain_reference request reference =
     (if \<not> trim_is_empty reference then request\<lparr>sb_chain_reference := Some reference\<rparr> else request)"

definition reconciliation_reference :: "submit_request \<Rightarrow> string" where
  "reconciliation_reference request =
     (case sb_chain_reference request of Some r \<Rightarrow> r | None \<Rightarrow> sb_signed_reference request)"

record durable_submission =
  ds_intent_id :: intent_id
  ds_idempotency_key :: idempotency_key
  ds_chain :: chain_id
  ds_request_digest :: digest
  ds_payload_digest :: digest
  ds_signed_reference :: string
  ds_chain_reference :: "string option"
  ds_payload :: bytes

definition submission_new ::
  "hash \<Rightarrow> intent_id \<Rightarrow> idempotency_key \<Rightarrow> chain_id \<Rightarrow> digest \<Rightarrow> digest \<Rightarrow> string \<Rightarrow> string option \<Rightarrow> bytes \<Rightarrow>
     relay_error + durable_submission" where
  "submission_new sha256 intent_id key chain request_digest payload_digest signed_reference chain_reference payload =
     (if trim_is_empty signed_reference then Inl RE_SigningFailed
      else if payload = [] then Inl RE_SignedPayloadEmpty
      else if MAX_SIGNED_PAYLOAD_BYTES < length payload then Inl RE_SignedPayloadTooLarge
      else if sha256 payload \<noteq> payload_digest then Inl RE_SignedPayloadDigestMismatch
      else Inr \<lparr>ds_intent_id = intent_id, ds_idempotency_key = key, ds_chain = chain,
                ds_request_digest = request_digest, ds_payload_digest = payload_digest,
                ds_signed_reference = signed_reference, ds_chain_reference = chain_reference,
                ds_payload = payload\<rparr>)"

definition submission_from_request :: "hash \<Rightarrow> submit_request \<Rightarrow> relay_error + durable_submission" where
  "submission_from_request sha256 r =
     submission_new sha256 (sb_intent_id r) (sb_idempotency_key r) (sb_chain r) (sb_request_digest r)
       (sb_payload_digest r) (sb_signed_reference r) (sb_chain_reference r) (sb_payload r)"

definition set_chain_reference :: "durable_submission \<Rightarrow> string \<Rightarrow> durable_submission" where
  "set_chain_reference s reference =
     (if \<not> trim_is_empty reference then s\<lparr>ds_chain_reference := Some reference\<rparr> else s)"

definition submit_restore :: "hash \<Rightarrow> durable_submission \<Rightarrow> relay_error + submit_request" where
  "submit_restore sha256 s =
     (if ds_payload s = [] then Inl RE_SignedPayloadEmpty
      else if MAX_SIGNED_PAYLOAD_BYTES < length (ds_payload s) then Inl RE_SignedPayloadTooLarge
      else if sha256 (ds_payload s) \<noteq> ds_payload_digest s then Inl RE_SignedPayloadDigestMismatch
      else Inr \<lparr>sb_intent_id = ds_intent_id s, sb_idempotency_key = ds_idempotency_key s, sb_chain = ds_chain s,
                sb_request_digest = ds_request_digest s, sb_payload_digest = ds_payload_digest s,
                sb_signed_reference = ds_signed_reference s, sb_chain_reference = ds_chain_reference s,
                sb_payload = ds_payload s\<rparr>)"

section \<open>Attempts\<close>

datatype submission_state = SS_Unknown | SS_Pending

record observed_fill =
  ob_net_input :: u128
  ob_net_output :: u128

record attempt_binding =
  ab_owner :: user_id
  ab_workspace :: wallet_ref
  ab_idempotency_key :: idempotency_key
  ab_intent_id :: intent_id
  ab_chain :: chain_id

definition binding_from_intent :: "trade_intent \<Rightarrow> attempt_binding" where
  "binding_from_intent intent =
     \<lparr>ab_owner = ti_user_id intent, ab_workspace = ti_wallet_ref intent,
      ab_idempotency_key = ti_idempotency_key intent, ab_intent_id = ti_id intent, ab_chain = ti_chain intent\<rparr>"

datatype attempt_status =
    AS_Reserved
  | AS_SignRequested
  | AS_Signed
  | AS_SubmissionUnknown
  | AS_Submitted
  | AS_Confirmed
  | AS_Rejected
  | AS_FailedBeforeSubmit

definition status_as_str :: "attempt_status \<Rightarrow> string" where
  "status_as_str s =
     (case s of
        AS_Reserved \<Rightarrow> ''RESERVED''
      | AS_SignRequested \<Rightarrow> ''SIGN_REQUESTED''
      | AS_Signed \<Rightarrow> ''SIGNED''
      | AS_SubmissionUnknown \<Rightarrow> ''SUBMISSION_UNKNOWN''
      | AS_Submitted \<Rightarrow> ''SUBMITTED''
      | AS_Confirmed \<Rightarrow> ''CONFIRMED''
      | AS_Rejected \<Rightarrow> ''REJECTED''
      | AS_FailedBeforeSubmit \<Rightarrow> ''FAILED_BEFORE_SUBMIT'')"

definition status_parse :: "string \<Rightarrow> attempt_status option" where
  "status_parse value =
     (if value = ''RESERVED'' then Some AS_Reserved
      else if value = ''SIGN_REQUESTED'' then Some AS_SignRequested
      else if value = ''SIGNED'' then Some AS_Signed
      else if value = ''SUBMISSION_UNKNOWN'' then Some AS_SubmissionUnknown
      else if value = ''SUBMITTED'' then Some AS_Submitted
      else if value = ''CONFIRMED'' then Some AS_Confirmed
      else if value = ''REJECTED'' then Some AS_Rejected
      else if value = ''FAILED_BEFORE_SUBMIT'' then Some AS_FailedBeforeSubmit
      else None)"

definition status_is_terminal :: "attempt_status \<Rightarrow> bool" where
  "status_is_terminal s \<longleftrightarrow> s \<in> {AS_Confirmed, AS_Rejected, AS_FailedBeforeSubmit}"

datatype relay_outcome =
    RO_Prepared
  | RO_Reserved
  | RO_Signed
  | RO_Submitted string submission_state
  | RO_Unknown
  | RO_Confirmed string "observed_fill option"
  | RO_Rejected string
  | RO_FailedBeforeSubmit

definition outcome_order_status :: "relay_outcome \<Rightarrow> order_status" where
  "outcome_order_status r =
     (case r of
        RO_Confirmed _ _ \<Rightarrow> Filled
      | RO_Rejected _ \<Rightarrow> FailedFinal
      | RO_FailedBeforeSubmit \<Rightarrow> FailedRetryable
      | _ \<Rightarrow> Executing)"

definition outcome_attempt_status :: "relay_outcome \<Rightarrow> attempt_status" where
  "outcome_attempt_status r =
     (case r of
        RO_Prepared \<Rightarrow> AS_Reserved
      | RO_Reserved \<Rightarrow> AS_Reserved
      | RO_Signed \<Rightarrow> AS_Signed
      | RO_Submitted _ _ \<Rightarrow> AS_Submitted
      | RO_Unknown \<Rightarrow> AS_SubmissionUnknown
      | RO_Confirmed _ _ \<Rightarrow> AS_Confirmed
      | RO_Rejected _ \<Rightarrow> AS_Rejected
      | RO_FailedBeforeSubmit \<Rightarrow> AS_FailedBeforeSubmit)"

datatype reservation = RV_Reserved | RV_AlreadyReserved relay_outcome | RV_Conflict

section \<open>The store trait\<close>

record 's store_ops =
  op_reserve_bound :: "'s \<Rightarrow> attempt_binding \<Rightarrow> digest \<Rightarrow> 's \<times> (relay_error + reservation)"
  op_record_sign_requested :: "'s \<Rightarrow> attempt_binding \<Rightarrow> digest \<Rightarrow> string \<Rightarrow> 's \<times> (relay_error + unit)"
  op_record_signed_reference :: "'s \<Rightarrow> attempt_binding \<Rightarrow> digest \<Rightarrow> string \<Rightarrow> 's \<times> (relay_error + unit)"
  op_record_submission :: "'s \<Rightarrow> attempt_binding \<Rightarrow> digest \<Rightarrow> submit_request \<Rightarrow> 's \<times> (relay_error + unit)"
  op_load_submission :: "'s \<Rightarrow> attempt_binding \<Rightarrow> relay_error + durable_submission option"
  op_load_outcome :: "'s \<Rightarrow> attempt_binding \<Rightarrow> relay_error + relay_outcome option"
  op_record_outcome :: "'s \<Rightarrow> attempt_binding \<Rightarrow> digest \<Rightarrow> relay_outcome \<Rightarrow> 's \<times> (relay_error + unit)"

definition default_record_sign_requested ::
  "'s \<Rightarrow> attempt_binding \<Rightarrow> digest \<Rightarrow> string \<Rightarrow> 's \<times> (relay_error + unit)" where
  "default_record_sign_requested st binding digest provider_idempotency = (st, Inr ())"

definition default_record_signed_reference ::
  "('s \<Rightarrow> attempt_binding \<Rightarrow> digest \<Rightarrow> 's \<times> (relay_error + unit)) \<Rightarrow>
     's \<Rightarrow> attempt_binding \<Rightarrow> digest \<Rightarrow> string \<Rightarrow> 's \<times> (relay_error + unit)" where
  "default_record_signed_reference record_signed st binding digest signed_reference = record_signed st binding digest"

definition default_record_submission ::
  "'s \<Rightarrow> attempt_binding \<Rightarrow> digest \<Rightarrow> submit_request \<Rightarrow> 's \<times> (relay_error + unit)" where
  "default_record_submission st binding digest request = (st, Inr ())"

definition default_load_submission :: "'s \<Rightarrow> attempt_binding \<Rightarrow> relay_error + durable_submission option" where
  "default_load_submission st binding = Inr None"

definition default_load_outcome :: "'s \<Rightarrow> attempt_binding \<Rightarrow> relay_error + relay_outcome option" where
  "default_load_outcome st binding = Inr None"

section \<open>The in-memory store\<close>

record durable_key =
  dk_owner :: string
  dk_workspace :: string
  dk_idempotency_key :: idempotency_key

definition key_from_binding :: "attempt_binding \<Rightarrow> durable_key" where
  "key_from_binding b =
     \<lparr>dk_owner = ab_owner b, dk_workspace = ab_workspace b, dk_idempotency_key = ab_idempotency_key b\<rparr>"

definition LEGACY_OWNER :: string where "LEGACY_OWNER = ''attempt-store-legacy-owner''"
definition LEGACY_WORKSPACE :: string where "LEGACY_WORKSPACE = ''attempt-store-legacy-workspace''"

definition legacy_binding :: "idempotency_key \<Rightarrow> relay_error + attempt_binding" where
  "legacy_binding key =
     bindR (map_err (\<lambda>_. RE_StoreUnavailable) (string_id_new ''user_id'' LEGACY_OWNER)) (\<lambda>owner.
     bindR (map_err (\<lambda>_. RE_StoreUnavailable) (string_id_new ''wallet_ref'' LEGACY_WORKSPACE)) (\<lambda>workspace.
     bindR (map_err (\<lambda>_. RE_StoreUnavailable) (string_id_new ''intent_id'' LEGACY_OWNER)) (\<lambda>intent_id.
     Inr \<lparr>ab_owner = owner, ab_workspace = workspace, ab_idempotency_key = key, ab_intent_id = intent_id,
          ab_chain = Base\<rparr>)))"

record store_entry =
  sn_digest :: digest
  sn_outcome :: "relay_outcome option"

type_synonym memory_store = "(durable_key \<times> store_entry) list"

definition memory_reserve_bound ::
  "memory_store \<Rightarrow> attempt_binding \<Rightarrow> digest \<Rightarrow> memory_store \<times> (relay_error + reservation)" where
  "memory_reserve_bound entries binding digest =
     (let key = key_from_binding binding in
      case map_of entries key of
        Some entry \<Rightarrow>
          if sn_digest entry = digest
          then (entries, Inr (RV_AlreadyReserved (case sn_outcome entry of Some r \<Rightarrow> r | None \<Rightarrow> RO_Reserved)))
          else (entries, Inr RV_Conflict)
      | None \<Rightarrow> (AList.update key \<lparr>sn_digest = digest, sn_outcome = None\<rparr> entries, Inr RV_Reserved))"

definition memory_reserve ::
  "memory_store \<Rightarrow> idempotency_key \<Rightarrow> digest \<Rightarrow> memory_store \<times> (relay_error + reservation)" where
  "memory_reserve entries key digest =
     (case legacy_binding key of
        Inl e \<Rightarrow> (entries, Inl e)
      | Inr binding \<Rightarrow> memory_reserve_bound entries binding digest)"

definition memory_record_signed ::
  "memory_store \<Rightarrow> attempt_binding \<Rightarrow> digest \<Rightarrow> memory_store \<times> (relay_error + unit)" where
  "memory_record_signed entries binding digest =
     (let key = key_from_binding binding in
      case map_of entries key of
        Some entry \<Rightarrow>
          if sn_digest entry = digest
          then (AList.update key
                  (if sn_outcome entry = None then entry\<lparr>sn_outcome := Some RO_Signed\<rparr> else entry) entries, Inr ())
          else (entries, Inl RE_ReservationUnavailable)
      | None \<Rightarrow> (entries, Inl RE_ReservationUnavailable))"

definition memory_record_outcome ::
  "memory_store \<Rightarrow> attempt_binding \<Rightarrow> digest \<Rightarrow> relay_outcome \<Rightarrow> memory_store \<times> (relay_error + unit)" where
  "memory_record_outcome entries binding digest outcome =
     (let key = key_from_binding binding in
      case map_of entries key of
        Some entry \<Rightarrow>
          if sn_digest entry = digest
          then if (case sn_outcome entry of
                     Some existing \<Rightarrow> status_is_terminal (outcome_attempt_status existing) | None \<Rightarrow> False)
               then (entries, Inr ())
               else (AList.update key (entry\<lparr>sn_outcome := Some outcome\<rparr>) entries, Inr ())
          else (entries, Inl RE_ReservationUnavailable)
      | None \<Rightarrow> (entries, Inl RE_ReservationUnavailable))"

definition memory_ops :: "memory_store store_ops" where
  "memory_ops =
     \<lparr>op_reserve_bound = memory_reserve_bound,
      op_record_sign_requested = default_record_sign_requested,
      op_record_signed_reference = default_record_signed_reference memory_record_signed,
      op_record_submission = default_record_submission,
      op_load_submission = default_load_submission,
      op_load_outcome = default_load_outcome,
      op_record_outcome = memory_record_outcome\<rparr>"

section \<open>The durable reference store\<close>

record durable_entry =
  dt_digest :: digest
  dt_status :: attempt_status
  dt_provider_idempotency :: "string option"
  dt_signed_reference :: "string option"
  dt_submission :: "durable_submission option"
  dt_outcome :: "relay_outcome option"

type_synonym durable_store = "(durable_key \<times> durable_entry) list"

definition entry_for :: "durable_store \<Rightarrow> attempt_binding \<Rightarrow> durable_entry option" where
  "entry_for attempts binding = map_of attempts (key_from_binding binding)"

definition durable_status :: "durable_store \<Rightarrow> attempt_binding \<Rightarrow> attempt_status option" where
  "durable_status attempts binding = map_option dt_status (entry_for attempts binding)"

definition durable_provider_idempotency :: "durable_store \<Rightarrow> attempt_binding \<Rightarrow> string option" where
  "durable_provider_idempotency attempts binding = Option.bind (entry_for attempts binding) dt_provider_idempotency"

definition with_entry ::
  "durable_store \<Rightarrow> attempt_binding \<Rightarrow> digest \<Rightarrow> (durable_entry \<Rightarrow> durable_entry) \<Rightarrow>
     durable_store \<times> (relay_error + unit)" where
  "with_entry attempts binding digest mutate =
     (let key = key_from_binding binding in
      case map_of attempts key of
        Some entry \<Rightarrow>
          if dt_digest entry = digest then (AList.update key (mutate entry) attempts, Inr ())
          else (attempts, Inl RE_ReservationUnavailable)
      | None \<Rightarrow> (attempts, Inl RE_ReservationUnavailable))"

definition durable_reserve_bound ::
  "durable_store \<Rightarrow> attempt_binding \<Rightarrow> digest \<Rightarrow> durable_store \<times> (relay_error + reservation)" where
  "durable_reserve_bound attempts binding digest =
     (let key = key_from_binding binding in
      case map_of attempts key of
        Some entry \<Rightarrow>
          if dt_digest entry = digest
          then (attempts, Inr (RV_AlreadyReserved (case dt_outcome entry of Some r \<Rightarrow> r | None \<Rightarrow> RO_Reserved)))
          else (attempts, Inr RV_Conflict)
      | None \<Rightarrow>
          (AList.update key
             \<lparr>dt_digest = digest, dt_status = AS_Reserved, dt_provider_idempotency = None,
              dt_signed_reference = None, dt_submission = None, dt_outcome = None\<rparr> attempts,
           Inr RV_Reserved))"

definition durable_reserve ::
  "durable_store \<Rightarrow> idempotency_key \<Rightarrow> digest \<Rightarrow> durable_store \<times> (relay_error + reservation)" where
  "durable_reserve attempts key digest =
     (case legacy_binding key of
        Inl e \<Rightarrow> (attempts, Inl e)
      | Inr binding \<Rightarrow> durable_reserve_bound attempts binding digest)"

definition mark_sign_requested :: "string \<Rightarrow> durable_entry \<Rightarrow> durable_entry" where
  "mark_sign_requested value entry =
     (if status_is_terminal (dt_status entry) then entry
      else entry\<lparr>dt_status := AS_SignRequested, dt_provider_idempotency := Some value\<rparr>)"

definition durable_record_sign_requested ::
  "durable_store \<Rightarrow> attempt_binding \<Rightarrow> digest \<Rightarrow> string \<Rightarrow> durable_store \<times> (relay_error + unit)" where
  "durable_record_sign_requested attempts binding digest provider_idempotency =
     with_entry attempts binding digest (mark_sign_requested provider_idempotency)"

definition mark_signed :: "durable_entry \<Rightarrow> durable_entry" where
  "mark_signed entry =
     (if status_is_terminal (dt_status entry) then entry
      else let entry = entry\<lparr>dt_status := AS_Signed\<rparr>
           in if dt_outcome entry = None then entry\<lparr>dt_outcome := Some RO_Signed\<rparr> else entry)"

definition durable_record_signed ::
  "durable_store \<Rightarrow> attempt_binding \<Rightarrow> digest \<Rightarrow> durable_store \<times> (relay_error + unit)" where
  "durable_record_signed attempts binding digest = with_entry attempts binding digest mark_signed"

definition mark_signed_reference :: "string \<Rightarrow> durable_entry \<Rightarrow> durable_entry" where
  "mark_signed_reference value entry =
     (if status_is_terminal (dt_status entry) then entry
      else let entry = entry\<lparr>dt_status := AS_Signed, dt_signed_reference := Some value\<rparr>
           in if dt_outcome entry = None then entry\<lparr>dt_outcome := Some RO_Signed\<rparr> else entry)"

definition durable_record_signed_reference ::
  "durable_store \<Rightarrow> attempt_binding \<Rightarrow> digest \<Rightarrow> string \<Rightarrow> durable_store \<times> (relay_error + unit)" where
  "durable_record_signed_reference attempts binding digest signed_reference =
     with_entry attempts binding digest (mark_signed_reference signed_reference)"

definition mark_submission :: "durable_submission \<Rightarrow> durable_entry \<Rightarrow> durable_entry" where
  "mark_submission submission entry =
     (if status_is_terminal (dt_status entry) then entry
      else entry\<lparr>dt_submission := Some submission, dt_status := AS_SubmissionUnknown,
                 dt_outcome := Some RO_Unknown\<rparr>)"

definition durable_record_submission ::
  "hash \<Rightarrow> durable_store \<Rightarrow> attempt_binding \<Rightarrow> digest \<Rightarrow> submit_request \<Rightarrow>
     durable_store \<times> (relay_error + unit)" where
  "durable_record_submission sha256 attempts binding digest request =
     (case submission_from_request sha256 request of
        Inl e \<Rightarrow> (attempts, Inl e)
      | Inr submission \<Rightarrow> with_entry attempts binding digest (mark_submission submission))"

definition durable_load_submission ::
  "durable_store \<Rightarrow> attempt_binding \<Rightarrow> relay_error + durable_submission option" where
  "durable_load_submission attempts binding = Inr (Option.bind (entry_for attempts binding) dt_submission)"

definition durable_load_outcome ::
  "durable_store \<Rightarrow> attempt_binding \<Rightarrow> relay_error + relay_outcome option" where
  "durable_load_outcome attempts binding = Inr (Option.bind (entry_for attempts binding) dt_outcome)"

definition outcome_reference :: "relay_outcome \<Rightarrow> string option" where
  "outcome_reference r =
     (case r of RO_Submitted reference _ \<Rightarrow> Some reference | RO_Confirmed reference _ \<Rightarrow> Some reference | _ \<Rightarrow> None)"

definition mark_outcome :: "relay_outcome \<Rightarrow> durable_entry \<Rightarrow> durable_entry" where
  "mark_outcome r entry =
     (if status_is_terminal (dt_status entry) then entry
      else let entry = (case outcome_reference r of
                          Some reference \<Rightarrow>
                            entry\<lparr>dt_submission := map_option (\<lambda>s. set_chain_reference s reference) (dt_submission entry)\<rparr>
                        | None \<Rightarrow> entry)
           in entry\<lparr>dt_status := outcome_attempt_status r, dt_outcome := Some r\<rparr>)"

definition durable_record_outcome ::
  "durable_store \<Rightarrow> attempt_binding \<Rightarrow> digest \<Rightarrow> relay_outcome \<Rightarrow> durable_store \<times> (relay_error + unit)" where
  "durable_record_outcome attempts binding digest r = with_entry attempts binding digest (mark_outcome r)"

definition durable_ops :: "hash \<Rightarrow> durable_store store_ops" where
  "durable_ops sha256 =
     \<lparr>op_reserve_bound = durable_reserve_bound,
      op_record_sign_requested = durable_record_sign_requested,
      op_record_signed_reference = durable_record_signed_reference,
      op_record_submission = durable_record_submission sha256,
      op_load_submission = durable_load_submission,
      op_load_outcome = durable_load_outcome,
      op_record_outcome = durable_record_outcome\<rparr>"

section \<open>What the relay relies on\<close>

abbreviation terminal_outcome :: "relay_outcome \<Rightarrow> bool" where
  "terminal_outcome r \<equiv> status_is_terminal (outcome_attempt_status r)"

text \<open>
  The contract of the trait. \<open>claimed\<close> are the identities that were reserved and \<open>outcome_of\<close> the recorded
  outcome of one; \<open>inv\<close> is an invariant of the store. A fresh reservation is granted for an identity that
  was not claimed, and claims it; no operation releases a claim; a terminal outcome stays; and the only
  operation after which an attempt counts as failed before submit is recording that outcome for it.
\<close>

locale attempt_store =
  fixes ops :: "'s store_ops"
    and inv :: "'s \<Rightarrow> bool"
    and claimed :: "'s \<Rightarrow> durable_key \<Rightarrow> bool"
    and outcome_of :: "'s \<Rightarrow> durable_key \<Rightarrow> relay_outcome option"
  assumes reserve_claims: "op_reserve_bound ops st b d = (st', Inr RV_Reserved) \<Longrightarrow>
      \<not> claimed st (key_from_binding b) \<and> claimed st' (key_from_binding b)"
    and reserve_keeps: "op_reserve_bound ops st b d = (st', answer) \<Longrightarrow>
      (claimed st k \<longrightarrow> claimed st' k) \<and> (inv st \<longrightarrow> inv st') \<and> outcome_of st' k = outcome_of st k"
    and reserve_replays: "op_reserve_bound ops st b d = (st', Inr (RV_AlreadyReserved r)) \<Longrightarrow>
      r = (case outcome_of st (key_from_binding b) of Some r \<Rightarrow> r | None \<Rightarrow> RO_Reserved)"
    and outcome_claimed: "outcome_of st k \<noteq> None \<Longrightarrow> claimed st k"
    and sign_requested_keeps: "op_record_sign_requested ops st b d p = (st', u) \<Longrightarrow>
      (claimed st k \<longrightarrow> claimed st' k) \<and> (inv st \<longrightarrow> inv st') \<and> outcome_of st' k = outcome_of st k"
    and signed_keeps: "op_record_signed_reference ops st b d sref = (st', u) \<Longrightarrow>
      (claimed st k \<longrightarrow> claimed st' k) \<and> (inv st \<longrightarrow> inv st') \<and>
      (outcome_of st' k = outcome_of st k \<or> outcome_of st k = None \<and> outcome_of st' k = Some RO_Signed)"
    and submission_keeps: "op_record_submission ops st b d request = (st', u) \<Longrightarrow>
      (claimed st k \<longrightarrow> claimed st' k) \<and> (inv st \<longrightarrow> inv st') \<and>
      (inv st \<longrightarrow> outcome_of st' k = outcome_of st k \<or>
         outcome_of st' k = Some RO_Unknown \<and> (\<forall>old. outcome_of st k = Some old \<longrightarrow> \<not> terminal_outcome old))"
    and outcome_keeps: "op_record_outcome ops st b d r = (st', u) \<Longrightarrow>
      (claimed st k \<longrightarrow> claimed st' k) \<and> (inv st \<longrightarrow> inv st') \<and>
      (inv st \<longrightarrow> outcome_of st' k = outcome_of st k \<or>
         k = key_from_binding b \<and> outcome_of st' k = Some r \<and>
         (\<forall>old. outcome_of st k = Some old \<longrightarrow> \<not> terminal_outcome old))"

text \<open>
  The marker \<open>DurableAttemptStore\<close>: outcomes and bound submissions can be read back. A submission that
  was recorded stays, up to the chain reference that is added to it, until one is recorded again for the
  same identity.
\<close>

definition same_submission :: "durable_submission \<Rightarrow> durable_submission \<Rightarrow> bool" where
  "same_submission s s' \<longleftrightarrow> s\<lparr>ds_chain_reference := None\<rparr> = s'\<lparr>ds_chain_reference := None\<rparr>"

definition keeps_submission :: "durable_submission option \<Rightarrow> durable_submission option \<Rightarrow> bool" where
  "keeps_submission x y \<longleftrightarrow> (\<forall>s. x = Some s \<longrightarrow> (\<exists>s'. y = Some s' \<and> same_submission s s'))"

locale durable_attempts = attempt_store +
  fixes sha256 :: hash
    and submission_of :: "'a \<Rightarrow> durable_key \<Rightarrow> durable_submission option"
  assumes load_outcome: "op_load_outcome ops st b = Inr (outcome_of st (key_from_binding b))"
    and load_submission: "op_load_submission ops st b = Inr (submission_of st (key_from_binding b))"
    and submission_stored: "inv st \<Longrightarrow> op_record_submission ops st b d request = (st', Inr ()) \<Longrightarrow>
      (\<exists>old. outcome_of st (key_from_binding b) = Some old \<and> terminal_outcome old) \<or>
      (\<exists>s. submission_from_request sha256 request = Inr s \<and> submission_of st' (key_from_binding b) = Some s)"
    and reserve_submission: "op_reserve_bound ops st b d = (st', answer) \<Longrightarrow>
      keeps_submission (submission_of st k) (submission_of st' k)"
    and sign_requested_submission: "op_record_sign_requested ops st b d p = (st', u) \<Longrightarrow>
      keeps_submission (submission_of st k) (submission_of st' k)"
    and signed_submission: "op_record_signed_reference ops st b d sref = (st', u) \<Longrightarrow>
      keeps_submission (submission_of st k) (submission_of st' k)"
    and other_submission: "op_record_submission ops st b d request = (st', u) \<Longrightarrow> k \<noteq> key_from_binding b \<Longrightarrow>
      keeps_submission (submission_of st k) (submission_of st' k)"
    and outcome_submission: "op_record_outcome ops st b d r = (st', u) \<Longrightarrow>
      keeps_submission (submission_of st k) (submission_of st' k)"

section \<open>The stores keep the contract\<close>

definition memory_claimed :: "memory_store \<Rightarrow> durable_key \<Rightarrow> bool" where
  "memory_claimed entries k \<longleftrightarrow> map_of entries k \<noteq> None"

definition memory_outcome :: "memory_store \<Rightarrow> durable_key \<Rightarrow> relay_outcome option" where
  "memory_outcome entries k = Option.bind (map_of entries k) sn_outcome"

definition durable_claimed :: "durable_store \<Rightarrow> durable_key \<Rightarrow> bool" where
  "durable_claimed attempts k \<longleftrightarrow> map_of attempts k \<noteq> None"

definition durable_outcome :: "durable_store \<Rightarrow> durable_key \<Rightarrow> relay_outcome option" where
  "durable_outcome attempts k = Option.bind (map_of attempts k) dt_outcome"

definition durable_submission_of :: "durable_store \<Rightarrow> durable_key \<Rightarrow> durable_submission option" where
  "durable_submission_of attempts k = Option.bind (map_of attempts k) dt_submission"

text \<open>The status of an entry is terminal exactly when its outcome is, so the guard on the status protects the outcome.\<close>

definition entry_ok :: "durable_entry \<Rightarrow> bool" where
  "entry_ok e \<longleftrightarrow> (status_is_terminal (dt_status e) \<longleftrightarrow> (\<exists>r. dt_outcome e = Some r \<and> terminal_outcome r))"

definition durable_inv :: "durable_store \<Rightarrow> bool" where
  "durable_inv attempts \<longleftrightarrow> (\<forall>k e. map_of attempts k = Some e \<longrightarrow> entry_ok e)"

lemmas memory_defs = memory_claimed_def memory_outcome_def memory_reserve_bound_def memory_record_signed_def
  memory_record_outcome_def default_record_sign_requested_def default_record_signed_reference_def
  default_record_submission_def Let_def

interpretation memory: attempt_store memory_ops "\<lambda>_. True" memory_claimed memory_outcome
  by unfold_locales
    (auto simp: memory_ops_def memory_defs status_is_terminal_def outcome_attempt_status_def
      Option.bind_eq_Some_conv split: option.splits if_splits)

lemma with_entry_eq:
  "with_entry attempts b d f = (st', u) \<longleftrightarrow>
     (case map_of attempts (key_from_binding b) of
        Some e \<Rightarrow> if dt_digest e = d
                  then st' = AList.update (key_from_binding b) (f e) attempts \<and> u = Inr ()
                  else st' = attempts \<and> u = Inl RE_ReservationUnavailable
      | None \<Rightarrow> st' = attempts \<and> u = Inl RE_ReservationUnavailable)"
  by (auto simp: with_entry_def Let_def split: option.splits)

text \<open>A transition of an entry, with what it may do to the outcome and the submission, lifts to the store.\<close>

lemma with_entry_claimed: "with_entry attempts b d f = (st', u) \<Longrightarrow> durable_claimed st' k = durable_claimed attempts k"
  by (auto simp: with_entry_eq durable_claimed_def split: option.splits if_splits)

lemma with_entry_inv:
  "with_entry attempts b d f = (st', u) \<Longrightarrow> durable_inv attempts \<Longrightarrow> (\<And>e. entry_ok e \<Longrightarrow> entry_ok (f e)) \<Longrightarrow>
     durable_inv st'"
  by (auto simp: with_entry_eq durable_inv_def split: option.splits if_splits)

lemma with_entry_cases:
  assumes "with_entry attempts b d f = (st', u)"
  obtains "map_of st' k = map_of attempts k" | e where "k = key_from_binding b" and "map_of attempts k = Some e"
    and "map_of st' k = Some (f e)"
  using assms by (cases "k = key_from_binding b") (auto simp: with_entry_eq split: option.splits if_splits)

lemma entry_ok_marks:
  assumes "entry_ok e"
  shows "entry_ok (mark_sign_requested p e)" and "entry_ok (mark_signed_reference sref e)" and "entry_ok (mark_signed e)"
    and "entry_ok (mark_submission sub e)" and "entry_ok (mark_outcome r e)"
  using assms by (auto simp: entry_ok_def mark_sign_requested_def mark_signed_reference_def mark_signed_def
      mark_submission_def mark_outcome_def Let_def status_is_terminal_def outcome_attempt_status_def split: option.splits)

lemma mark_outcomes:
  shows "dt_outcome (mark_sign_requested p e) = dt_outcome e"
    and "dt_outcome (mark_signed_reference sref e) = dt_outcome e \<or>
      dt_outcome e = None \<and> dt_outcome (mark_signed_reference sref e) = Some RO_Signed"
    and "entry_ok e \<Longrightarrow> dt_outcome (mark_submission sub e) = dt_outcome e \<or>
      dt_outcome (mark_submission sub e) = Some RO_Unknown \<and> (\<forall>old. dt_outcome e = Some old \<longrightarrow> \<not> terminal_outcome old)"
    and "entry_ok e \<Longrightarrow> dt_outcome (mark_outcome r e) = dt_outcome e \<or>
      dt_outcome (mark_outcome r e) = Some r \<and> (\<forall>old. dt_outcome e = Some old \<longrightarrow> \<not> terminal_outcome old)"
  by (auto simp: mark_sign_requested_def mark_signed_reference_def mark_submission_def mark_outcome_def entry_ok_def
      Let_def split: option.splits)

lemma same_submission_refl [simp]: "same_submission s s"
  by (simp add: same_submission_def)

lemma set_chain_reference_same [simp]: "same_submission s (set_chain_reference s r)"
  by (simp add: same_submission_def set_chain_reference_def)

lemma keeps_submission_refl [simp]: "keeps_submission x x"
  by (simp add: keeps_submission_def)

lemma mark_submissions:
  shows "dt_submission (mark_sign_requested p e) = dt_submission e"
    and "dt_submission (mark_signed_reference sref e) = dt_submission e"
    and "keeps_submission (dt_submission e) (dt_submission (mark_outcome r e))"
  by (auto simp: mark_sign_requested_def mark_signed_reference_def mark_outcome_def keeps_submission_def Let_def
      split: option.splits)

lemmas durable_defs = durable_record_sign_requested_def durable_record_signed_reference_def durable_record_outcome_def

lemma reserved_not_terminal [simp]: "\<not> status_is_terminal AS_Reserved"
  by (simp add: status_is_terminal_def)

lemma durable_reserve_facts:
  assumes "durable_reserve_bound st b d = (st', answer)"
  shows "answer = Inr RV_Reserved \<Longrightarrow>
      \<not> durable_claimed st (key_from_binding b) \<and> durable_claimed st' (key_from_binding b)"
    and "durable_claimed st k \<longrightarrow> durable_claimed st' k" and "durable_inv st \<longrightarrow> durable_inv st'"
    and "durable_outcome st' k = durable_outcome st k"
    and "durable_submission_of st' k = durable_submission_of st k"
    and "answer = Inr (RV_AlreadyReserved r) \<Longrightarrow>
      r = (case durable_outcome st (key_from_binding b) of Some r \<Rightarrow> r | None \<Rightarrow> RO_Reserved)"
  using assms by (auto simp: durable_reserve_bound_def durable_claimed_def durable_inv_def durable_outcome_def
      durable_submission_of_def entry_ok_def Let_def split: option.splits if_splits)

lemma durable_outcome_claimed: "durable_outcome st k \<noteq> None \<Longrightarrow> durable_claimed st k"
  by (auto simp: durable_outcome_def durable_claimed_def Option.bind_eq_Some_conv)

lemma durable_sign_requested_facts:
  assumes "durable_record_sign_requested st b d p = (st', u)"
  shows "durable_claimed st' k = durable_claimed st k" and "durable_inv st \<longrightarrow> durable_inv st'"
    and "durable_outcome st' k = durable_outcome st k"
    and "durable_submission_of st' k = durable_submission_of st k"
proof -
  note w = assms [unfolded durable_record_sign_requested_def]
  show "durable_claimed st' k = durable_claimed st k" by (rule with_entry_claimed [OF w])
  show "durable_inv st \<longrightarrow> durable_inv st'" using with_entry_inv [OF w] entry_ok_marks by blast
  show "durable_outcome st' k = durable_outcome st k" "durable_submission_of st' k = durable_submission_of st k"
    by (rule with_entry_cases [OF w, of k];
      simp add: durable_outcome_def durable_submission_of_def mark_outcomes mark_submissions)+
qed

lemma durable_signed_facts:
  assumes "durable_record_signed_reference st b d sref = (st', u)"
  shows "durable_claimed st' k = durable_claimed st k" and "durable_inv st \<longrightarrow> durable_inv st'"
    and "durable_outcome st' k = durable_outcome st k \<or> durable_outcome st k = None \<and> durable_outcome st' k = Some RO_Signed"
    and "durable_submission_of st' k = durable_submission_of st k"
proof -
  note w = assms [unfolded durable_record_signed_reference_def]
  show "durable_claimed st' k = durable_claimed st k" by (rule with_entry_claimed [OF w])
  show "durable_inv st \<longrightarrow> durable_inv st'" using with_entry_inv [OF w] entry_ok_marks by blast
  show "durable_outcome st' k = durable_outcome st k \<or> durable_outcome st k = None \<and> durable_outcome st' k = Some RO_Signed"
    by (rule with_entry_cases [OF w, of k]) (use mark_outcomes(2) in \<open>simp_all add: durable_outcome_def\<close>)
  show "durable_submission_of st' k = durable_submission_of st k"
    by (rule with_entry_cases [OF w, of k]) (simp_all add: durable_submission_of_def mark_submissions)
qed

lemma durable_outcome_facts:
  assumes "durable_record_outcome st b d r = (st', u)"
  shows "durable_claimed st' k = durable_claimed st k" and "durable_inv st \<longrightarrow> durable_inv st'"
    and "durable_inv st \<Longrightarrow> durable_outcome st' k = durable_outcome st k \<or>
      k = key_from_binding b \<and> durable_outcome st' k = Some r \<and>
      (\<forall>old. durable_outcome st k = Some old \<longrightarrow> \<not> terminal_outcome old)"
    and "keeps_submission (durable_submission_of st k) (durable_submission_of st' k)"
proof -
  note w = assms [unfolded durable_record_outcome_def]
  show "durable_claimed st' k = durable_claimed st k" by (rule with_entry_claimed [OF w])
  show "durable_inv st \<longrightarrow> durable_inv st'" using with_entry_inv [OF w] entry_ok_marks by blast
  show "durable_outcome st' k = durable_outcome st k \<or> k = key_from_binding b \<and> durable_outcome st' k = Some r \<and>
      (\<forall>old. durable_outcome st k = Some old \<longrightarrow> \<not> terminal_outcome old)" if "durable_inv st"
    by (rule with_entry_cases [OF w, of k])
      (use mark_outcomes(4) that in \<open>auto simp add: durable_outcome_def durable_inv_def\<close>)
  show "keeps_submission (durable_submission_of st k) (durable_submission_of st' k)"
    by (rule with_entry_cases [OF w, of k]) (simp_all add: durable_submission_of_def mark_submissions)
qed

lemma durable_submission_facts:
  assumes "durable_record_submission sha256 st b d request = (st', u)"
  shows "durable_claimed st' k = durable_claimed st k" and "durable_inv st \<longrightarrow> durable_inv st'"
    and "durable_inv st \<Longrightarrow> durable_outcome st' k = durable_outcome st k \<or>
      durable_outcome st' k = Some RO_Unknown \<and> (\<forall>old. durable_outcome st k = Some old \<longrightarrow> \<not> terminal_outcome old)"
    and "k \<noteq> key_from_binding b \<Longrightarrow> durable_submission_of st' k = durable_submission_of st k"
proof -
  consider (same) "st' = st" | (w) sub where "with_entry st b d (mark_submission sub) = (st', u)"
    using assms by (auto simp: durable_record_submission_def split: sum.splits)
  note c = this
  show "durable_claimed st' k = durable_claimed st k" by (cases rule: c) (simp_all add: with_entry_claimed)
  show "durable_inv st \<longrightarrow> durable_inv st'"
    by (cases rule: c) (use with_entry_inv entry_ok_marks in \<open>blast+\<close>)
  show "durable_outcome st' k = durable_outcome st k \<or>
      durable_outcome st' k = Some RO_Unknown \<and> (\<forall>old. durable_outcome st k = Some old \<longrightarrow> \<not> terminal_outcome old)"
    if "durable_inv st"
  proof (cases rule: c)
    case w
    then show ?thesis by (rule with_entry_cases [of _ _ _ _ _ _ k])
      (use mark_outcomes(3) that in \<open>auto simp add: durable_outcome_def durable_inv_def\<close>)
  qed simp
  show "durable_submission_of st' k = durable_submission_of st k" if "k \<noteq> key_from_binding b"
  proof (cases rule: c)
    case w
    then show ?thesis by (rule with_entry_cases [of _ _ _ _ _ _ k])
      (use that in \<open>simp_all add: durable_submission_of_def\<close>)
  qed simp
qed

lemma durable_submission_stored:
  assumes "durable_inv st" and "durable_record_submission sha256 st b d request = (st', Inr ())"
  shows "(\<exists>old. durable_outcome st (key_from_binding b) = Some old \<and> terminal_outcome old) \<or>
    (\<exists>s. submission_from_request sha256 request = Inr s \<and> durable_submission_of st' (key_from_binding b) = Some s)"
  using assms by (auto simp: durable_record_submission_def with_entry_eq durable_submission_of_def durable_outcome_def
      mark_submission_def durable_inv_def entry_ok_def split: sum.splits option.splits if_splits)

lemma durable_ops_sel [simp]:
  "op_reserve_bound (durable_ops sha256) = durable_reserve_bound"
  "op_record_sign_requested (durable_ops sha256) = durable_record_sign_requested"
  "op_record_signed_reference (durable_ops sha256) = durable_record_signed_reference"
  "op_record_submission (durable_ops sha256) = durable_record_submission sha256"
  "op_load_submission (durable_ops sha256) = durable_load_submission"
  "op_load_outcome (durable_ops sha256) = durable_load_outcome"
  "op_record_outcome (durable_ops sha256) = durable_record_outcome"
  by (simp_all add: durable_ops_def)

interpretation durable: durable_attempts "durable_ops sha256" durable_inv durable_claimed durable_outcome sha256
    durable_submission_of for sha256
proof unfold_locales
  fix st :: durable_store and b :: attempt_binding
  show "op_load_outcome (durable_ops sha256) st b = Inr (durable_outcome st (key_from_binding b))"
    by (simp add: durable_load_outcome_def durable_outcome_def entry_for_def)
  show "op_load_submission (durable_ops sha256) st b = Inr (durable_submission_of st (key_from_binding b))"
    by (simp add: durable_load_submission_def durable_submission_of_def entry_for_def)
qed (simp_all add: durable_reserve_facts durable_outcome_claimed durable_sign_requested_facts durable_signed_facts
    durable_outcome_facts durable_submission_facts durable_submission_stored)

section \<open>Round trips\<close>

lemma status_spelling_roundtrip: "status_parse value = Some s \<longleftrightarrow> value = status_as_str s"
  by (cases s) (auto simp: status_parse_def status_as_str_def)

lemma submission_restores:
  "submission_from_request sha256 request = Inr s \<Longrightarrow> submit_restore sha256 s = Inr request"
  by (auto simp: submission_from_request_def submission_new_def submit_restore_def split: if_splits)

text \<open>A submission that differs in the chain reference only restores to the same request up to that reference.\<close>

lemma same_submission_restores:
  assumes "submit_restore sha256 s = Inr request" and "same_submission s s'"
  shows "\<exists>reference. submit_restore sha256 s' = Inr (request\<lparr>sb_chain_reference := reference\<rparr>)"
proof -
  have "s' = s\<lparr>ds_chain_reference := ds_chain_reference s'\<rparr>"
    using assms(2) by (cases s; cases s') (simp add: same_submission_def)
  then obtain c where "s' = s\<lparr>ds_chain_reference := c\<rparr>" by blast
  with assms(1) show ?thesis
    by (auto simp: submit_restore_def split: if_splits)
qed

end
