(* ===== verification/Relay_Health.thy ===== *)
theory Relay_Health
  imports Orders
begin

text \<open>
  The two circuit breakers of the relay: one state machine per chain
  (\<open>crates/execution-relay/src/health.rs\<close>) and one for signing (\<open>signing_health.rs\<close>), with the admission
  guards whose drop releases a half-open probe. The machines are the same, so both breakers are built
  from the operations on one entry. A guard is the flag that it consumed a probe and its admission time.
\<close>

section \<open>One breaker entry\<close>

datatype breaker_health = BH_Healthy | BH_Degraded | BH_Unavailable

record breaker_entry =
  br_consecutive_failures :: u32
  br_state :: breaker_health
  br_cooldown_until_ms :: i64
  br_probe_in_flight :: bool

definition entry_default :: breaker_entry where
  "entry_default = \<lparr>br_consecutive_failures = 0, br_state = BH_Healthy, br_cooldown_until_ms = 0,
     br_probe_in_flight = False\<rparr>"

record breaker_config =
  bc_failure_threshold :: u32
  bc_cooldown_ms :: i64

definition breaker_config_new :: "u32 \<Rightarrow> i64 \<Rightarrow> breaker_config" where
  "breaker_config_new failure_threshold cooldown_ms =
     \<lparr>bc_failure_threshold = max failure_threshold 1, bc_cooldown_ms = max cooldown_ms 0\<rparr>"

definition entry_allowed :: "breaker_entry \<Rightarrow> i64 \<Rightarrow> bool" where
  "entry_allowed e now_ms =
     (case br_state e of
        BH_Healthy \<Rightarrow> True
      | BH_Degraded \<Rightarrow> \<not> br_probe_in_flight e
      | BH_Unavailable \<Rightarrow> br_cooldown_until_ms e \<le> now_ms \<and> \<not> br_probe_in_flight e)"

text \<open>\<open>Some consumed\<close>: admitted, and whether a half-open probe was consumed.\<close>

definition entry_admit :: "breaker_entry \<Rightarrow> i64 \<Rightarrow> breaker_entry \<times> bool option" where
  "entry_admit e now_ms =
     (case br_state e of
        BH_Healthy \<Rightarrow> (e, Some False)
      | BH_Degraded \<Rightarrow>
          if br_probe_in_flight e then (e, None) else (e\<lparr>br_probe_in_flight := True\<rparr>, Some True)
      | BH_Unavailable \<Rightarrow>
          if now_ms < br_cooldown_until_ms e \<or> br_probe_in_flight e then (e, None)
          else (e\<lparr>br_state := BH_Degraded, br_probe_in_flight := True\<rparr>, Some True))"

definition entry_success :: "breaker_entry \<Rightarrow> breaker_entry" where
  "entry_success e = e\<lparr>br_consecutive_failures := 0, br_state := BH_Healthy, br_probe_in_flight := False\<rparr>"

definition saturating_add_i64 :: "i64 \<Rightarrow> i64 \<Rightarrow> i64" where
  "saturating_add_i64 a b = max (- (2 ^ 63)) (min (2 ^ 63 - 1) (a + b))"

definition entry_failure :: "breaker_config \<Rightarrow> breaker_entry \<Rightarrow> i64 \<Rightarrow> breaker_entry" where
  "entry_failure c e now_ms =
     (let failures = saturating_add (br_consecutive_failures e) 1;
          e = e\<lparr>br_consecutive_failures := failures, br_probe_in_flight := False\<rparr>
      in if bc_failure_threshold c \<le> failures
         then e\<lparr>br_state := BH_Unavailable, br_cooldown_until_ms := saturating_add_i64 now_ms (bc_cooldown_ms c)\<rparr>
         else e\<lparr>br_state := BH_Degraded\<rparr>)"

definition entry_health :: "breaker_entry \<Rightarrow> i64 \<Rightarrow> breaker_health" where
  "entry_health e now_ms =
     (if br_state e = BH_Unavailable \<and> br_cooldown_until_ms e \<le> now_ms then BH_Degraded else br_state e)"

section \<open>The chain breaker\<close>

record chain_breaker =
  cb_config :: breaker_config
  cb_states :: "(chain_id \<times> breaker_entry) list"

definition chain_breaker_new :: "u32 \<Rightarrow> i64 \<Rightarrow> chain_breaker" where
  "chain_breaker_new failure_threshold cooldown_ms =
     \<lparr>cb_config = breaker_config_new failure_threshold cooldown_ms, cb_states = []\<rparr>"

definition chain_check_allowed :: "chain_breaker \<Rightarrow> chain_id \<Rightarrow> i64 \<Rightarrow> bool" where
  "chain_check_allowed b chain now_ms =
     (case map_of (cb_states b) chain of None \<Rightarrow> True | Some e \<Rightarrow> entry_allowed e now_ms)"

text \<open>\<open>states.entry(chain).or_default()\<close>.\<close>

definition entry_or_default :: "chain_breaker \<Rightarrow> chain_id \<Rightarrow> breaker_entry" where
  "entry_or_default b chain = (case map_of (cb_states b) chain of None \<Rightarrow> entry_default | Some e \<Rightarrow> e)"

definition set_entry :: "chain_breaker \<Rightarrow> chain_id \<Rightarrow> breaker_entry \<Rightarrow> chain_breaker" where
  "set_entry b chain e = b\<lparr>cb_states := AList.update chain e (cb_states b)\<rparr>"

definition chain_admit_probe :: "chain_breaker \<Rightarrow> chain_id \<Rightarrow> i64 \<Rightarrow> chain_breaker \<times> bool option" where
  "chain_admit_probe b chain now_ms =
     (case entry_admit (entry_or_default b chain) now_ms of (e, admitted) \<Rightarrow> (set_entry b chain e, admitted))"

definition chain_record_success :: "chain_breaker \<Rightarrow> chain_id \<Rightarrow> chain_breaker" where
  "chain_record_success b chain = set_entry b chain (entry_success (entry_or_default b chain))"

definition chain_record_failure :: "chain_breaker \<Rightarrow> chain_id \<Rightarrow> i64 \<Rightarrow> chain_breaker" where
  "chain_record_failure b chain now_ms =
     set_entry b chain (entry_failure (cb_config b) (entry_or_default b chain) now_ms)"

definition chain_observe :: "chain_breaker \<Rightarrow> chain_id \<Rightarrow> breaker_health \<Rightarrow> i64 \<Rightarrow> chain_breaker" where
  "chain_observe b chain health now_ms =
     (case health of
        BH_Healthy \<Rightarrow> b
      | BH_Degraded \<Rightarrow> chain_record_failure b chain now_ms
      | BH_Unavailable \<Rightarrow> chain_record_failure b chain now_ms)"

definition chain_breaker_health :: "chain_breaker \<Rightarrow> chain_id \<Rightarrow> i64 \<Rightarrow> breaker_health" where
  "chain_breaker_health b chain now_ms =
     (case map_of (cb_states b) chain of Some e \<Rightarrow> entry_health e now_ms | None \<Rightarrow> BH_Healthy)"

definition probe_drop :: "chain_breaker \<Rightarrow> chain_id \<Rightarrow> i64 \<Rightarrow> bool \<Rightarrow> chain_breaker" where
  "probe_drop b chain admitted_at_ms consumed_probe =
     (if consumed_probe then chain_record_failure b chain admitted_at_ms else b)"

section \<open>The signing breaker\<close>

record signing_breaker =
  sk_config :: breaker_config
  sk_inner :: breaker_entry

definition signing_breaker_new :: "u32 \<Rightarrow> i64 \<Rightarrow> signing_breaker" where
  "signing_breaker_new failure_threshold cooldown_ms =
     \<lparr>sk_config = breaker_config_new failure_threshold cooldown_ms, sk_inner = entry_default\<rparr>"

definition default_policy :: signing_breaker where
  "default_policy = signing_breaker_new 3 30000"

definition signing_check_allowed :: "signing_breaker \<Rightarrow> i64 \<Rightarrow> bool" where
  "signing_check_allowed b now_ms = entry_allowed (sk_inner b) now_ms"

definition signing_admit_probe :: "signing_breaker \<Rightarrow> i64 \<Rightarrow> signing_breaker \<times> bool option" where
  "signing_admit_probe b now_ms =
     (case entry_admit (sk_inner b) now_ms of (e, admitted) \<Rightarrow> (b\<lparr>sk_inner := e\<rparr>, admitted))"

definition signing_record_success :: "signing_breaker \<Rightarrow> signing_breaker" where
  "signing_record_success b = b\<lparr>sk_inner := entry_success (sk_inner b)\<rparr>"

definition signing_record_failure :: "signing_breaker \<Rightarrow> i64 \<Rightarrow> signing_breaker" where
  "signing_record_failure b now_ms = b\<lparr>sk_inner := entry_failure (sk_config b) (sk_inner b) now_ms\<rparr>"

definition signing_state :: "signing_breaker \<Rightarrow> i64 \<Rightarrow> breaker_health" where
  "signing_state b now_ms = entry_health (sk_inner b) now_ms"

definition signing_probe_drop :: "signing_breaker \<Rightarrow> i64 \<Rightarrow> bool \<Rightarrow> signing_breaker" where
  "signing_probe_drop b admitted_at_ms consumed_probe =
     (if consumed_probe then signing_record_failure b admitted_at_ms else b)"

section \<open>Lemmas\<close>

definition chain_probe :: "chain_breaker \<Rightarrow> chain_id \<Rightarrow> bool" where
  "chain_probe b chain \<longleftrightarrow> br_probe_in_flight (entry_or_default b chain)"

definition signing_probe :: "signing_breaker \<Rightarrow> bool" where
  "signing_probe b \<longleftrightarrow> br_probe_in_flight (sk_inner b)"

lemma entry_or_default_set [simp]:
  "entry_or_default (set_entry b chain e) c = (if c = chain then e else entry_or_default b c)"
  by (simp add: entry_or_default_def set_entry_def)

lemma cb_config_set_entry [simp]: "cb_config (set_entry b chain e) = cb_config b"
  by (simp add: set_entry_def)

lemma entry_probe [simp]:
  "\<not> br_probe_in_flight entry_default" "\<not> br_probe_in_flight (entry_success e)"
  "\<not> br_probe_in_flight (entry_failure c e now_ms)"
  by (simp_all add: entry_default_def entry_success_def entry_failure_def Let_def)

lemma entry_admit_eq:
  "entry_admit e now_ms = (e', admitted) \<longleftrightarrow>
     (if entry_allowed e now_ms
      then (if br_state e = BH_Healthy then e' = e \<and> admitted = Some False
            else e' = e\<lparr>br_state := BH_Degraded, br_probe_in_flight := True\<rparr> \<and> admitted = Some True)
      else e' = e \<and> admitted = None)"
  by (cases e) (auto simp: entry_admit_def entry_allowed_def split: breaker_health.splits)

text \<open>The read-only gate says whether the admission would succeed.\<close>

lemma chain_admit_iff: "snd (chain_admit_probe b chain now_ms) \<noteq> None \<longleftrightarrow> chain_check_allowed b chain now_ms"
proof -
  have "chain_check_allowed b chain now_ms = entry_allowed (entry_or_default b chain) now_ms"
    by (simp add: chain_check_allowed_def entry_or_default_def entry_allowed_def entry_default_def split: option.split)
  then show ?thesis
    by (auto simp: chain_admit_probe_def entry_admit_eq split: prod.splits if_splits)
qed

lemma chain_probe_ops:
  shows "chain_probe (chain_record_success b chain) c \<longleftrightarrow> c \<noteq> chain \<and> chain_probe b c"
    and "chain_probe (chain_record_failure b chain now_ms) c \<longleftrightarrow> c \<noteq> chain \<and> chain_probe b c"
    and "chain_probe (chain_observe b chain health now_ms) c \<Longrightarrow> chain_probe b c"
    and "chain_probe (probe_drop b chain now_ms consumed) c \<longleftrightarrow> (consumed \<longrightarrow> c \<noteq> chain) \<and> chain_probe b c"
  by (auto simp: chain_probe_def chain_record_success_def chain_record_failure_def chain_observe_def probe_drop_def
      split: breaker_health.splits if_splits)

lemma chain_probe_admit:
  "chain_admit_probe b chain now_ms = (b', admitted) \<Longrightarrow>
     chain_probe b' c \<Longrightarrow> chain_probe b c \<or> c = chain \<and> admitted = Some True"
  by (auto simp: chain_probe_def chain_admit_probe_def entry_admit_eq split: prod.splits if_splits)

lemma signing_probe_ops:
  shows "\<not> signing_probe (signing_record_success b)" and "\<not> signing_probe (signing_record_failure b now_ms)"
    and "signing_probe (signing_probe_drop b now_ms consumed) \<longleftrightarrow> \<not> consumed \<and> signing_probe b"
  by (auto simp: signing_probe_def signing_record_success_def signing_record_failure_def signing_probe_drop_def)

lemma signing_probe_admit:
  "signing_admit_probe b now_ms = (b', admitted) \<Longrightarrow> signing_probe b' \<Longrightarrow> signing_probe b \<or> admitted = Some True"
  by (auto simp: signing_probe_def signing_admit_probe_def entry_admit_eq split: prod.splits if_splits)

text \<open>Without a probe in flight, an entry admits again once its cooldown is over.\<close>

lemma chain_allowed_after_cooldown:
  "\<not> chain_probe b chain \<Longrightarrow> br_cooldown_until_ms (entry_or_default b chain) \<le> now_ms \<Longrightarrow> chain_check_allowed b chain now_ms"
  by (auto simp: chain_probe_def chain_check_allowed_def entry_or_default_def entry_allowed_def
      split: option.splits breaker_health.splits)

lemma entry_admits_after_cooldown:
  assumes "\<not> br_probe_in_flight e" and "br_cooldown_until_ms e \<le> now_ms"
  shows "snd (entry_admit e now_ms) = Some (br_state e \<noteq> BH_Healthy)"
    and "br_probe_in_flight (fst (entry_admit e now_ms)) \<longleftrightarrow> br_state e \<noteq> BH_Healthy"
  using assms by (simp_all add: entry_admit_def split: breaker_health.split)

lemma chain_admits_after_cooldown:
  assumes "\<not> chain_probe b chain" and "br_cooldown_until_ms (entry_or_default b chain) \<le> now_ms"
  shows "snd (chain_admit_probe b chain now_ms) = Some (br_state (entry_or_default b chain) \<noteq> BH_Healthy)"
    and "chain_probe (fst (chain_admit_probe b chain now_ms)) chain \<longleftrightarrow> br_state (entry_or_default b chain) \<noteq> BH_Healthy"
  using entry_admits_after_cooldown [OF assms [unfolded chain_probe_def]]
  by (simp_all add: chain_admit_probe_def chain_probe_def case_prod_beta)

lemma signing_admits_after_cooldown:
  assumes "\<not> signing_probe b" and "br_cooldown_until_ms (sk_inner b) \<le> now_ms"
  shows "snd (signing_admit_probe b now_ms) = Some (br_state (sk_inner b) \<noteq> BH_Healthy)"
    and "signing_probe (fst (signing_admit_probe b now_ms)) \<longleftrightarrow> br_state (sk_inner b) \<noteq> BH_Healthy"
  using entry_admits_after_cooldown [OF assms [unfolded signing_probe_def]]
  by (simp_all add: signing_admit_probe_def signing_probe_def case_prod_beta)

text \<open>
  Consecutive failures count up, and the one that reaches the threshold closes the gate for the cooldown.
\<close>

lemma failures_open_breaker:
  assumes "unat (bc_failure_threshold c) \<le> unat (br_consecutive_failures e) + 1"
    and "t < saturating_add_i64 now_ms (bc_cooldown_ms c)"
  shows "\<not> entry_allowed (entry_failure c e now_ms) t"
proof -
  have "unat (bc_failure_threshold c) < 2 ^ 32" using unsigned_less [of "bc_failure_threshold c"] by simp
  with assms(1) have "bc_failure_threshold c \<le> saturating_add (br_consecutive_failures e) 1"
    by (simp add: word_le_nat_alt unat_saturating_add)
  with assms(2) show ?thesis by (simp add: entry_failure_def entry_allowed_def Let_def)
qed

text \<open>
  A failure that is recorded while a probe is in flight releases the flag of that probe. Below the
  threshold the chain is then degraded without a probe, and a second probe is admitted beside the first.
\<close>

lemma observe_admits_second_probe:
  assumes "chain_admit_probe b chain now_ms = (b1, Some True)"
    and "unat (br_consecutive_failures (entry_or_default b chain)) + 1 < unat (bc_failure_threshold (cb_config b))"
  shows "\<exists>b2. chain_admit_probe (chain_observe b1 chain BH_Degraded now_ms) chain now_ms = (b2, Some True)"
proof -
  let ?e = "entry_or_default b chain"
  have "unat (bc_failure_threshold (cb_config b)) < 2 ^ 32" using unsigned_less [of "bc_failure_threshold (cb_config b)"] by simp
  with assms(2) have "\<not> bc_failure_threshold (cb_config b) \<le> saturating_add (br_consecutive_failures ?e) 1"
    by (simp add: word_le_nat_alt unat_saturating_add)
  moreover from assms(1) have "entry_or_default b1 chain = ?e\<lparr>br_state := BH_Degraded, br_probe_in_flight := True\<rparr>"
    "cb_config b1 = cb_config b"
    by (auto simp: chain_admit_probe_def entry_admit_eq split: prod.splits if_splits)
  ultimately show ?thesis
    by (auto simp: chain_observe_def chain_record_failure_def chain_admit_probe_def entry_failure_def entry_admit_def Let_def)
qed

end
