(* ===== verification/Relay.thy ===== *)
theory Relay
  imports Relay_Store Relay_Health
begin

text \<open>
  The execution relay (\<open>crates/execution-relay/src/relay.rs\<close>) with the adapters of \<open>adapter.rs\<close>.

  \<open>execute\<close> and \<open>reconcile\<close> are asynchronous and share the store, the breakers, the policy gate and the
  journal with the other calls in flight. A call is therefore a task that stands at a program point;
  one step of a task makes one access to the shared state or one call of an injected component, whose
  answer is an argument of the step. Any task may run next, any task may be dropped where it stands
  (its guards release what they hold), the kill switch may be thrown between two steps, and the process
  may end, after which a new relay is built over the same store.
\<close>

section \<open>Injected components\<close>

datatype chain_observation =
    CO_Confirmed string "observed_fill option"
  | CO_Pending
  | CO_Rejected string
  | CO_Unknown

definition receipt_new :: "string \<Rightarrow> relay_error + string" where
  "receipt_new reference = (if trim_is_empty reference then Inl RE_AdapterUnavailable else Inr reference)"

record relay_answers =
  an_health :: breaker_health
  an_payload_to_sign :: "relay_error + signed_payload"
  an_sign :: "relay_error + signed_execution_ref"
  an_signed_payload :: "relay_error + signed_payload"
  an_submit :: "relay_error + string"
  an_query :: "relay_error + chain_observation"
  an_reconcile :: "relay_error + chain_observation"

text \<open>The adapter \<open>UnavailableChainAdapter\<close> answers every call with a refusal.\<close>

definition unavailable_adapter :: "relay_answers \<Rightarrow> relay_answers" where
  "unavailable_adapter ans = ans\<lparr>an_health := BH_Unavailable, an_submit := Inl RE_AdapterUnavailable,
     an_query := Inl RE_AdapterUnavailable, an_reconcile := Inl RE_AdapterUnavailable\<rparr>"

text \<open>\<open>PrivySigningBoundaryAdapter::sign\<close>: the answer of the boundary as an answer of the relay's signer.\<close>

definition privy_sign_answer :: "privy_error + privy_signed_ref \<Rightarrow> relay_error + signed_execution_ref" where
  "privy_sign_answer answer =
     bindR (map_err (\<lambda>_. RE_SigningFailed) answer) (\<lambda>r.
     map_err (\<lambda>_. RE_SigningFailed)
       (signed_ref_new (vs_reference r) (vs_request_digest r) (vs_intent_id r) (vs_idempotency_key r)))"

section \<open>The relay\<close>

record relay_input =
  ri_intent :: trade_intent
  ri_policy_context :: policy_context
  ri_prepared :: prepared_execution_ref
  ri_approved :: approved_execution
  ri_route :: route_plan
  ri_preview :: execution_preview
  ri_now_ms :: i64

type_synonym journal = "((string \<times> string \<times> idempotency_key) \<times> submit_request) list"

record 's relay =
  ry_policy :: policy_engine
  ry_store :: 's
  ry_breaker :: chain_breaker
  ry_signing_breaker :: signing_breaker
  ry_journal :: journal

definition relay_new :: "policy_engine \<Rightarrow> 's \<Rightarrow> chain_breaker \<Rightarrow> 's relay" where
  "relay_new policy store breaker =
     \<lparr>ry_policy = policy, ry_store = store, ry_breaker = breaker, ry_signing_breaker = default_policy, ry_journal = []\<rparr>"

definition with_signing_breaker :: "'s relay \<Rightarrow> signing_breaker \<Rightarrow> 's relay" where
  "with_signing_breaker relay breaker = relay\<lparr>ry_signing_breaker := breaker\<rparr>"

definition journal_key :: "attempt_binding \<Rightarrow> string \<times> string \<times> idempotency_key" where
  "journal_key b = (ab_owner b, ab_workspace b, ab_idempotency_key b)"

definition journal_insert :: "'s relay \<Rightarrow> attempt_binding \<Rightarrow> submit_request \<Rightarrow> 's relay" where
  "journal_insert relay b request = relay\<lparr>ry_journal := AList.update (journal_key b) request (ry_journal relay)\<rparr>"

definition journal_set_chain_reference :: "'s relay \<Rightarrow> attempt_binding \<Rightarrow> string \<Rightarrow> 's relay" where
  "journal_set_chain_reference relay b reference =
     (case map_of (ry_journal relay) (journal_key b) of
        Some request \<Rightarrow>
          relay\<lparr>ry_journal := AList.update (journal_key b) (with_chain_reference request reference) (ry_journal relay)\<rparr>
      | None \<Rightarrow> relay)"

definition journal_get :: "'s relay \<Rightarrow> attempt_binding \<Rightarrow> submit_request option" where
  "journal_get relay b = map_of (ry_journal relay) (journal_key b)"

definition payload_digest_for :: "relay_answers \<Rightarrow> relay_error + digest" where
  "payload_digest_for ans = bindR (an_payload_to_sign ans) (\<lambda>payload. Inr (sy_digest payload))"

section \<open>Executing an attempt\<close>

text \<open>Where an execution stands, with the local variables that are still used.\<close>

datatype (plugins only: size code) exec_point =
    EP_Start
  | EP_Observe
  | EP_CheckAllowed breaker_health
  | EP_Payload
  | EP_Bind signed_payload
  | EP_Reserve signing_request
  | EP_SignRequested signing_request
  | EP_AdmitSigning signing_request
  | EP_Sign signing_request bool
  | EP_Signing signing_request bool
  | EP_SignResolve signing_request bool "relay_error + signed_execution_ref"
  | EP_RecordSigned signing_request signed_execution_ref
  | EP_SignedPayload signing_request signed_execution_ref
  | EP_Journal signing_request submit_request
  | EP_RecordSubmission signing_request submit_request
  | EP_AdmitSubmit signing_request submit_request
  | EP_Submit signing_request submit_request bool
  | EP_Submitting signing_request submit_request bool
  | EP_SubmitResolve signing_request submit_request bool "relay_error + string"
  | EP_JournalReference signing_request string
  | EP_RecordOutcome signing_request relay_outcome "relay_error + relay_outcome"
  | EP_Done "relay_error + relay_outcome"
  | EP_Dropped

definition input_binding :: "relay_input \<Rightarrow> attempt_binding" where
  "input_binding input =
     (let intent = ri_intent input in
      \<lparr>ab_owner = ti_user_id intent, ab_workspace = ti_wallet_ref intent,
       ab_idempotency_key = ti_idempotency_key intent, ab_intent_id = ti_id intent, ab_chain = ti_chain intent\<rparr>)"

text \<open>Step 1: the kill switch. Step 2: the adapter's health feeds the breaker, which is then asked.\<close>

definition step_start :: "'s relay \<Rightarrow> exec_point" where
  "step_start relay =
     (if \<not> is_trading_enabled (ry_policy relay) then EP_Done (Inl RE_TradingDisabled) else EP_Observe)"

definition step_observe :: "relay_answers \<Rightarrow> relay_input \<Rightarrow> 's relay \<Rightarrow> 's relay \<times> exec_point" where
  "step_observe ans input relay =
     (let adapter_health = an_health ans in
      (relay\<lparr>ry_breaker := chain_observe (ry_breaker relay) (ti_chain (ri_intent input)) adapter_health (ri_now_ms input)\<rparr>,
       EP_CheckAllowed adapter_health))"

definition step_check_allowed :: "relay_input \<Rightarrow> 's relay \<Rightarrow> breaker_health \<Rightarrow> exec_point" where
  "step_check_allowed input relay adapter_health =
     (if adapter_health = BH_Unavailable \<or>
         \<not> chain_check_allowed (ry_breaker relay) (ti_chain (ri_intent input)) (ri_now_ms input)
      then EP_Done (Inl RE_ChainHealthUnavailable) else EP_Payload)"

text \<open>Step 3: the payload to be signed. Step 4: the signing request. Step 5: the claim.\<close>

definition step_payload :: "relay_answers \<Rightarrow> exec_point" where
  "step_payload ans =
     (case an_payload_to_sign ans of Inl _ \<Rightarrow> EP_Done (Inl RE_MissingSignedPayload) | Inr payload \<Rightarrow> EP_Bind payload)"

definition step_bind :: "hash \<Rightarrow> relay_input \<Rightarrow> 's relay \<Rightarrow> signed_payload \<Rightarrow> exec_point" where
  "step_bind sha256 input relay payload =
     (case signing_bind sha256 (ry_policy relay) (ri_approved input) (ri_prepared input) (ri_intent input)
             (ri_route input) (ri_preview input) (sy_digest payload) (ri_now_ms input) of
        Inl _ \<Rightarrow> EP_Done (Inl RE_SigningFailed)
      | Inr request \<Rightarrow> EP_Reserve request)"

definition step_reserve :: "'s store_ops \<Rightarrow> relay_input \<Rightarrow> 's relay \<Rightarrow> signing_request \<Rightarrow> 's relay \<times> exec_point" where
  "step_reserve ops input relay request =
     (case op_reserve_bound ops (ry_store relay) (input_binding input) (sr_request_digest request) of
        (store, answer) \<Rightarrow>
          (relay\<lparr>ry_store := store\<rparr>,
           case answer of
             Inr RV_Reserved \<Rightarrow> EP_SignRequested request
           | Inr (RV_AlreadyReserved r) \<Rightarrow> EP_Done (Inr r)
           | Inr RV_Conflict \<Rightarrow> EP_Done (Inl RE_IdempotencyConflict)
           | Inl _ \<Rightarrow> EP_Done (Inl RE_ReservationUnavailable)))"

text \<open>Step 5b: the signing request is recorded. Step 6: the signing breaker, one signer call, and its guard.\<close>

definition step_sign_requested ::
  "'s store_ops \<Rightarrow> relay_input \<Rightarrow> 's relay \<Rightarrow> signing_request \<Rightarrow> 's relay \<times> exec_point" where
  "step_sign_requested ops input relay request =
     (case op_record_sign_requested ops (ry_store relay) (input_binding input) (sr_request_digest request)
             (provider_idempotency_id request) of
        (store, answer) \<Rightarrow>
          (relay\<lparr>ry_store := store\<rparr>,
           case answer of
             Inl _ \<Rightarrow> EP_RecordOutcome request RO_FailedBeforeSubmit (Inl RE_StoreUnavailable)
           | Inr _ \<Rightarrow> EP_AdmitSigning request))"

definition step_admit_signing :: "relay_input \<Rightarrow> 's relay \<Rightarrow> signing_request \<Rightarrow> 's relay \<times> exec_point" where
  "step_admit_signing input relay request =
     (case signing_admit_probe (ry_signing_breaker relay) (ri_now_ms input) of
        (breaker, admitted) \<Rightarrow>
          (relay\<lparr>ry_signing_breaker := breaker\<rparr>,
           case admitted of
             Some consumed \<Rightarrow> EP_Sign request consumed
           | None \<Rightarrow> EP_RecordOutcome request RO_FailedBeforeSubmit (Inl RE_SigningUnavailable)))"

definition step_sign_resolve ::
  "relay_input \<Rightarrow> 's relay \<Rightarrow> signing_request \<Rightarrow> relay_error + signed_execution_ref \<Rightarrow> 's relay \<times> exec_point" where
  "step_sign_resolve input relay request answer =
     (let failed = relay\<lparr>ry_signing_breaker := signing_record_failure (ry_signing_breaker relay) (ri_now_ms input)\<rparr> in
      case answer of
        Inl _ \<Rightarrow> (failed, EP_RecordOutcome request RO_FailedBeforeSubmit (Inl RE_SigningFailed))
      | Inr sref \<Rightarrow>
          if \<not> attests sref request
          then (failed, EP_RecordOutcome request RO_FailedBeforeSubmit (Inl RE_SigningRequestMismatch))
          else (relay\<lparr>ry_signing_breaker := signing_record_success (ry_signing_breaker relay)\<rparr>,
                EP_RecordSigned request sref))"

text \<open>Step 7: the reference is recorded. Steps 8 and 9: the signed payload is fetched and bound.\<close>

definition step_record_signed ::
  "'s store_ops \<Rightarrow> relay_input \<Rightarrow> 's relay \<Rightarrow> signing_request \<Rightarrow> signed_execution_ref \<Rightarrow> 's relay \<times> exec_point" where
  "step_record_signed ops input relay request sref =
     (case op_record_signed_reference ops (ry_store relay) (input_binding input) (sr_request_digest request)
             (se_reference sref) of
        (store, answer) \<Rightarrow>
          (relay\<lparr>ry_store := store\<rparr>,
           case answer of
             Inl _ \<Rightarrow> EP_RecordOutcome request RO_FailedBeforeSubmit (Inr RO_FailedBeforeSubmit)
           | Inr _ \<Rightarrow> EP_SignedPayload request sref))"

definition step_signed_payload ::
  "relay_answers \<Rightarrow> relay_input \<Rightarrow> signing_request \<Rightarrow> signed_execution_ref \<Rightarrow> exec_point" where
  "step_signed_payload ans input signing sref =
     (case an_signed_payload ans of
        Inl _ \<Rightarrow> EP_RecordOutcome signing RO_FailedBeforeSubmit (Inl RE_MissingSignedPayload)
      | Inr payload \<Rightarrow>
          case submit_bind signing sref payload (ti_chain (ri_intent input)) of
            Inl error \<Rightarrow> EP_RecordOutcome signing RO_FailedBeforeSubmit (Inl error)
          | Inr request \<Rightarrow> EP_Journal signing request)"

text \<open>Step 9b: the submission is recorded. Steps 10 and 11: the chain breaker, one submit, and its guard.\<close>

definition step_record_submission ::
  "'s store_ops \<Rightarrow> relay_input \<Rightarrow> 's relay \<Rightarrow> signing_request \<Rightarrow> submit_request \<Rightarrow> 's relay \<times> exec_point" where
  "step_record_submission ops input relay signing request =
     (case op_record_submission ops (ry_store relay) (input_binding input) (sr_request_digest signing) request of
        (store, answer) \<Rightarrow>
          (relay\<lparr>ry_store := store\<rparr>,
           case answer of
             Inl _ \<Rightarrow> EP_RecordOutcome signing RO_FailedBeforeSubmit (Inl RE_StoreUnavailable)
           | Inr _ \<Rightarrow> EP_AdmitSubmit signing request))"

definition step_admit_submit ::
  "relay_input \<Rightarrow> 's relay \<Rightarrow> signing_request \<Rightarrow> submit_request \<Rightarrow> 's relay \<times> exec_point" where
  "step_admit_submit input relay signing request =
     (case chain_admit_probe (ry_breaker relay) (ti_chain (ri_intent input)) (ri_now_ms input) of
        (breaker, admitted) \<Rightarrow>
          (relay\<lparr>ry_breaker := breaker\<rparr>,
           case admitted of
             Some consumed \<Rightarrow> EP_Submit signing request consumed
           | None \<Rightarrow> EP_RecordOutcome signing RO_FailedBeforeSubmit (Inl RE_ChainHealthUnavailable)))"

definition step_submit_resolve ::
  "relay_input \<Rightarrow> 's relay \<Rightarrow> signing_request \<Rightarrow> relay_error + string \<Rightarrow> 's relay \<times> exec_point" where
  "step_submit_resolve input relay signing answer =
     (let chain = ti_chain (ri_intent input);
          succeeded = relay\<lparr>ry_breaker := chain_record_success (ry_breaker relay) chain\<rparr>
      in case answer of
           Inr reference \<Rightarrow>
             (succeeded,
              if \<not> trim_is_empty reference then EP_JournalReference signing reference
              else EP_RecordOutcome signing RO_Unknown (Inr RO_Unknown))
         | Inl error \<Rightarrow>
             if error = RE_AdapterRejected
             then (let r = RO_Rejected ''adapter rejected submission'' in
                   (succeeded, EP_RecordOutcome signing r (Inr r)))
             else (relay\<lparr>ry_breaker := chain_record_failure (ry_breaker relay) chain (ri_now_ms input)\<rparr>,
                   EP_RecordOutcome signing RO_Unknown (Inr RO_Unknown)))"

definition step_journal_reference ::
  "relay_input \<Rightarrow> 's relay \<Rightarrow> signing_request \<Rightarrow> string \<Rightarrow> 's relay \<times> exec_point" where
  "step_journal_reference input relay signing reference =
     (let r = RO_Submitted reference SS_Unknown in
      (journal_set_chain_reference relay (input_binding input) reference, EP_RecordOutcome signing r (Inr r)))"

text \<open>The outcome is recorded; an error of the store is swallowed.\<close>

definition record_outcome ::
  "'s store_ops \<Rightarrow> 's relay \<Rightarrow> attempt_binding \<Rightarrow> digest \<Rightarrow> relay_outcome \<Rightarrow> 's relay" where
  "record_outcome ops relay b digest r = relay\<lparr>ry_store := fst (op_record_outcome ops (ry_store relay) b digest r)\<rparr>"

definition exec_step ::
  "hash \<Rightarrow> 's store_ops \<Rightarrow> relay_answers \<Rightarrow> relay_input \<Rightarrow> 's relay \<Rightarrow> exec_point \<Rightarrow> 's relay \<times> exec_point" where
  "exec_step sha256 ops ans input relay pt =
     (case pt of
        EP_Start \<Rightarrow> (relay, step_start relay)
      | EP_Observe \<Rightarrow> step_observe ans input relay
      | EP_CheckAllowed health \<Rightarrow> (relay, step_check_allowed input relay health)
      | EP_Payload \<Rightarrow> (relay, step_payload ans)
      | EP_Bind payload \<Rightarrow> (relay, step_bind sha256 input relay payload)
      | EP_Reserve signing \<Rightarrow> step_reserve ops input relay signing
      | EP_SignRequested signing \<Rightarrow> step_sign_requested ops input relay signing
      | EP_AdmitSigning signing \<Rightarrow> step_admit_signing input relay signing
      | EP_Sign signing consumed \<Rightarrow> (relay, EP_Signing signing consumed)
      | EP_Signing signing consumed \<Rightarrow> (relay, EP_SignResolve signing consumed (an_sign ans))
      | EP_SignResolve signing consumed answer \<Rightarrow> step_sign_resolve input relay signing answer
      | EP_RecordSigned signing sref \<Rightarrow> step_record_signed ops input relay signing sref
      | EP_SignedPayload signing sref \<Rightarrow> (relay, step_signed_payload ans input signing sref)
      | EP_Journal signing request \<Rightarrow>
          (journal_insert relay (input_binding input) request, EP_RecordSubmission signing request)
      | EP_RecordSubmission signing request \<Rightarrow> step_record_submission ops input relay signing request
      | EP_AdmitSubmit signing request \<Rightarrow> step_admit_submit input relay signing request
      | EP_Submit signing request consumed \<Rightarrow> (relay, EP_Submitting signing request consumed)
      | EP_Submitting signing request consumed \<Rightarrow> (relay, EP_SubmitResolve signing request consumed (an_submit ans))
      | EP_SubmitResolve signing request consumed answer \<Rightarrow> step_submit_resolve input relay signing answer
      | EP_JournalReference signing reference \<Rightarrow> step_journal_reference input relay signing reference
      | EP_RecordOutcome signing r result \<Rightarrow>
          (record_outcome ops relay (input_binding input) (sr_request_digest signing) r, EP_Done result)
      | EP_Done result \<Rightarrow> (relay, EP_Done result)
      | EP_Dropped \<Rightarrow> (relay, EP_Dropped))"

text \<open>The consequential call a task makes when it leaves a point: the signer or the chain adapter.\<close>

datatype relay_call = CL_Sign signing_request | CL_Submit submit_request

definition calls_at :: "exec_point \<Rightarrow> relay_call list" where
  "calls_at pt =
     (case pt of
        EP_Sign signing _ \<Rightarrow> [CL_Sign signing]
      | EP_Submit _ request _ \<Rightarrow> [CL_Submit request]
      | _ \<Rightarrow> [])"

text \<open>The probe guards a task holds, and the drop of a task with them. A finished task has nothing to drop.\<close>

definition holds_signing_probe :: "exec_point \<Rightarrow> bool" where
  "holds_signing_probe pt =
     (case pt of
        EP_Sign _ consumed \<Rightarrow> consumed
      | EP_Signing _ consumed \<Rightarrow> consumed
      | EP_SignResolve _ consumed _ \<Rightarrow> consumed
      | _ \<Rightarrow> False)"

definition holds_chain_probe :: "exec_point \<Rightarrow> bool" where
  "holds_chain_probe pt =
     (case pt of
        EP_Submit _ _ consumed \<Rightarrow> consumed
      | EP_Submitting _ _ consumed \<Rightarrow> consumed
      | EP_SubmitResolve _ _ consumed _ \<Rightarrow> consumed
      | _ \<Rightarrow> False)"

definition is_done :: "exec_point \<Rightarrow> bool" where
  "is_done pt = (case pt of EP_Done _ \<Rightarrow> True | _ \<Rightarrow> False)"

definition exec_drop :: "relay_input \<Rightarrow> 's relay \<Rightarrow> exec_point \<Rightarrow> 's relay \<times> exec_point" where
  "exec_drop input relay pt =
     (if is_done pt then (relay, pt)
      else
        (relay\<lparr>ry_signing_breaker := signing_probe_drop (ry_signing_breaker relay) (ri_now_ms input) (holds_signing_probe pt),
               ry_breaker := probe_drop (ry_breaker relay) (ti_chain (ri_intent input)) (ri_now_ms input)
                               (holds_chain_probe pt)\<rparr>,
         EP_Dropped))"

section \<open>Reconciling an attempt\<close>

datatype (plugins only: size code) rec_point =
    RP_LoadOutcome
  | RP_Journal
  | RP_LoadSubmission
  | RP_Query submit_request
  | RP_Reconcile submit_request
  | RP_Record submit_request relay_outcome
  | RP_Done "relay_error + relay_outcome"
  | RP_Dropped

definition observed_outcome :: "chain_observation \<Rightarrow> relay_outcome" where
  "observed_outcome observation =
     (case observation of
        CO_Confirmed reference fill \<Rightarrow> RO_Confirmed reference fill
      | CO_Rejected final_reason \<Rightarrow> RO_Rejected final_reason
      | CO_Pending \<Rightarrow> RO_Unknown
      | CO_Unknown \<Rightarrow> RO_Unknown)"

definition step_load_outcome :: "'s store_ops \<Rightarrow> attempt_binding \<Rightarrow> 's relay \<Rightarrow> rec_point" where
  "step_load_outcome ops b relay =
     (case op_load_outcome ops (ry_store relay) b of
        Inr (Some r) \<Rightarrow> if status_is_terminal (outcome_attempt_status r) then RP_Done (Inr r) else RP_Journal
      | _ \<Rightarrow> RP_Journal)"

definition step_load_submission :: "hash \<Rightarrow> 's store_ops \<Rightarrow> attempt_binding \<Rightarrow> 's relay \<Rightarrow> rec_point" where
  "step_load_submission sha256 ops b relay =
     (case op_load_submission ops (ry_store relay) b of
        Inr (Some submission) \<Rightarrow>
          (case submit_restore sha256 submission of Inl e \<Rightarrow> RP_Done (Inl e) | Inr request \<Rightarrow> RP_Query request)
      | Inr None \<Rightarrow> RP_Done (Inl RE_InvalidTransition)
      | Inl _ \<Rightarrow> RP_Done (Inl RE_StoreUnavailable))"

definition step_query :: "relay_answers \<Rightarrow> submit_request \<Rightarrow> rec_point" where
  "step_query ans request =
     (case an_query ans of
        Inr observation \<Rightarrow>
          if observation = CO_Unknown then RP_Reconcile request else RP_Record request (observed_outcome observation)
      | Inl _ \<Rightarrow> RP_Reconcile request)"

definition step_reconcile :: "relay_answers \<Rightarrow> submit_request \<Rightarrow> rec_point" where
  "step_reconcile ans request =
     (case an_reconcile ans of
        Inr observation \<Rightarrow> RP_Record request (observed_outcome observation)
      | Inl _ \<Rightarrow> RP_Done (Inl RE_AdapterUnavailable))"

definition rec_step ::
  "hash \<Rightarrow> 's store_ops \<Rightarrow> relay_answers \<Rightarrow> attempt_binding \<Rightarrow> 's relay \<Rightarrow> rec_point \<Rightarrow> 's relay \<times> rec_point" where
  "rec_step sha256 ops ans b relay pt =
     (case pt of
        RP_LoadOutcome \<Rightarrow> (relay, step_load_outcome ops b relay)
      | RP_Journal \<Rightarrow>
          (relay, case journal_get relay b of Some request \<Rightarrow> RP_Query request | None \<Rightarrow> RP_LoadSubmission)
      | RP_LoadSubmission \<Rightarrow> (relay, step_load_submission sha256 ops b relay)
      | RP_Query request \<Rightarrow> (relay, step_query ans request)
      | RP_Reconcile request \<Rightarrow> (relay, step_reconcile ans request)
      | RP_Record request r \<Rightarrow> (record_outcome ops relay b (sb_request_digest request) r, RP_Done (Inr r))
      | RP_Done result \<Rightarrow> (relay, RP_Done result)
      | RP_Dropped \<Rightarrow> (relay, RP_Dropped))"

definition rec_drop :: "rec_point \<Rightarrow> rec_point" where
  "rec_drop pt = (case pt of RP_Done result \<Rightarrow> RP_Done result | _ \<Rightarrow> RP_Dropped)"

section \<open>Calls in flight\<close>

datatype task = Execute relay_input exec_point | Reconcile attempt_binding i64 rec_point

definition task_starts :: "task \<Rightarrow> bool" where
  "task_starts t = (case t of Execute _ pt \<Rightarrow> pt = EP_Start | Reconcile _ _ pt \<Rightarrow> pt = RP_LoadOutcome)"

definition task_step :: "hash \<Rightarrow> 's store_ops \<Rightarrow> relay_answers \<Rightarrow> 's relay \<Rightarrow> task \<Rightarrow> 's relay \<times> task" where
  "task_step sha256 ops ans relay t =
     (case t of
        Execute input pt \<Rightarrow> map_prod (\<lambda>r. r) (Execute input) (exec_step sha256 ops ans input relay pt)
      | Reconcile b now_ms pt \<Rightarrow> map_prod (\<lambda>r. r) (Reconcile b now_ms) (rec_step sha256 ops ans b relay pt))"

definition task_drop :: "'s relay \<Rightarrow> task \<Rightarrow> 's relay \<times> task" where
  "task_drop relay t =
     (case t of
        Execute input pt \<Rightarrow> map_prod (\<lambda>r. r) (Execute input) (exec_drop input relay pt)
      | Reconcile b now_ms pt \<Rightarrow> (relay, Reconcile b now_ms (rec_drop pt)))"

definition task_calls :: "task \<Rightarrow> (relay_input \<times> relay_call) list" where
  "task_calls t = (case t of Execute input pt \<Rightarrow> map (Pair input) (calls_at pt) | Reconcile _ _ _ \<Rightarrow> [])"

text \<open>The relay, its calls in flight, and every signer and adapter call made so far.\<close>

record 's world =
  wd_relay :: "'s relay"
  wd_tasks :: "task list"
  wd_trace :: "(relay_input \<times> relay_call) list"

text \<open>\<open>SignedPayload\<close> values come from its constructor, so their digest is the hash of their bytes.\<close>

definition payload_ok :: "hash \<Rightarrow> relay_error + signed_payload \<Rightarrow> bool" where
  "payload_ok sha256 answer =
     (case answer of Inl _ \<Rightarrow> True | Inr payload \<Rightarrow> signed_payload_new sha256 (sy_bytes payload) = Inr payload)"

definition answers_ok :: "hash \<Rightarrow> relay_answers \<Rightarrow> bool" where
  "answers_ok sha256 ans \<longleftrightarrow> payload_ok sha256 (an_payload_to_sign ans) \<and> payload_ok sha256 (an_signed_payload ans)"

inductive world_step :: "hash \<Rightarrow> 's store_ops \<Rightarrow> 's world \<Rightarrow> 's world \<Rightarrow> bool"
  for sha256 :: hash and ops :: "'s store_ops" where
  spawn: "task_starts t \<Longrightarrow> world_step sha256 ops w (w\<lparr>wd_tasks := wd_tasks w @ [t]\<rparr>)"
| run: "i < length (wd_tasks w) \<Longrightarrow> answers_ok sha256 ans \<Longrightarrow>
    task_step sha256 ops ans (wd_relay w) (wd_tasks w ! i) = (relay, t) \<Longrightarrow>
    world_step sha256 ops w
      \<lparr>wd_relay = relay, wd_tasks = (wd_tasks w)[i := t], wd_trace = wd_trace w @ task_calls (wd_tasks w ! i)\<rparr>"
| drop: "i < length (wd_tasks w) \<Longrightarrow> task_drop (wd_relay w) (wd_tasks w ! i) = (relay, t) \<Longrightarrow>
    world_step sha256 ops w (w\<lparr>wd_relay := relay, wd_tasks := (wd_tasks w)[i := t]\<rparr>)"
| kill: "world_step sha256 ops w (w\<lparr>wd_relay := (wd_relay w)\<lparr>ry_policy := disable_trading (ry_policy (wd_relay w))\<rparr>\<rparr>)"
| restart: "world_step sha256 ops w
    (w\<lparr>wd_relay := relay_new policy (ry_store (wd_relay w)) (chain_breaker_new threshold cooldown_ms), wd_tasks := []\<rparr>)"

definition world_new :: "policy_engine \<Rightarrow> 's \<Rightarrow> u32 \<Rightarrow> i64 \<Rightarrow> 's world" where
  "world_new policy store threshold cooldown_ms =
     \<lparr>wd_relay = relay_new policy store (chain_breaker_new threshold cooldown_ms), wd_tasks = [], wd_trace = []\<rparr>"

abbreviation world_steps :: "hash \<Rightarrow> 's store_ops \<Rightarrow> 's world \<Rightarrow> 's world \<Rightarrow> bool" where
  "world_steps sha256 ops \<equiv> (world_step sha256 ops)\<^sup>*\<^sup>*"

end
