(* ===== verification/Relay_Runs.thy ===== *)
theory Relay_Runs
  imports Relay
begin

text \<open>
  Runs of the relay: what holds in every world that is reached by any interleaving of calls, drops,
  answers, kill switches and restarts. The lemmas on stores are proved inside the locales of the store
  contract and reach the durable store through its interpretation.

  \<^item> Every identity is signed and submitted at most once: a call needs a ticket, and a ticket a fresh claim.
  \<^item> A failure before submit is final, and so is every terminal outcome.
  \<^item> A half-open probe that is in flight is held by a call in flight.
  \<^item> What is submitted was bound to a validated preview and to the payload that was signed.
  \<^item> What was submitted can be reconciled after a restart.
\<close>

section \<open>The claim bounds the calls\<close>

datatype call_kind = Signer | Chain

definition kind_of :: "relay_call \<Rightarrow> call_kind" where
  "kind_of c = (case c of CL_Sign _ \<Rightarrow> Signer | CL_Submit _ \<Rightarrow> Chain)"

definition attempt_key :: "relay_input \<Rightarrow> durable_key" where
  "attempt_key input = key_from_binding (input_binding input)"

text \<open>
  The points from which a task may still make the call without a new claim. A task that is about to
  record a failure before submit counts as well: it holds the claim and has not submitted.
\<close>

definition ticket :: "call_kind \<Rightarrow> exec_point \<Rightarrow> bool" where
  "ticket kd pt =
     (case pt of
        EP_SignRequested _ \<Rightarrow> True
      | EP_AdmitSigning _ \<Rightarrow> True
      | EP_Sign _ _ \<Rightarrow> True
      | EP_Signing _ _ \<Rightarrow> kd = Chain
      | EP_SignResolve _ _ _ \<Rightarrow> kd = Chain
      | EP_RecordSigned _ _ \<Rightarrow> kd = Chain
      | EP_SignedPayload _ _ \<Rightarrow> kd = Chain
      | EP_Journal _ _ \<Rightarrow> kd = Chain
      | EP_RecordSubmission _ _ \<Rightarrow> kd = Chain
      | EP_AdmitSubmit _ _ \<Rightarrow> kd = Chain
      | EP_Submit _ _ _ \<Rightarrow> kd = Chain
      | EP_RecordOutcome _ r _ \<Rightarrow> kd = Chain \<and> r = RO_FailedBeforeSubmit
      | _ \<Rightarrow> False)"

definition task_ticket :: "call_kind \<Rightarrow> durable_key \<Rightarrow> task \<Rightarrow> nat" where
  "task_ticket kd k t =
     (case t of Execute input pt \<Rightarrow> of_bool (attempt_key input = k \<and> ticket kd pt) | Reconcile _ _ _ \<Rightarrow> 0)"

text \<open>The calls of one kind that were made for an identity, and the weight of an identity: these and the tickets.\<close>

definition calls_for :: "call_kind \<Rightarrow> durable_key \<Rightarrow> (relay_input \<times> relay_call) list \<Rightarrow> nat" where
  "calls_for kd k trace = length (filter (\<lambda>(input, c). attempt_key input = k \<and> kind_of c = kd) trace)"

definition weight :: "call_kind \<Rightarrow> durable_key \<Rightarrow> 's world \<Rightarrow> nat" where
  "weight kd k w = calls_for kd k (wd_trace w) + sum_list (map (task_ticket kd k) (wd_tasks w))"

lemmas exec_steps = step_start_def step_observe_def step_check_allowed_def step_payload_def step_bind_def
  step_reserve_def step_sign_requested_def step_admit_signing_def step_sign_resolve_def step_record_signed_def
  step_signed_payload_def step_record_submission_def step_admit_submit_def step_submit_resolve_def
  step_journal_reference_def Let_def

lemma exec_step_ticket:
  assumes "exec_step sha256 ops ans input relay pt = (relay', pt')"
  shows "length (filter (\<lambda>c. kind_of c = kd) (calls_at pt)) + of_bool (ticket kd pt')
    \<le> (of_bool (ticket kd pt) + of_bool (\<exists>s. pt = EP_Reserve s \<and> pt' = EP_SignRequested s) :: nat)"
  using assms by (cases kd; cases pt) (auto simp: exec_step_def exec_steps ticket_def calls_at_def kind_of_def
      split: if_splits sum.splits option.splits prod.splits reservation.splits)

text \<open>What one step of a task does to the store: at most one operation, for the task's own identity.\<close>

lemma exec_step_op:
  assumes "exec_step sha256 ops ans input relay pt = (relay', pt')"
  obtains (same) "ry_store relay' = ry_store relay"
      and "\<And>s. pt \<noteq> EP_Reserve s"
  | (reserve) s answer where "pt = EP_Reserve s"
      and "op_reserve_bound ops (ry_store relay) (input_binding input) (sr_request_digest s) = (ry_store relay', answer)"
      and "pt' = EP_SignRequested s \<Longrightarrow> answer = Inr RV_Reserved"
      and "\<And>r. pt' = EP_Done (Inr r) \<Longrightarrow> answer = Inr (RV_AlreadyReserved r)"
  | (sign_requested) s u where "pt = EP_SignRequested s"
      and "op_record_sign_requested ops (ry_store relay) (input_binding input) (sr_request_digest s)
        (provider_idempotency_id s) = (ry_store relay', u)"
  | (record_signed) s sref u where "pt = EP_RecordSigned s sref"
      and "op_record_signed_reference ops (ry_store relay) (input_binding input) (sr_request_digest s)
        (se_reference sref) = (ry_store relay', u)"
  | (submission) s request u where "pt = EP_RecordSubmission s request"
      and "op_record_submission ops (ry_store relay) (input_binding input) (sr_request_digest s) request = (ry_store relay', u)"
      and "\<And>s' request'. pt' = EP_AdmitSubmit s' request' \<Longrightarrow> u = Inr ()"
  | (outcome) s r result u where "pt = EP_RecordOutcome s r result" and "pt' = EP_Done result"
      and "op_record_outcome ops (ry_store relay) (input_binding input) (sr_request_digest s) r = (ry_store relay', u)"
proof (cases pt)
  case (EP_Reserve s)
  with assms show ?thesis
    by (intro reserve [OF EP_Reserve, of "snd (op_reserve_bound ops (ry_store relay) (input_binding input) (sr_request_digest s))"])
      (auto simp: exec_step_def step_reserve_def split: prod.splits sum.splits reservation.splits)
next
  case (EP_SignRequested s)
  with assms show ?thesis
    by (intro sign_requested [OF EP_SignRequested, of "snd (op_record_sign_requested ops (ry_store relay)
        (input_binding input) (sr_request_digest s) (provider_idempotency_id s))"]) (auto simp: exec_step_def step_sign_requested_def split: prod.splits)
next
  case (EP_RecordSigned s sref)
  with assms show ?thesis
    by (intro record_signed [OF EP_RecordSigned, of "snd (op_record_signed_reference ops (ry_store relay)
        (input_binding input) (sr_request_digest s) (se_reference sref))"]) (auto simp: exec_step_def step_record_signed_def split: prod.splits)
next
  case (EP_RecordSubmission s request)
  with assms show ?thesis
    by (intro submission [OF EP_RecordSubmission, of "snd (op_record_submission ops (ry_store relay) (input_binding input) (sr_request_digest s) request)"])
      (auto simp: exec_step_def step_record_submission_def split: prod.splits sum.splits)
next
  case (EP_RecordOutcome s r result)
  with assms show ?thesis
    by (intro outcome [OF EP_RecordOutcome, of "snd (op_record_outcome ops (ry_store relay) (input_binding input) (sr_request_digest s) r)"])
      (auto simp: exec_step_def record_outcome_def)
qed (use assms in \<open>auto intro!: same simp: exec_step_def exec_steps journal_insert_def journal_set_chain_reference_def
    split: if_splits sum.splits option.splits prod.splits\<close>)

lemma rec_step_op:
  assumes "rec_step sha256 ops ans b relay pt = (relay', pt')"
  obtains (same) "ry_store relay' = ry_store relay"
  | (outcome) request r u where "pt = RP_Record request r"
      and "op_record_outcome ops (ry_store relay) b (sb_request_digest request) r = (ry_store relay', u)"
  using assms by (cases pt) (auto simp: rec_step_def record_outcome_def prod_eq_iff)

lemma is_done_iff: "is_done pt \<longleftrightarrow> (\<exists>result. pt = EP_Done result)"
  by (cases pt) (simp_all add: is_done_def)

lemma task_ticket_start: "task_starts t \<Longrightarrow> task_ticket kd k t = 0"
  by (cases t) (auto simp: task_starts_def task_ticket_def ticket_def)

lemma task_ticket_drop: "task_drop relay t = (relay', t') \<Longrightarrow> task_ticket kd k t' \<le> task_ticket kd k t"
  by (cases t) (auto simp: task_drop_def task_ticket_def exec_drop_def ticket_def [of _ EP_Dropped] split: if_splits)

lemma task_drop_store: "task_drop relay t = (relay', t') \<Longrightarrow> ry_store relay' = ry_store relay"
  by (cases t) (auto simp: task_drop_def exec_drop_def split: if_splits)

lemma sum_list_map_update:
  fixes f :: "'b \<Rightarrow> nat"
  assumes "i < length xs"
  shows "sum_list (map f (xs[i := x])) + f (xs ! i) = sum_list (map f xs) + f x"
  using assms elem_le_sum_list [of i "map f xs"] by (simp add: map_update sum_list_update)

lemma calls_for_append [simp]: "calls_for kd k (xs @ ys) = calls_for kd k xs + calls_for kd k ys"
  by (simp add: calls_for_def)

lemma calls_for_pairs:
  "calls_for kd k (map (Pair input) cs) = (if attempt_key input = k then length (filter (\<lambda>c. kind_of c = kd) cs) else 0)"
  by (simp add: calls_for_def filter_map o_def)

context attempt_store
begin

text \<open>The step of an execution, seen from its store.\<close>

lemma exec_step_store:
  assumes "exec_step sha256 ops ans input relay pt = (relay', pt')" and "inv (ry_store relay)"
  shows "claimed (ry_store relay) k \<Longrightarrow> claimed (ry_store relay') k" and "inv (ry_store relay')"
    and "pt = EP_Reserve s \<Longrightarrow> pt' = EP_SignRequested s \<Longrightarrow>
      \<not> claimed (ry_store relay) (attempt_key input) \<and> claimed (ry_store relay') (attempt_key input)"
    and "outcome_of (ry_store relay) k = Some r \<Longrightarrow> terminal_outcome r \<Longrightarrow> outcome_of (ry_store relay') k = Some r"
    and "outcome_of (ry_store relay') k = Some RO_FailedBeforeSubmit \<Longrightarrow>
      outcome_of (ry_store relay) k = Some RO_FailedBeforeSubmit \<or>
      k = attempt_key input \<and> (\<exists>s result. pt = EP_RecordOutcome s RO_FailedBeforeSubmit result)"
  using assms(2)
  by (cases rule: exec_step_op [OF assms(1)];
      auto simp: attempt_key_def dest: reserve_claims reserve_keeps [where k = k]
        sign_requested_keeps [where k = k] signed_keeps [where k = k] submission_keeps [where k = k]
        outcome_keeps [where k = k])+

end

abbreviation wd_store :: "'s world \<Rightarrow> 's" where
  "wd_store w \<equiv> ry_store (wd_relay w)"

lemma task_step_cases:
  assumes "task_step sha256 ops ans relay t = (relay', t')"
  obtains (Execute) input pt pt' where "t = Execute input pt" and "t' = Execute input pt'"
      and "exec_step sha256 ops ans input relay pt = (relay', pt')"
  | (Reconcile) b now_ms pt pt' where "t = Reconcile b now_ms pt" and "t' = Reconcile b now_ms pt'"
      and "rec_step sha256 ops ans b relay pt = (relay', pt')"
  using assms by (cases t) (auto simp: task_step_def map_prod_def split: prod.splits)

context attempt_store
begin

lemma rec_step_store:
  assumes "rec_step sha256 ops ans b relay pt = (relay', pt')" and "inv (ry_store relay)"
  shows "claimed (ry_store relay) k \<Longrightarrow> claimed (ry_store relay') k" and "inv (ry_store relay')"
    and "outcome_of (ry_store relay) k = Some r \<Longrightarrow> terminal_outcome r \<Longrightarrow> outcome_of (ry_store relay') k = Some r"
  using assms(2)
  by (cases rule: rec_step_op [OF assms(1)]; auto dest: outcome_keeps [where k = k])+

lemma task_step_store:
  assumes "task_step sha256 ops ans relay t = (relay', t')" and "inv (ry_store relay)"
  shows "claimed (ry_store relay) k \<Longrightarrow> claimed (ry_store relay') k" and "inv (ry_store relay')"
    and "outcome_of (ry_store relay) k = Some r \<Longrightarrow> terminal_outcome r \<Longrightarrow> outcome_of (ry_store relay') k = Some r"
  using assms(2)
  by (cases rule: task_step_cases [OF assms(1)]; blast intro: exec_step_store(1,2,4) rec_step_store)+

lemma world_step_store:
  assumes "world_step sha256 ops w w'" and "inv (wd_store w)"
  shows "claimed (wd_store w) k \<Longrightarrow> claimed (wd_store w') k" and "inv (wd_store w')"
    and "outcome_of (wd_store w) k = Some r \<Longrightarrow> terminal_outcome r \<Longrightarrow> outcome_of (wd_store w') k = Some r"
  using assms
  by (cases rule: world_step.cases; auto simp: relay_new_def dest: task_drop_store task_step_store)+

text \<open>A step of a task spends a ticket for every call it makes, and gets one only with a fresh claim.\<close>

lemma task_step_weight:
  assumes "task_step sha256 ops ans relay t = (relay', t')" and "inv (ry_store relay)"
  shows "calls_for kd k (task_calls t) + task_ticket kd k t' + of_bool (claimed (ry_store relay) k)
    \<le> task_ticket kd k t + of_bool (claimed (ry_store relay') k)"
  using assms(1)
proof (cases rule: task_step_cases)
  case (Execute input pt pt')
  note e = Execute(3) and st = exec_step_store(1,3) [OF Execute(3) assms(2)]
  show ?thesis
  proof (cases "attempt_key input = k")
    case True
    then have "of_bool (\<exists>s. pt = EP_Reserve s \<and> pt' = EP_SignRequested s) + of_bool (claimed (ry_store relay) k)
      \<le> (of_bool (claimed (ry_store relay') k) :: nat)"
      using st(1) [of k] st(2) by auto
    with True exec_step_ticket [OF e, of kd] show ?thesis
      by (simp add: Execute(1,2) task_ticket_def task_calls_def calls_for_pairs)
  qed (use st(1) [of k] in \<open>auto simp: Execute(1,2) task_ticket_def task_calls_def calls_for_pairs\<close>)
next
  case (Reconcile b now_ms pt pt')
  with task_step_store(1) [OF assms, of k] show ?thesis
    by (simp add: task_ticket_def task_calls_def calls_for_def)
qed

lemma world_step_weight:
  assumes "world_step sha256 ops w w'" and "inv (wd_store w)"
  shows "weight kd k w' + of_bool (claimed (wd_store w) k) \<le> weight kd k w + of_bool (claimed (wd_store w') k)"
  using assms(1)
proof cases
  case (spawn t)
  then show ?thesis by (simp add: weight_def task_ticket_start)
next
  case (run i ans relay t)
  then show ?thesis
    using task_step_weight [OF run(4) assms(2), of kd k] sum_list_map_update [OF run(2), of "task_ticket kd k" t]
    by (simp add: weight_def)
next
  case (drop i relay t)
  then show ?thesis
    using task_ticket_drop [OF drop(3), of kd k] task_drop_store [OF drop(3)]
      sum_list_map_update [OF drop(2), of "task_ticket kd k" t]
    by (simp add: weight_def)
qed (simp_all add: weight_def relay_new_def)

lemma world_steps_inv: "world_steps sha256 ops w w' \<Longrightarrow> inv (wd_store w) \<Longrightarrow> inv (wd_store w')"
  by (induction rule: rtranclp_induct) (auto intro: world_step_store)

lemma world_steps_weight:
  assumes "world_steps sha256 ops w w'" and "inv (wd_store w)"
  shows "weight kd k w' + of_bool (claimed (wd_store w) k) \<le> weight kd k w + of_bool (claimed (wd_store w') k)"
  using assms(1)
proof (induction rule: rtranclp_induct)
  case (step v w')
  show ?case using world_step_weight [OF step(2) world_steps_inv [OF step(1) assms(2)], of kd k] step.IH by simp
qed simp

text \<open>From a fresh world on, an identity has at most one signer call and at most one submit, in every interleaving.\<close>

lemma calls_at_most_once:
  assumes "world_steps sha256 ops (world_new policy store threshold cooldown_ms) w" and "inv store"
  shows "calls_for kd k (wd_trace w) \<le> 1"
proof -
  have "weight kd k w \<le> of_bool (claimed (wd_store w) k)"
    using world_steps_weight [OF assms(1), of kd k] assms(2)
    by (simp add: world_new_def relay_new_def weight_def calls_for_def)
  then show ?thesis by (cases "claimed (wd_store w) k") (simp_all add: weight_def)
qed

end

section \<open>A failure before submit is final\<close>

text \<open>The results of tasks are what they recorded, and reconciling never records a failure before submit.\<close>

definition task_ok :: "task \<Rightarrow> bool" where
  "task_ok t =
     (case t of
        Execute _ (EP_RecordOutcome _ r (Inr r')) \<Rightarrow> r = r'
      | Reconcile _ _ (RP_Record _ r) \<Rightarrow> r \<noteq> RO_FailedBeforeSubmit
      | _ \<Rightarrow> True)"

lemma task_step_ok: "task_step sha256 ops ans relay t = (relay', t') \<Longrightarrow> task_ok t'"
  by (erule task_step_cases)
    (auto simp: task_ok_def exec_step_def exec_steps rec_step_def step_load_outcome_def step_load_submission_def
      step_query_def step_reconcile_def observed_outcome_def
      split: exec_point.splits rec_point.splits if_splits sum.splits option.splits prod.splits reservation.splits
        chain_observation.splits)

lemma task_drop_ok: "task_drop relay t = (relay', t') \<Longrightarrow> task_ok t'"
  by (cases t) (auto simp: task_drop_def exec_drop_def is_done_iff rec_drop_def task_ok_def
      split: rec_point.splits if_splits)

lemma task_start_ok: "task_starts t \<Longrightarrow> task_ok t"
  by (cases t) (auto simp: task_starts_def task_ok_def)

lemma exec_done_cases:
  assumes "exec_step sha256 ops ans input relay pt = (relay', EP_Done (Inr r))"
  obtains "pt = EP_Done (Inr r)" | s where "pt = EP_Reserve s" | s r' where "pt = EP_RecordOutcome s r' (Inr r)"
  using assms by (cases pt) (auto simp: exec_step_def exec_steps
      split: if_splits sum.splits option.splits prod.splits reservation.splits)

definition reports_failed :: "durable_key \<Rightarrow> task \<Rightarrow> bool" where
  "reports_failed k t =
     (case t of Execute input (EP_Done (Inr r)) \<Rightarrow> attempt_key input = k \<and> r = RO_FailedBeforeSubmit | _ \<Rightarrow> False)"

lemma reports_failed_iff:
  "reports_failed k t \<longleftrightarrow> (\<exists>input. t = Execute input (EP_Done (Inr RO_FailedBeforeSubmit)) \<and> attempt_key input = k)"
  by (auto simp: reports_failed_def split: task.splits exec_point.splits sum.splits)

lemma exec_drop_done: "exec_drop input relay pt = (relay', EP_Done result) \<Longrightarrow> pt = EP_Done result"
  by (auto simp: exec_drop_def split: if_splits)

lemma reports_failed_drop: "task_drop relay t = (relay', t') \<Longrightarrow> reports_failed k t' \<Longrightarrow> reports_failed k t"
  by (cases t) (auto simp: task_drop_def reports_failed_iff map_prod_def dest: exec_drop_done split: prod.splits)

context attempt_store
begin

text \<open>An identity that is claimed and has no weight stays so: nothing will be submitted for it any more.\<close>

definition dead :: "durable_key \<Rightarrow> 's world \<Rightarrow> bool" where
  "dead k w \<longleftrightarrow> claimed (wd_store w) k \<and> weight Chain k w = 0"

lemma dead_stays:
  assumes "world_steps sha256 ops w w'" and "inv (wd_store w)" and "dead k w"
  shows "dead k w'"
  using world_steps_weight [OF assms(1,2), of Chain k] assms(3)
  by (cases "claimed (wd_store w') k") (auto simp: dead_def)

definition failed_inv :: "'s world \<Rightarrow> bool" where
  "failed_inv w \<longleftrightarrow> inv (wd_store w) \<and> (\<forall>k. weight Chain k w \<le> of_bool (claimed (wd_store w) k)) \<and>
     (\<forall>t \<in> set (wd_tasks w). task_ok t) \<and>
     (\<forall>k. outcome_of (wd_store w) k = Some RO_FailedBeforeSubmit \<longrightarrow> dead k w) \<and>
     (\<forall>k. \<forall>t \<in> set (wd_tasks w). reports_failed k t \<longrightarrow> dead k w)"

text \<open>A task that records a failure before submit gives its ticket back unused.\<close>

lemma record_failed_kills:
  assumes "failed_inv w" and "i < length (wd_tasks w)"
    and "wd_tasks w ! i = Execute input (EP_RecordOutcome s RO_FailedBeforeSubmit result)"
    and "exec_step sha256 ops ans input (wd_relay w) (EP_RecordOutcome s RO_FailedBeforeSubmit result) = (relay, pt')"
  shows "dead (attempt_key input) \<lparr>wd_relay = relay, wd_tasks = (wd_tasks w)[i := Execute input pt'],
    wd_trace = wd_trace w @ task_calls (wd_tasks w ! i)\<rparr>"
proof -
  let ?k = "attempt_key input"
  have w: "weight Chain ?k w \<le> of_bool (claimed (wd_store w) ?k)" and inv: "inv (wd_store w)"
    using assms(1) by (simp_all add: failed_inv_def)
  have t: "task_ticket Chain ?k (wd_tasks w ! i) = 1" "task_calls (wd_tasks w ! i) = []"
    by (simp_all add: assms(3) task_ticket_def ticket_def task_calls_def calls_at_def)
  have t': "task_ticket Chain ?k (Execute input pt') = 0"
    using assms(4) by (auto simp: exec_step_def task_ticket_def ticket_def)
  have u: "sum_list (map (task_ticket Chain ?k) (wd_tasks w)) =
      Suc (sum_list (map (task_ticket Chain ?k) ((wd_tasks w)[i := Execute input pt'])))"
    using sum_list_map_update [OF assms(2), of "task_ticket Chain ?k" "Execute input pt'"] t t' by simp
  then have "weight Chain ?k w \<noteq> 0" unfolding weight_def by linarith
  with w have c: "claimed (wd_store w) ?k" by (cases "claimed (wd_store w) ?k") simp_all
  then have "claimed (ry_store relay) ?k" using exec_step_store(1) [OF assms(4) inv] by simp
  with w u t t' c show ?thesis by (simp add: dead_def weight_def calls_for_def)
qed

lemma failed_inv_run:
  assumes f: "failed_inv w" and i: "i < length (wd_tasks w)"
    and ok: "answers_ok sha256 ans" and s: "task_step sha256 ops ans (wd_relay w) (wd_tasks w ! i) = (relay, t)"
    and w': "w' = \<lparr>wd_relay = relay, wd_tasks = (wd_tasks w)[i := t], wd_trace = wd_trace w @ task_calls (wd_tasks w ! i)\<rparr>"
  shows "\<And>k. outcome_of (ry_store relay) k = Some RO_FailedBeforeSubmit \<Longrightarrow> dead k w'"
    and "\<And>k. reports_failed k t \<Longrightarrow> dead k w'"
proof -
  have inv: "inv (wd_store w)" using f by (simp add: failed_inv_def)
  have step: "world_steps sha256 ops w w'" using world_step.run [OF i ok s] w' by auto
  have keep: "dead k w'" if "dead k w" for k by (rule dead_stays [OF step inv that])
  have old: "dead k w'" if "outcome_of (wd_store w) k = Some RO_FailedBeforeSubmit" for k
    using f that by (auto simp: failed_inv_def intro: keep)
  show "dead k w'" if o: "outcome_of (ry_store relay) k = Some RO_FailedBeforeSubmit" for k
    using s
  proof (cases rule: task_step_cases)
    case (Execute input pt pt')
    from exec_step_store(5) [OF Execute(3) inv o] show ?thesis
      using old record_failed_kills [OF f i] Execute w' by auto
  next
    case (Reconcile b now_ms pt pt')
    have "task_ok (wd_tasks w ! i)" using f i by (simp add: failed_inv_def)
    with Reconcile have "outcome_of (wd_store w) k = Some RO_FailedBeforeSubmit"
      using o inv by (cases rule: rec_step_op [OF Reconcile(3)]) (auto simp: task_ok_def dest: outcome_keeps [where k = k])
    then show ?thesis by (rule old)
  qed
  show "dead k w'" if r: "reports_failed k t" for k
    using s
  proof (cases rule: task_step_cases)
    case (Execute input pt pt')
    with r have pt': "pt' = EP_Done (Inr RO_FailedBeforeSubmit)" and k: "k = attempt_key input"
      by (auto simp: reports_failed_def split: exec_point.splits sum.splits)
    from Execute(3) [unfolded pt'] show ?thesis
    proof (cases rule: exec_done_cases)
      case 1
      with Execute(1) k have "reports_failed k (wd_tasks w ! i)" by (simp add: reports_failed_def)
      then show ?thesis using f nth_mem [OF i] by (intro keep) (auto simp: failed_inv_def)
    next
      case (2 s)
      have "outcome_of (wd_store w) k = Some RO_FailedBeforeSubmit"
        using 2 pt' k by (cases rule: exec_step_op [OF Execute(3)])
          (auto simp: attempt_key_def dest!: reserve_replays split: option.splits)
      then show ?thesis by (rule old)
    next
      case (3 s r')
      have "task_ok (wd_tasks w ! i)" using f i by (simp add: failed_inv_def)
      with 3 Execute have "r' = RO_FailedBeforeSubmit" by (simp add: task_ok_def)
      then show ?thesis using record_failed_kills [OF f i] Execute 3 w' k by auto
    qed
  qed (use r in \<open>simp add: reports_failed_def\<close>)
qed

lemma failed_inv_step:
  assumes "world_step sha256 ops w w'" and f: "failed_inv w"
  shows "failed_inv w'"
proof -
  have inv: "inv (wd_store w)" using f by (simp add: failed_inv_def)
  have keep: "dead k w'" if "dead k w" for k
    using dead_stays [OF _ inv that] assms(1) by blast
  have w: "weight Chain k w' \<le> of_bool (claimed (wd_store w') k)" for k
    using world_step_weight [OF assms(1) inv, of Chain k] f by (auto simp: failed_inv_def dest!: spec [of _ k])
  have "(\<forall>t \<in> set (wd_tasks w'). task_ok t) \<and>
     (\<forall>k. outcome_of (wd_store w') k = Some RO_FailedBeforeSubmit \<longrightarrow> dead k w') \<and>
     (\<forall>k. \<forall>t \<in> set (wd_tasks w'). reports_failed k t \<longrightarrow> dead k w')"
    using assms(1)
  proof cases
    case (spawn t)
    then have "\<not> reports_failed k t" for k by (cases t) (auto simp: reports_failed_def task_starts_def)
    with spawn f keep show ?thesis by (auto simp: failed_inv_def task_start_ok)
  next
    case (run i ans relay t)
    with failed_inv_run [OF f run(2-4) run(1)] f keep task_step_ok [OF run(4)] show ?thesis
      by (auto simp: failed_inv_def dest!: set_update_subset_insert [THEN subsetD])
  next
    case (drop i relay t)
    have "dead k w" if "reports_failed k t" for k
      using reports_failed_drop [OF drop(3) that] nth_mem [OF drop(2)] f by (auto simp: failed_inv_def)
    with drop f keep task_drop_ok [OF drop(3)] task_drop_store [OF drop(3)] show ?thesis
      by (auto simp: failed_inv_def dest!: set_update_subset_insert [THEN subsetD])
  qed (use f keep in \<open>auto simp: failed_inv_def relay_new_def\<close>)
  with w world_step_store(2) [OF assms(1) inv] show ?thesis by (simp add: failed_inv_def)
qed

lemma failed_inv_reachable:
  assumes "world_steps sha256 ops (world_new policy store threshold cooldown_ms) w" and "inv store"
    and "\<And>k. \<not> claimed store k"
  shows "failed_inv w"
  using assms(1)
proof (induction rule: rtranclp_induct)
  case base
  have "outcome_of store k = None" for k using outcome_claimed assms(3) by blast
  with assms(2) show ?case
    by (simp add: failed_inv_def world_new_def relay_new_def weight_def calls_for_def)
qed (rule failed_inv_step)

text \<open>Once a failure before submit is recorded or reported, nothing was or will be submitted for that identity.\<close>

lemma failed_is_final:
  assumes "world_steps sha256 ops (world_new policy store threshold cooldown_ms) w" and "inv store"
    and "\<And>k. \<not> claimed store k" and "world_steps sha256 ops w w'"
    and "outcome_of (wd_store w) k = Some RO_FailedBeforeSubmit \<or> (\<exists>t \<in> set (wd_tasks w). reports_failed k t)"
  shows "calls_for Chain k (wd_trace w') = 0"
proof -
  have f: "failed_inv w" by (rule failed_inv_reachable [OF assms(1-3)])
  with assms(5) have "dead k w" by (auto simp: failed_inv_def)
  moreover have "inv (wd_store w)" using f by (simp add: failed_inv_def)
  ultimately have "dead k w'" using dead_stays [OF assms(4)] by blast
  then show ?thesis by (simp add: dead_def weight_def)
qed

lemma terminal_is_final:
  assumes "world_steps sha256 ops w w'" and "inv (wd_store w)"
    and "outcome_of (wd_store w) k = Some r" and "terminal_outcome r"
  shows "outcome_of (wd_store w') k = Some r"
  using assms(1)
proof (induction rule: rtranclp_induct)
  case (step v w')
  show ?case using world_step_store(3) [OF step(2) world_steps_inv [OF step(1) assms(2)] step(3) assms(4)] .
qed (rule assms(3))

end

section \<open>Probes are never stranded\<close>

definition holds_chain :: "chain_id \<Rightarrow> task \<Rightarrow> bool" where
  "holds_chain c t =
     (case t of Execute input pt \<Rightarrow> holds_chain_probe pt \<and> ti_chain (ri_intent input) = c | Reconcile _ _ _ \<Rightarrow> False)"

definition holds_signing :: "task \<Rightarrow> bool" where
  "holds_signing t = (case t of Execute input pt \<Rightarrow> holds_signing_probe pt | Reconcile _ _ _ \<Rightarrow> False)"

definition probes_held :: "'s world \<Rightarrow> bool" where
  "probes_held w \<longleftrightarrow>
     (\<forall>c. chain_probe (ry_breaker (wd_relay w)) c \<longrightarrow> (\<exists>t \<in> set (wd_tasks w). holds_chain c t)) \<and>
     (signing_probe (ry_signing_breaker (wd_relay w)) \<longrightarrow> (\<exists>t \<in> set (wd_tasks w). holds_signing t))"

lemma exec_step_breaker:
  assumes "exec_step sha256 ops ans input relay pt = (relay', pt')"
  obtains (same) "ry_breaker relay' = ry_breaker relay" and "holds_chain_probe pt \<Longrightarrow> holds_chain_probe pt'"
  | (observe) h where "ry_breaker relay' = chain_observe (ry_breaker relay) (ti_chain (ri_intent input)) h (ri_now_ms input)"
      and "\<not> holds_chain_probe pt"
  | (admit) admitted where
      "chain_admit_probe (ry_breaker relay) (ti_chain (ri_intent input)) (ri_now_ms input) = (ry_breaker relay', admitted)"
      and "\<not> holds_chain_probe pt" and "admitted = Some True \<Longrightarrow> holds_chain_probe pt'"
  | (resolve) "ry_breaker relay' = chain_record_success (ry_breaker relay) (ti_chain (ri_intent input)) \<or>
      ry_breaker relay' = chain_record_failure (ry_breaker relay) (ti_chain (ri_intent input)) (ri_now_ms input)"
proof (cases pt)
  case EP_Observe
  with assms show ?thesis
    by (intro observe [of "an_health ans"]) (auto simp: exec_step_def step_observe_def holds_chain_probe_def Let_def)
next
  case (EP_AdmitSubmit s request)
  with assms show ?thesis
    by (intro admit [of "snd (chain_admit_probe (ry_breaker relay) (ti_chain (ri_intent input)) (ri_now_ms input))"])
      (auto simp: exec_step_def step_admit_submit_def holds_chain_probe_def split: prod.splits)
next
  case (EP_SubmitResolve s request consumed answer)
  with assms show ?thesis
    by (intro resolve) (auto simp: exec_step_def step_submit_resolve_def Let_def split: sum.splits if_splits)
next
  case (EP_RecordSubmission s request)
  with assms show ?thesis
    by (intro same) (auto simp: exec_step_def step_record_submission_def holds_chain_probe_def split: prod.splits)
qed (use assms in \<open>simp add: same exec_step_def step_reserve_def step_sign_requested_def step_admit_signing_def
    step_sign_resolve_def step_record_signed_def step_journal_reference_def Let_def record_outcome_def
    journal_insert_def journal_set_chain_reference_def holds_chain_probe_def
    split: if_splits sum.splits option.splits prod.splits\<close>; use same in \<open>auto simp: holds_chain_probe_def\<close>)+

lemma exec_step_signing_breaker:
  assumes "exec_step sha256 ops ans input relay pt = (relay', pt')"
  obtains (same) "ry_signing_breaker relay' = ry_signing_breaker relay"
      and "holds_signing_probe pt \<Longrightarrow> holds_signing_probe pt'"
  | (admit) admitted where
      "signing_admit_probe (ry_signing_breaker relay) (ri_now_ms input) = (ry_signing_breaker relay', admitted)"
      and "\<not> holds_signing_probe pt" and "admitted = Some True \<Longrightarrow> holds_signing_probe pt'"
  | (resolve) "ry_signing_breaker relay' = signing_record_success (ry_signing_breaker relay) \<or>
      ry_signing_breaker relay' = signing_record_failure (ry_signing_breaker relay) (ri_now_ms input)"
proof (cases pt)
  case (EP_AdmitSigning s)
  with assms show ?thesis
    by (intro admit [of "snd (signing_admit_probe (ry_signing_breaker relay) (ri_now_ms input))"])
      (auto simp: exec_step_def step_admit_signing_def holds_signing_probe_def split: prod.splits)
next
  case (EP_SignResolve s consumed answer)
  with assms show ?thesis
    by (intro resolve) (auto simp: exec_step_def step_sign_resolve_def Let_def split: sum.splits if_splits)
qed (use assms in \<open>simp add: same exec_step_def step_observe_def step_reserve_def step_sign_requested_def
    step_record_signed_def step_record_submission_def step_admit_submit_def step_submit_resolve_def
    step_journal_reference_def Let_def record_outcome_def journal_insert_def journal_set_chain_reference_def
    holds_signing_probe_def split: if_splits sum.splits option.splits prod.splits\<close>;
    use same in \<open>auto simp: holds_signing_probe_def\<close>)+

text \<open>A probe that is in flight after a step was so before and its holder still holds it, or the step took it.\<close>

lemma exec_step_probes:
  assumes "exec_step sha256 ops ans input relay pt = (relay', pt')"
  shows "chain_probe (ry_breaker relay') c \<Longrightarrow>
      chain_probe (ry_breaker relay) c \<and> (holds_chain c (Execute input pt) \<longrightarrow> holds_chain c (Execute input pt')) \<or>
      holds_chain c (Execute input pt')"
    and "signing_probe (ry_signing_breaker relay') \<Longrightarrow>
      signing_probe (ry_signing_breaker relay) \<and> (holds_signing (Execute input pt) \<longrightarrow> holds_signing (Execute input pt')) \<or>
      holds_signing (Execute input pt')"
proof -
  show "chain_probe (ry_breaker relay) c \<and> (holds_chain c (Execute input pt) \<longrightarrow> holds_chain c (Execute input pt')) \<or>
      holds_chain c (Execute input pt')" if "chain_probe (ry_breaker relay') c"
    using assms by (rule exec_step_breaker)
      (use that in \<open>auto dest: chain_probe_ops(3) chain_probe_admit simp: chain_probe_ops holds_chain_def\<close>)
  show "signing_probe (ry_signing_breaker relay) \<and> (holds_signing (Execute input pt) \<longrightarrow> holds_signing (Execute input pt')) \<or>
      holds_signing (Execute input pt')" if "signing_probe (ry_signing_breaker relay')"
    using assms by (rule exec_step_signing_breaker)
      (use that in \<open>auto dest: signing_probe_admit simp: signing_probe_ops holds_signing_def\<close>)
qed

lemma rec_step_breakers:
  "rec_step sha256 ops ans b relay pt = (relay', pt') \<Longrightarrow>
     ry_breaker relay' = ry_breaker relay \<and> ry_signing_breaker relay' = ry_signing_breaker relay"
  by (cases pt) (auto simp: rec_step_def record_outcome_def)

lemma task_step_probes:
  assumes "task_step sha256 ops ans relay t = (relay', t')"
  shows "chain_probe (ry_breaker relay') c \<Longrightarrow>
      chain_probe (ry_breaker relay) c \<and> (holds_chain c t \<longrightarrow> holds_chain c t') \<or> holds_chain c t'"
    and "signing_probe (ry_signing_breaker relay') \<Longrightarrow>
      signing_probe (ry_signing_breaker relay) \<and> (holds_signing t \<longrightarrow> holds_signing t') \<or> holds_signing t'"
proof -
  show "chain_probe (ry_breaker relay) c \<and> (holds_chain c t \<longrightarrow> holds_chain c t') \<or> holds_chain c t'"
    if "chain_probe (ry_breaker relay') c"
    using assms
  proof (cases rule: task_step_cases)
    case Execute
    then show ?thesis using exec_step_probes(1) [OF Execute(3) that] by simp
  next
    case Reconcile
    then show ?thesis using rec_step_breakers [OF Reconcile(3)] that by (simp add: holds_chain_def)
  qed
  show "signing_probe (ry_signing_breaker relay) \<and> (holds_signing t \<longrightarrow> holds_signing t') \<or> holds_signing t'"
    if "signing_probe (ry_signing_breaker relay')"
    using assms
  proof (cases rule: task_step_cases)
    case Execute
    then show ?thesis using exec_step_probes(2) [OF Execute(3) that] by simp
  next
    case Reconcile
    then show ?thesis using rec_step_breakers [OF Reconcile(3)] that by (simp add: holds_signing_def)
  qed
qed

lemma exec_drop_probes:
  assumes "exec_drop input relay pt = (relay', pt')"
  shows "chain_probe (ry_breaker relay') c \<Longrightarrow> chain_probe (ry_breaker relay) c \<and> \<not> holds_chain c (Execute input pt)"
    and "signing_probe (ry_signing_breaker relay') \<Longrightarrow>
      signing_probe (ry_signing_breaker relay) \<and> \<not> holds_signing (Execute input pt)"
proof -
  have "is_done pt \<Longrightarrow> \<not> holds_chain_probe pt \<and> \<not> holds_signing_probe pt"
    by (auto simp: is_done_iff holds_chain_probe_def holds_signing_probe_def)
  with assms show "chain_probe (ry_breaker relay') c \<Longrightarrow> chain_probe (ry_breaker relay) c \<and> \<not> holds_chain c (Execute input pt)"
    and "signing_probe (ry_signing_breaker relay') \<Longrightarrow>
      signing_probe (ry_signing_breaker relay) \<and> \<not> holds_signing (Execute input pt)"
    by (auto simp: exec_drop_def chain_probe_ops signing_probe_ops holds_chain_def holds_signing_def split: if_splits)
qed

lemma task_drop_probes:
  assumes "task_drop relay t = (relay', t')"
  shows "chain_probe (ry_breaker relay') c \<Longrightarrow> chain_probe (ry_breaker relay) c \<and> \<not> holds_chain c t"
    and "signing_probe (ry_signing_breaker relay') \<Longrightarrow> signing_probe (ry_signing_breaker relay) \<and> \<not> holds_signing t"
proof -
  have d: "exec_drop input relay pt = (relay', snd (exec_drop input relay pt))" if "t = Execute input pt" for input pt
    using assms that by (auto simp: task_drop_def map_prod_def split: prod.splits)
  have r: "relay' = relay \<and> \<not> holds_chain c t \<and> \<not> holds_signing t" if "t = Reconcile b now_ms pt" for b now_ms pt
    using assms that by (simp add: task_drop_def holds_chain_def holds_signing_def)
  show "chain_probe (ry_breaker relay) c \<and> \<not> holds_chain c t" if "chain_probe (ry_breaker relay') c"
    using exec_drop_probes(1) [OF d that] r that by (cases t) simp_all
  show "signing_probe (ry_signing_breaker relay) \<and> \<not> holds_signing t" if "signing_probe (ry_signing_breaker relay')"
    using exec_drop_probes(2) [OF d that] r that by (cases t) simp_all
qed

lemma held_after_update:
  assumes "i < length ts" and "\<exists>t \<in> set ts. P t" and "P (ts ! i) \<Longrightarrow> P t'"
  shows "\<exists>t \<in> set (ts[i := t']). P t"
proof -
  from assms(2) obtain j where "j < length ts" "P (ts ! j)" by (auto simp: in_set_conv_nth)
  with assms(1,3) show ?thesis by (cases "j = i") (force simp: in_set_conv_nth)+
qed

lemma probes_held_step:
  assumes "world_step sha256 ops w w'" and "probes_held w"
  shows "probes_held w'"
  using assms(1)
proof cases
  case (run i ans relay t)
  have "\<exists>t' \<in> set ((wd_tasks w)[i := t]). holds_chain c t'" if "chain_probe (ry_breaker relay) c" for c
    using task_step_probes(1) [OF run(4) that] assms(2) run(2) held_after_update [OF run(2), of "holds_chain c" t]
    by (auto simp: probes_held_def set_update_memI)
  moreover have "\<exists>t' \<in> set ((wd_tasks w)[i := t]). holds_signing t'" if "signing_probe (ry_signing_breaker relay)"
    using task_step_probes(2) [OF run(4) that] assms(2) run(2) held_after_update [OF run(2), of holds_signing t]
    by (auto simp: probes_held_def set_update_memI)
  ultimately show ?thesis by (simp add: probes_held_def run(1))
next
  case (drop i relay t)
  have "\<exists>t' \<in> set ((wd_tasks w)[i := t]). holds_chain c t'" if "chain_probe (ry_breaker relay) c" for c
    using task_drop_probes(1) [OF drop(3) that] assms(2) held_after_update [OF drop(2), of "holds_chain c" t]
    by (auto simp: probes_held_def)
  moreover have "\<exists>t' \<in> set ((wd_tasks w)[i := t]). holds_signing t'" if "signing_probe (ry_signing_breaker relay)"
    using task_drop_probes(2) [OF drop(3) that] assms(2) held_after_update [OF drop(2), of holds_signing t]
    by (auto simp: probes_held_def)
  ultimately show ?thesis by (simp add: probes_held_def drop(1))
qed (use assms(2) in \<open>auto simp: probes_held_def relay_new_def chain_breaker_new_def chain_probe_def signing_probe_def
    entry_or_default_def default_policy_def signing_breaker_new_def\<close>)

lemma probes_held_reachable:
  "world_steps sha256 ops (world_new policy store threshold cooldown_ms) w \<Longrightarrow> probes_held w"
proof (induction rule: rtranclp_induct)
  case base
  show ?case by (simp add: world_new_def probes_held_def relay_new_def chain_breaker_new_def chain_probe_def
      signing_probe_def entry_or_default_def default_policy_def signing_breaker_new_def)
qed (rule probes_held_step)

definition task_finished :: "task \<Rightarrow> bool" where
  "task_finished t =
     (case t of
        Execute _ pt \<Rightarrow> (case pt of EP_Done _ \<Rightarrow> True | EP_Dropped \<Rightarrow> True | _ \<Rightarrow> False)
      | Reconcile _ _ pt \<Rightarrow> (case pt of RP_Done _ \<Rightarrow> True | RP_Dropped \<Rightarrow> True | _ \<Rightarrow> False))"

lemma finished_holds_nothing: "task_finished t \<Longrightarrow> \<not> holds_chain c t \<and> \<not> holds_signing t"
  by (cases t; cases "case t of Execute _ pt \<Rightarrow> pt | _ \<Rightarrow> EP_Dropped") (auto simp: task_finished_def holds_chain_def
      holds_signing_def holds_chain_probe_def holds_signing_probe_def)

section \<open>What is submitted was bound\<close>

text \<open>
  Signing requests are traced back to where they were bound: a call for \<open>input\<close> stood before the binding with
  a payload, while the relay had a policy engine.
\<close>

type_synonym binds = "relay_input \<Rightarrow> policy_engine \<Rightarrow> signed_payload \<Rightarrow> bool"

definition bound_in :: "hash \<Rightarrow> 's store_ops \<Rightarrow> 's world \<Rightarrow> 's world \<Rightarrow> binds" where
  "bound_in sha256 ops w0 w input policy payload \<longleftrightarrow>
     (\<exists>w1. world_steps sha256 ops w0 w1 \<and> world_steps sha256 ops w1 w \<and>
        Execute input (EP_Bind payload) \<in> set (wd_tasks w1) \<and> ry_policy (wd_relay w1) = policy)"

definition signed_for :: "hash \<Rightarrow> binds \<Rightarrow> relay_input \<Rightarrow> signing_request \<Rightarrow> bool" where
  "signed_for sha256 H input s \<longleftrightarrow>
     (\<exists>policy payload. H input policy payload \<and>
        signing_bind sha256 policy (ri_approved input) (ri_prepared input) (ri_intent input)
          (ri_route input) (ri_preview input) (sy_digest payload) (ri_now_ms input) = Inr s)"

definition bound_for :: "hash \<Rightarrow> binds \<Rightarrow> relay_input \<Rightarrow> submit_request \<Rightarrow> bool" where
  "bound_for sha256 H input request \<longleftrightarrow>
     (\<exists>s sref payload. signed_for sha256 H input s \<and> payload_ok sha256 (Inr payload) \<and>
        submit_bind s sref payload (ti_chain (ri_intent input)) = Inr request)"

definition point_bound :: "hash \<Rightarrow> binds \<Rightarrow> relay_input \<Rightarrow> exec_point \<Rightarrow> bool" where
  "point_bound sha256 H input pt =
     (case pt of
        EP_Reserve s \<Rightarrow> signed_for sha256 H input s
      | EP_SignRequested s \<Rightarrow> signed_for sha256 H input s
      | EP_AdmitSigning s \<Rightarrow> signed_for sha256 H input s
      | EP_Sign s _ \<Rightarrow> signed_for sha256 H input s
      | EP_Signing s _ \<Rightarrow> signed_for sha256 H input s
      | EP_SignResolve s _ _ \<Rightarrow> signed_for sha256 H input s
      | EP_RecordSigned s _ \<Rightarrow> signed_for sha256 H input s
      | EP_SignedPayload s _ \<Rightarrow> signed_for sha256 H input s
      | EP_Journal _ request \<Rightarrow> bound_for sha256 H input request
      | EP_RecordSubmission _ request \<Rightarrow> bound_for sha256 H input request
      | EP_AdmitSubmit _ request \<Rightarrow> bound_for sha256 H input request
      | EP_Submit _ request _ \<Rightarrow> bound_for sha256 H input request
      | _ \<Rightarrow> True)"

definition call_bound :: "hash \<Rightarrow> binds \<Rightarrow> relay_input \<Rightarrow> relay_call \<Rightarrow> bool" where
  "call_bound sha256 H input c =
     (case c of CL_Sign s \<Rightarrow> signed_for sha256 H input s | CL_Submit request \<Rightarrow> bound_for sha256 H input request)"

lemma signed_forI:
  "H input policy payload \<Longrightarrow> signing_bind sha256 policy (ri_approved input) (ri_prepared input) (ri_intent input)
     (ri_route input) (ri_preview input) (sy_digest payload) (ri_now_ms input) = Inr s \<Longrightarrow> signed_for sha256 H input s"
  by (auto simp: signed_for_def)

lemma bound_forI:
  "signed_for sha256 H input s \<Longrightarrow> payload_ok sha256 (Inr payload) \<Longrightarrow>
     submit_bind s sref payload (ti_chain (ri_intent input)) = Inr request \<Longrightarrow> bound_for sha256 H input request"
  by (auto simp: bound_for_def)

lemma bound_mono:
  assumes "\<And>input policy payload. H input policy payload \<Longrightarrow> H' input policy payload"
  shows "signed_for sha256 H input s \<Longrightarrow> signed_for sha256 H' input s"
    and "bound_for sha256 H input request \<Longrightarrow> bound_for sha256 H' input request"
    and "point_bound sha256 H input pt \<Longrightarrow> point_bound sha256 H' input pt"
    and "call_bound sha256 H input c \<Longrightarrow> call_bound sha256 H' input c"
proof -
  show s: "signed_for sha256 H input s \<Longrightarrow> signed_for sha256 H' input s" for s
    unfolding signed_for_def using assms by blast
  then show b: "bound_for sha256 H input request \<Longrightarrow> bound_for sha256 H' input request" for request
    by (auto simp: bound_for_def)
  show "point_bound sha256 H input pt \<Longrightarrow> point_bound sha256 H' input pt"
    using s b by (cases pt) (auto simp: point_bound_def)
  show "call_bound sha256 H input c \<Longrightarrow> call_bound sha256 H' input c"
    using s b by (cases c) (auto simp: call_bound_def)
qed

lemma exec_step_bound:
  assumes "exec_step sha256 ops ans input relay pt = (relay', pt')" and "answers_ok sha256 ans"
    and "point_bound sha256 H input pt" and "\<And>payload. pt = EP_Bind payload \<Longrightarrow> H input (ry_policy relay) payload"
  shows "point_bound sha256 H input pt'"
proof (cases pt)
  case (EP_Bind payload)
  with assms show ?thesis by (auto simp: exec_step_def step_bind_def point_bound_def intro: signed_forI split: sum.splits)
next
  case (EP_SignedPayload s sref)
  with assms show ?thesis
    by (auto simp: exec_step_def step_signed_payload_def point_bound_def answers_ok_def intro: bound_forI split: sum.splits)
qed (use assms in \<open>auto simp: exec_step_def step_start_def step_observe_def step_check_allowed_def step_payload_def
    step_reserve_def step_sign_requested_def step_admit_signing_def step_sign_resolve_def step_record_signed_def
    step_record_submission_def step_admit_submit_def step_submit_resolve_def step_journal_reference_def Let_def point_bound_def
    split: if_splits sum.splits option.splits prod.splits reservation.splits\<close>)

lemma calls_at_bound: "point_bound sha256 H input pt \<Longrightarrow> c \<in> set (calls_at pt) \<Longrightarrow> call_bound sha256 H input c"
  by (cases pt) (auto simp: point_bound_def calls_at_def call_bound_def)

definition task_bound :: "hash \<Rightarrow> binds \<Rightarrow> task \<Rightarrow> bool" where
  "task_bound sha256 H t = (case t of Execute input pt \<Rightarrow> point_bound sha256 H input pt | Reconcile _ _ _ \<Rightarrow> True)"

definition world_bound :: "hash \<Rightarrow> binds \<Rightarrow> 's world \<Rightarrow> bool" where
  "world_bound sha256 H w \<longleftrightarrow> (\<forall>t \<in> set (wd_tasks w). task_bound sha256 H t) \<and>
     (\<forall>(input, c) \<in> set (wd_trace w). call_bound sha256 H input c)"

lemma world_bound_mono:
  assumes "world_bound sha256 H w" and "\<And>input policy payload. H input policy payload \<Longrightarrow> H' input policy payload"
  shows "world_bound sha256 H' w"
  using assms(1) bound_mono(3,4) [of H H'] assms(2) unfolding world_bound_def task_bound_def
  by (fastforce split: task.splits)

lemma task_step_bound:
  assumes "task_step sha256 ops ans relay t = (relay', t')" and "answers_ok sha256 ans" and "task_bound sha256 H t"
    and "\<And>input payload. t = Execute input (EP_Bind payload) \<Longrightarrow> H input (ry_policy relay) payload"
  shows "task_bound sha256 H t'"
  using assms by (cases rule: task_step_cases [OF assms(1)]) (auto simp: task_bound_def intro: exec_step_bound)

lemma task_drop_bound: "task_drop relay t = (relay', t') \<Longrightarrow> task_bound sha256 H t \<Longrightarrow> task_bound sha256 H t'"
  by (cases t) (auto simp: task_drop_def exec_drop_def task_bound_def point_bound_def [of _ _ _ EP_Dropped] split: if_splits)

lemma world_bound_step:
  assumes "world_step sha256 ops w w'" and "world_bound sha256 H w"
    and "\<And>input payload. Execute input (EP_Bind payload) \<in> set (wd_tasks w) \<Longrightarrow> H input (ry_policy (wd_relay w)) payload"
  shows "world_bound sha256 H w'"
  using assms(1)
proof cases
  case (spawn t)
  then have "task_bound sha256 H t" by (cases t) (auto simp: task_starts_def task_bound_def point_bound_def)
  with spawn assms(2) show ?thesis by (simp add: world_bound_def)
next
  case (run i ans relay t)
  have b: "task_bound sha256 H (wd_tasks w ! i)" using assms(2) run(2) by (simp add: world_bound_def)
  have h: "H input (ry_policy (wd_relay w)) payload" if "wd_tasks w ! i = Execute input (EP_Bind payload)" for input payload
    using assms(3) run(2) that nth_mem by metis
  from b have "call_bound sha256 H input c" if "(input, c) \<in> set (task_calls (wd_tasks w ! i))" for input c
    using that by (auto simp: task_calls_def task_bound_def intro: calls_at_bound split: task.splits)
  with run assms(2) task_step_bound [OF run(4,3) b h] show ?thesis
    by (auto simp: world_bound_def dest!: set_update_subset_insert [THEN subsetD])
next
  case (drop i relay t)
  have "task_bound sha256 H (wd_tasks w ! i)" using assms(2) drop(2) by (simp add: world_bound_def)
  with drop assms(2) task_drop_bound [OF drop(3)] show ?thesis
    by (auto simp: world_bound_def dest!: set_update_subset_insert [THEN subsetD])
qed (use assms(2) in \<open>auto simp: world_bound_def\<close>)

lemma world_bound_reachable:
  "world_steps sha256 ops (world_new policy store threshold cooldown_ms) w \<Longrightarrow>
     world_bound sha256 (bound_in sha256 ops (world_new policy store threshold cooldown_ms) w) w"
proof (induction rule: rtranclp_induct)
  case base
  show ?case by (simp add: world_new_def world_bound_def)
next
  case (step w w')
  let ?H = "bound_in sha256 ops (world_new policy store threshold cooldown_ms)"
  have later: "?H w' input policy payload" if "?H w input policy payload" for input policy payload
    using that step(2) by (auto simp: bound_in_def intro: rtranclp.rtrancl_into_rtrancl)
  show ?case
  proof (rule world_bound_step [OF step(2)])
    show "world_bound sha256 (?H w') w" using step(3) later by (rule world_bound_mono)
    show "?H w' input (ry_policy (wd_relay w)) payload" if "Execute input (EP_Bind payload) \<in> set (wd_tasks w)"
      for input payload using that step(1,2) by (auto simp: bound_in_def)
  qed
qed

lemma signing_bind_preview_sound:
  assumes "signing_bind sha256 policy ap px i route pv pd now_ms = Inr req"
  shows "preview_sound pv i"
proof -
  have "preview_validate pv i route now_ms = Inr pv" by (rule signing_bind_Inr [OF assms])
  then show ?thesis using preview_soundI [of pv i] by (auto simp: preview_validate_def bindR_Inr_iff)
qed

lemma bound_request_fields:
  assumes "bound_request sha256 ap px i pv pd route = Inr s"
  shows "sr_intent_id s = ti_id i" and "sr_idempotency_key s = ti_idempotency_key i" and "sr_chain s = ti_chain i"
    and "sr_payload_digest s = pd"
  using assms by (auto simp: bound_request_def result_iff)

lemma bound_for_facts:
  assumes "bound_for sha256 H input request"
  shows "preview_sound (ri_preview input) (ri_intent input)"
    and "sb_chain request = ti_chain (ri_intent input)" and "sb_intent_id request = ti_id (ri_intent input)"
    and "sb_idempotency_key request = ti_idempotency_key (ri_intent input)"
    and "sb_payload request \<noteq> []" and "length (sb_payload request) \<le> MAX_SIGNED_PAYLOAD_BYTES"
    and "\<exists>policy payload s. H input policy payload \<and> is_trading_enabled policy \<and>
      sy_digest payload = sha256 (sb_payload request) \<and>
      signing_bind sha256 policy (ri_approved input) (ri_prepared input) (ri_intent input) (ri_route input)
        (ri_preview input) (sha256 (sb_payload request)) (ri_now_ms input) = Inr s \<and>
      sb_request_digest request = sr_request_digest s"
proof -
  from assms obtain policy prepared s sref payload where h: "H input policy prepared" and
    b: "signing_bind sha256 policy (ri_approved input) (ri_prepared input) (ri_intent input) (ri_route input)
        (ri_preview input) (sy_digest prepared) (ri_now_ms input) = Inr s"
    and p: "payload_ok sha256 (Inr payload)" and q: "submit_bind s sref payload (ti_chain (ri_intent input)) = Inr request"
    by (auto simp: bound_for_def signed_for_def)
  note f = signing_bind_Inr(1) [OF b] and fields = bound_request_fields [OF signing_bind_Inr(4) [OF b]]
  from p have d: "sha256 (sy_bytes payload) = sy_digest payload"
    by (cases payload) (auto simp: payload_ok_def signed_payload_new_def split: if_splits)
  from q d fields have r: "sb_chain request = ti_chain (ri_intent input)" "sb_intent_id request = ti_id (ri_intent input)"
    "sb_idempotency_key request = ti_idempotency_key (ri_intent input)" "sb_payload request \<noteq> []"
    "length (sb_payload request) \<le> MAX_SIGNED_PAYLOAD_BYTES" "sha256 (sb_payload request) = sy_digest prepared"
    "sb_request_digest request = sr_request_digest s"
    by (auto simp: submit_bind_def split: if_splits)
  then show "sb_chain request = ti_chain (ri_intent input)" "sb_intent_id request = ti_id (ri_intent input)"
    "sb_idempotency_key request = ti_idempotency_key (ri_intent input)" "sb_payload request \<noteq> []"
    "length (sb_payload request) \<le> MAX_SIGNED_PAYLOAD_BYTES" by blast+
  show "preview_sound (ri_preview input) (ri_intent input)" by (rule signing_bind_preview_sound [OF b])
  show "\<exists>policy payload s. H input policy payload \<and> is_trading_enabled policy \<and>
      sy_digest payload = sha256 (sb_payload request) \<and>
      signing_bind sha256 policy (ri_approved input) (ri_prepared input) (ri_intent input) (ri_route input)
        (ri_preview input) (sha256 (sb_payload request)) (ri_now_ms input) = Inr s \<and>
      sb_request_digest request = sr_request_digest s"
    using h b f r by (metis (no_types, lifting))
qed

section \<open>What was submitted can be reconciled\<close>

text \<open>A task that has recorded its submission and has not submitted it yet.\<close>

definition awaits_submit :: "task \<Rightarrow> relay_input \<Rightarrow> submit_request \<Rightarrow> bool" where
  "awaits_submit t input request \<longleftrightarrow>
     (\<exists>s. t = Execute input (EP_AdmitSubmit s request)) \<or> (\<exists>s c. t = Execute input (EP_Submit s request c))"

lemma awaits_submit_ticket: "awaits_submit t input request \<Longrightarrow> task_ticket Chain (attempt_key input) t = 1"
  by (auto simp: awaits_submit_def task_ticket_def ticket_def)

lemma calls_at_submit: "CL_Submit request \<in> set (calls_at pt) \<Longrightarrow> \<exists>s c. pt = EP_Submit s request c"
  by (cases pt) (auto simp: calls_at_def)

lemma task_calls_awaits: "(input, CL_Submit request) \<in> set (task_calls t) \<Longrightarrow> awaits_submit t input request"
  by (cases t) (auto simp: task_calls_def awaits_submit_def dest: calls_at_submit)

lemma two_elements_le_sum_list:
  fixes f :: "'b \<Rightarrow> nat"
  assumes "i < length xs" and "j < length xs" and "i \<noteq> j"
  shows "f (xs ! i) + f (xs ! j) \<le> sum_list (map f xs)"
proof -
  have "f (xs ! i) + f (xs ! j) = (\<Sum>m \<in> {i, j}. f (xs ! m))" using assms(3) by simp
  also have "\<dots> \<le> (\<Sum>m \<in> {0..<length xs}. f (xs ! m))" using assms by (intro sum_mono2) auto
  finally show ?thesis by (simp add: sum_list_sum_nth)
qed

lemma calls_for_pos: "(input, CL_Submit request) \<in> set trace \<Longrightarrow> 1 \<le> calls_for Chain (attempt_key input) trace"
  by (induction trace) (auto simp: calls_for_def kind_of_def)

lemma keeps_submission_trans:
  "keeps_submission x y \<Longrightarrow> x = Some s \<Longrightarrow> same_submission s0 s \<Longrightarrow> \<exists>s'. y = Some s' \<and> same_submission s0 s'"
  by (auto simp: keeps_submission_def same_submission_def)

context durable_attempts
begin

text \<open>The store can answer for a request: by its terminal outcome or by its submission.\<close>

definition answers_for :: "'a \<Rightarrow> durable_key \<Rightarrow> submit_request \<Rightarrow> bool" where
  "answers_for st k request \<longleftrightarrow> (\<exists>r. outcome_of st k = Some r \<and> terminal_outcome r) \<or>
     (\<exists>s s'. submission_from_request sha256 request = Inr s \<and> submission_of st k = Some s' \<and> same_submission s s')"

lemma answers_for_keep:
  assumes "answers_for st k request" and "keeps_submission (submission_of st k) (submission_of st' k)"
    and "\<And>r. outcome_of st k = Some r \<Longrightarrow> terminal_outcome r \<Longrightarrow> outcome_of st' k = Some r"
  shows "answers_for st' k request"
  using assms keeps_submission_trans [OF assms(2)] unfolding answers_for_def by blast

lemma exec_step_answers:
  assumes e: "exec_step sha256 ops ans input relay pt = (relay', pt')" and inv: "inv (ry_store relay)"
    and a: "answers_for (ry_store relay) k request" and n: "\<And>s q. pt = EP_RecordSubmission s q \<Longrightarrow> attempt_key input \<noteq> k"
  shows "answers_for (ry_store relay') k request"
proof (rule answers_for_keep [OF a])
  show "keeps_submission (submission_of (ry_store relay) k) (submission_of (ry_store relay') k)"
    using e
  proof (cases rule: exec_step_op)
    case (submission s q u)
    then have "k \<noteq> key_from_binding (input_binding input)" using n by (auto simp: attempt_key_def)
    then show ?thesis by (rule other_submission [OF submission(2)])
  qed (simp_all add: reserve_submission sign_requested_submission signed_submission outcome_submission)
qed (rule exec_step_store(4) [OF e inv])

lemma rec_step_answers:
  assumes r: "rec_step sha256 ops ans b relay pt = (relay', pt')" and inv: "inv (ry_store relay)"
    and a: "answers_for (ry_store relay) k request"
  shows "answers_for (ry_store relay') k request"
proof (rule answers_for_keep [OF a])
  show "keeps_submission (submission_of (ry_store relay) k) (submission_of (ry_store relay') k)"
    using r by (rule rec_step_op) (simp_all add: outcome_submission)
qed (rule rec_step_store(3) [OF r inv])

text \<open>A task arrives at the submit only after the store has taken the submission.\<close>

lemma exec_step_records:
  assumes e: "exec_step sha256 ops ans input relay pt = (relay', pt')" and inv: "inv (ry_store relay)"
    and p: "awaits_submit (Execute input pt') input request"
  shows "awaits_submit (Execute input pt) input request \<or> answers_for (ry_store relay') (attempt_key input) request"
proof -
  have "awaits_submit (Execute input pt) input request \<or>
      (\<exists>s. pt = EP_RecordSubmission s request \<and> pt' = EP_AdmitSubmit s request)"
    using e p by (cases pt) (auto simp: awaits_submit_def exec_step_def exec_steps
        split: if_splits sum.splits option.splits prod.splits reservation.splits)
  then show ?thesis
  proof (elim disjE exE conjE)
    fix s assume pt: "pt = EP_RecordSubmission s request" "pt' = EP_AdmitSubmit s request"
    from e pt have "op_record_submission ops (ry_store relay) (input_binding input) (sr_request_digest s) request =
        (ry_store relay', Inr ())"
      by (auto simp: exec_step_def step_record_submission_def split: prod.splits sum.splits)
    from submission_stored [OF inv this] show ?thesis
    proof
      assume "\<exists>old. outcome_of (ry_store relay) (key_from_binding (input_binding input)) = Some old \<and> terminal_outcome old"
      then show ?thesis using exec_step_store(4) [OF e inv, of "attempt_key input"]
        by (auto simp: answers_for_def attempt_key_def)
    qed (auto simp: answers_for_def attempt_key_def)
  qed simp
qed

definition recover_inv :: "'a world \<Rightarrow> bool" where
  "recover_inv w \<longleftrightarrow> inv (wd_store w) \<and> (\<forall>k. weight Chain k w \<le> of_bool (claimed (wd_store w) k)) \<and>
     (\<forall>input request. (input, CL_Submit request) \<in> set (wd_trace w) \<longrightarrow>
        answers_for (wd_store w) (attempt_key input) request) \<and>
     (\<forall>t \<in> set (wd_tasks w). \<forall>input request. awaits_submit t input request \<longrightarrow>
        answers_for (wd_store w) (attempt_key input) request)"

text \<open>
  A task that is about to record a submission holds the one ticket of its identity, so nothing was
  submitted for it and no other task awaits to.
\<close>

lemma recorder_is_alone:
  assumes "recover_inv w" and i: "i < length (wd_tasks w)"
    and t: "wd_tasks w ! i = Execute input (EP_RecordSubmission s q)"
  shows "(input', CL_Submit request) \<in> set (wd_trace w) \<Longrightarrow> attempt_key input' \<noteq> attempt_key input"
    and "j < length (wd_tasks w) \<Longrightarrow> awaits_submit (wd_tasks w ! j) input' request \<Longrightarrow> attempt_key input' \<noteq> attempt_key input"
proof -
  let ?k = "attempt_key input" and ?f = "task_ticket Chain (attempt_key input)"
  have "weight Chain ?k w \<le> of_bool (claimed (wd_store w) ?k)" using assms(1) by (simp add: recover_inv_def)
  then have w: "weight Chain ?k w \<le> 1" by (cases "claimed (wd_store w) ?k") simp_all
  have f: "?f (wd_tasks w ! i) = 1" by (simp add: t task_ticket_def ticket_def)
  then have s: "1 \<le> sum_list (map ?f (wd_tasks w))" using i elem_le_sum_list [of i "map ?f (wd_tasks w)"] by simp
  show "attempt_key input' \<noteq> ?k" if "(input', CL_Submit request) \<in> set (wd_trace w)"
    using calls_for_pos [OF that] s w by (auto simp: weight_def)
  show "attempt_key input' \<noteq> ?k" if j: "j < length (wd_tasks w)" and a: "awaits_submit (wd_tasks w ! j) input' request"
  proof
    assume k: "attempt_key input' = ?k"
    have "i \<noteq> j" using a t by (auto simp: awaits_submit_def)
    from two_elements_le_sum_list [OF i j this, of ?f] awaits_submit_ticket [OF a] f k w show False
      by (simp add: weight_def)
  qed
qed

lemma recover_inv_run:
  assumes r: "recover_inv w" and i: "i < length (wd_tasks w)"
    and s: "task_step sha256 ops ans (wd_relay w) (wd_tasks w ! i) = (relay, t)"
  shows "(input, CL_Submit request) \<in> set (wd_trace w @ task_calls (wd_tasks w ! i)) \<Longrightarrow>
      answers_for (ry_store relay) (attempt_key input) request"
    and "t' \<in> set ((wd_tasks w)[i := t]) \<Longrightarrow> awaits_submit t' input request \<Longrightarrow>
      answers_for (ry_store relay) (attempt_key input) request"
proof -
  have inv: "inv (wd_store w)" using r by (simp add: recover_inv_def)
  have keep: "answers_for (ry_store relay) (attempt_key input') request'"
    if a: "answers_for (wd_store w) (attempt_key input') request'"
      and d: "(input', CL_Submit request') \<in> set (wd_trace w) \<or>
        (\<exists>j < length (wd_tasks w). awaits_submit (wd_tasks w ! j) input' request')" for input' request'
    using s
  proof (cases rule: task_step_cases)
    case (Execute inp pt pt')
    show ?thesis
      by (rule exec_step_answers [OF Execute(3) inv a])
        (use recorder_is_alone [OF r i] Execute(1) d in \<open>metis\<close>)
  qed (rule rec_step_answers [OF _ inv a])
  have old: "answers_for (ry_store relay) (attempt_key input') request'"
    if "j < length (wd_tasks w)" "awaits_submit (wd_tasks w ! j) input' request'" for j input' request'
  proof (rule keep)
    show "answers_for (wd_store w) (attempt_key input') request'"
      using r that(2) nth_mem [OF that(1)] unfolding recover_inv_def by blast
  qed (use that in blast)
  show "answers_for (ry_store relay) (attempt_key input) request"
    if "(input, CL_Submit request) \<in> set (wd_trace w @ task_calls (wd_tasks w ! i))"
  proof (cases "(input, CL_Submit request) \<in> set (wd_trace w)")
    case True
    then show ?thesis using r by (intro keep) (auto simp: recover_inv_def)
  next
    case False
    then have "awaits_submit (wd_tasks w ! i) input request"
      using that by (simp add: task_calls_awaits)
    then show ?thesis by (rule old [OF i])
  qed
  show "answers_for (ry_store relay) (attempt_key input) request"
    if t': "t' \<in> set ((wd_tasks w)[i := t])" "awaits_submit t' input request"
  proof (cases "t' \<in> set (wd_tasks w)")
    case True
    then show ?thesis using old t'(2) by (auto simp: in_set_conv_nth)
  next
    case False
    then have [simp]: "t' = t" using t'(1) set_update_subset_insert [of "wd_tasks w" i t] by auto
    from s show ?thesis
    proof (cases rule: task_step_cases)
      case (Execute inp pt pt')
      then have "input = inp" using t'(2) by (auto simp: awaits_submit_def)
      with Execute t'(2) exec_step_records [OF Execute(3) inv, of request] old [OF i] show ?thesis by auto
    qed (use t'(2) in \<open>auto simp: awaits_submit_def\<close>)
  qed
qed

lemma recover_inv_step:
  assumes "world_step sha256 ops w w'" and r: "recover_inv w"
  shows "recover_inv w'"
proof -
  have inv: "inv (wd_store w)" using r by (simp add: recover_inv_def)
  have w: "weight Chain k w' \<le> of_bool (claimed (wd_store w') k)" for k
    using world_step_weight [OF assms(1) inv, of Chain k] r by (auto simp: recover_inv_def dest!: spec [of _ k])
  have "(\<forall>input request. (input, CL_Submit request) \<in> set (wd_trace w') \<longrightarrow>
        answers_for (wd_store w') (attempt_key input) request) \<and>
     (\<forall>t \<in> set (wd_tasks w'). \<forall>input request. awaits_submit t input request \<longrightarrow>
        answers_for (wd_store w') (attempt_key input) request)"
    using assms(1)
  proof cases
    case (spawn t)
    then have "\<not> awaits_submit t input request" for input request by (auto simp: task_starts_def awaits_submit_def)
    with spawn r show ?thesis by (auto simp: recover_inv_def)
  next
    case (run i ans relay t)
    with recover_inv_run [OF r run(2,4)] show ?thesis by simp
  next
    case (drop i relay t)
    have "awaits_submit (wd_tasks w ! i) input request" if "awaits_submit t input request" for input request
      using drop(3) that by (cases "wd_tasks w ! i") (auto simp: task_drop_def exec_drop_def is_done_iff awaits_submit_def split: if_splits)
    then have "awaits_submit t' input request \<Longrightarrow> t' \<in> set ((wd_tasks w)[i := t]) \<Longrightarrow>
        answers_for (wd_store w) (attempt_key input) request" for t' input request
      using r nth_mem [OF drop(2)] set_update_subset_insert [of "wd_tasks w" i t] unfolding recover_inv_def by blast
    with drop r task_drop_store [OF drop(3)] show ?thesis by (auto simp: recover_inv_def)
  qed (use r in \<open>auto simp: recover_inv_def relay_new_def\<close>)
  with w world_step_store(2) [OF assms(1) inv] show ?thesis by (simp add: recover_inv_def)
qed

lemma recover_inv_reachable:
  assumes "world_steps sha256 ops (world_new policy store threshold cooldown_ms) w" and "inv store"
  shows "recover_inv w"
  using assms(1)
proof (induction rule: rtranclp_induct)
  case base
  from assms(2) show ?case
    by (simp add: recover_inv_def world_new_def relay_new_def weight_def calls_for_def)
qed (rule recover_inv_step)

text \<open>Reconciling a submitted attempt finds its terminal outcome or queries the chain for the very request.\<close>

lemma submitted_is_found:
  assumes "world_steps sha256 ops (world_new policy store threshold cooldown_ms) w" and "inv store"
    and "(input, CL_Submit request) \<in> set (wd_trace w)"
  shows "(\<exists>r. step_load_outcome ops (input_binding input) (wd_relay w) = RP_Done (Inr r) \<and> terminal_outcome r) \<or>
    (\<exists>reference. step_load_submission sha256 ops (input_binding input) (wd_relay w) =
       RP_Query (request\<lparr>sb_chain_reference := reference\<rparr>))"
proof -
  have "answers_for (wd_store w) (attempt_key input) request"
    using recover_inv_reachable [OF assms(1,2)] assms(3) unfolding recover_inv_def by blast
  then show ?thesis
    unfolding answers_for_def
  proof (elim disjE exE conjE)
    fix s s' assume s: "submission_from_request sha256 request = Inr s" "same_submission s s'"
      "submission_of (wd_store w) (attempt_key input) = Some s'"
    from same_submission_restores [OF submission_restores [OF s(1)] s(2)] s(3) show ?thesis
      by (auto simp: step_load_submission_def load_submission attempt_key_def)
  qed (auto simp: step_load_outcome_def load_outcome attempt_key_def)
qed

end

end
