(* ===== verification/Relay_Claims.thy ===== *)
theory Relay_Claims
  imports Relay_Runs
begin

text \<open>
  The guarantees of the relay over its durable store, with a sample run that witnesses them.
\<close>

section \<open>A sample run\<close>

text \<open>The first task runs alone, with the same answers at every step.\<close>

fun drive :: "hash \<Rightarrow> 's store_ops \<Rightarrow> relay_answers \<Rightarrow> nat \<Rightarrow> 's world \<Rightarrow> 's world" where
  "drive sha256 ops ans 0 w = w"
| "drive sha256 ops ans (Suc n) w =
     (case task_step sha256 ops ans (wd_relay w) (wd_tasks w ! 0) of (relay, t) \<Rightarrow>
        drive sha256 ops ans n
          \<lparr>wd_relay = relay, wd_tasks = (wd_tasks w)[0 := t], wd_trace = wd_trace w @ task_calls (wd_tasks w ! 0)\<rparr>)"

lemma drive_numeral:
  "drive sha256 ops ans (numeral n) w =
     (case task_step sha256 ops ans (wd_relay w) (wd_tasks w ! 0) of (relay, t) \<Rightarrow>
        drive sha256 ops ans (pred_numeral n)
          \<lparr>wd_relay = relay, wd_tasks = (wd_tasks w)[0 := t], wd_trace = wd_trace w @ task_calls (wd_tasks w ! 0)\<rparr>)"
  by (simp add: numeral_eq_Suc)

lemma drive_steps: "answers_ok sha256 ans \<Longrightarrow> wd_tasks w \<noteq> [] \<Longrightarrow> world_steps sha256 ops w (drive sha256 ops ans n w)"
proof (induction n arbitrary: w)
  case (Suc n)
  obtain relay t where s: "task_step sha256 ops ans (wd_relay w) (wd_tasks w ! 0) = (relay, t)" by fastforce
  let ?w = "\<lparr>wd_relay = relay, wd_tasks = (wd_tasks w)[0 := t], wd_trace = wd_trace w @ task_calls (wd_tasks w ! 0)\<rparr>"
  have "world_step sha256 ops w ?w" by (rule world_step.run [OF _ Suc.prems(1) s]) (use Suc.prems(2) in simp)
  moreover have "world_steps sha256 ops ?w (drive sha256 ops ans n ?w)" by (rule Suc.IH) (use Suc.prems in simp_all)
  ultimately show ?case by (simp add: s converse_rtranclp_into_rtranclp)
qed simp

definition sample_call :: relay_input where
  "sample_call = \<lparr>ri_intent = sample_trade ''k'',
     ri_policy_context = \<lparr>pc_now_ms = 1400, pc_trade_usd = 100,
       pc_turnover = \<lparr>tu_hourly_used_usd = 0, tu_daily_used_usd = 0\<rparr>, pc_venue = None\<rparr>,
     ri_prepared = sample_prepared ''k'', ri_approved = sample_approval ''k'', ri_route = sample_route,
     ri_preview = sample_preview, ri_now_ms = 1500\<rparr>"

definition sample_answers :: "signing_request \<Rightarrow> relay_answers" where
  "sample_answers request = \<lparr>an_health = BH_Healthy,
     an_payload_to_sign = Inr \<lparr>sy_bytes = [7], sy_digest = sample_hash [7]\<rparr>,
     an_sign = Inr \<lparr>se_reference = ''s'', se_request_digest = sr_request_digest request,
       se_intent_id = sr_intent_id request, se_idempotency_key = sr_idempotency_key request\<rparr>,
     an_signed_payload = Inr \<lparr>sy_bytes = [7], sy_digest = sample_hash [7]\<rparr>,
     an_submit = Inr ''tx'', an_query = Inr CO_Pending, an_reconcile = Inr CO_Unknown\<rparr>"

definition sample_world :: "durable_store world" where
  "sample_world = world_new sample_engine [] 1 0"

definition sample_started :: "durable_store world" where
  "sample_started = sample_world\<lparr>wd_tasks := [Execute sample_call EP_Start]\<rparr>"

lemma sample_answers_ok: "answers_ok sample_hash (sample_answers request)"
  by (simp add: answers_ok_def payload_ok_def sample_answers_def signed_payload_new_def MAX_SIGNED_PAYLOAD_BYTES_def)

lemma sample_start: "world_steps sample_hash (durable_ops sample_hash) sample_world sample_started"
proof -
  have "world_step sample_hash (durable_ops sample_hash) sample_world
      (sample_world\<lparr>wd_tasks := wd_tasks sample_world @ [Execute sample_call EP_Start]\<rparr>)"
    by (rule world_step.spawn) (simp add: task_starts_def)
  then show ?thesis by (simp add: sample_started_def sample_world_def world_new_def r_into_rtranclp)
qed

lemma sample_run:
  assumes "sample_bind ''k'' = Inr request"
  shows "world_steps sample_hash (durable_ops sample_hash) sample_world
    (drive sample_hash (durable_ops sample_hash) (sample_answers request) n sample_started)"
proof -
  have "wd_tasks sample_started \<noteq> []" by (simp add: sample_started_def)
  from rtranclp_trans [OF sample_start drive_steps [OF sample_answers_ok this]] show ?thesis .
qed

definition sample_submit :: "signing_request \<Rightarrow> submit_request" where
  "sample_submit request = \<lparr>sb_intent_id = sr_intent_id request, sb_idempotency_key = sr_idempotency_key request,
     sb_chain = Base, sb_request_digest = sr_request_digest request, sb_payload_digest = sample_payload_digest,
     sb_signed_reference = ''s'', sb_chain_reference = None, sb_payload = [7]\<rparr>"

lemmas step_eval = task_step_def exec_step_def exec_steps task_calls_def calls_at_def record_outcome_def
  journal_insert_def journal_set_chain_reference_def

lemma sample_bind_fields:
  assumes "sample_bind ''k'' = Inr request"
  shows "sr_chain request = Base" and "sr_payload_digest request = sample_payload_digest"
  using bound_request_fields [OF signing_bind_Inr(4) [OF assms]] by (simp_all add: sample_request_defs)

lemma sample_to_bind:
  assumes "sample_bind ''k'' = Inr request"
  shows "drive sample_hash (durable_ops sample_hash) (sample_answers request) 5 sample_started =
    sample_started\<lparr>wd_tasks := [Execute sample_call (EP_Reserve request)]\<rparr>"
  using assms by (simp add: drive_numeral step_eval sample_started_def sample_world_def world_new_def relay_new_def
      sample_call_def sample_answers_def sample_engine_def is_trading_enabled_def chain_observe_def
      chain_check_allowed_def chain_breaker_new_def sample_payload_digest_def [symmetric])

lemma mark_digests:
  "dt_digest (mark_sign_requested p e) = dt_digest e" "dt_digest (mark_signed_reference r e) = dt_digest e"
  "dt_digest (mark_submission m e) = dt_digest e"
  by (simp_all add: mark_sign_requested_def mark_signed_reference_def mark_submission_def Let_def)

lemma sample_trade_chain: "ti_chain (sample_trade key) = Base"
  by (simp add: sample_request_defs)

lemma sample_ends:
  assumes "sample_bind ''k'' = Inr request"
  shows "wd_trace (drive sample_hash (durable_ops sample_hash) (sample_answers request) 21 sample_started) =
      [(sample_call, CL_Sign request), (sample_call, CL_Submit (sample_submit request))]"
    and "wd_tasks (drive sample_hash (durable_ops sample_hash) (sample_answers request) 21 sample_started) =
      [Execute sample_call (EP_Done (Inr (RO_Submitted ''tx'' SS_Unknown)))]"
  using assms sample_bind_fields [OF assms]
  by (simp_all add: drive_numeral step_eval sample_started_def sample_world_def world_new_def relay_new_def
      sample_call_def sample_answers_def sample_engine_def is_trading_enabled_def chain_observe_def
      chain_check_allowed_def chain_breaker_new_def sample_payload_digest_def [symmetric] durable_reserve_bound_def
      durable_record_sign_requested_def with_entry_def durable_record_signed_reference_def durable_record_submission_def
      signing_admit_probe_def entry_admit_def default_policy_def signing_breaker_new_def entry_default_def
      attests_def submit_bind_def MAX_SIGNED_PAYLOAD_BYTES_def submission_from_request_def submission_new_def
      chain_admit_probe_def entry_or_default_def ws_defs sample_submit_def sample_trade_chain
      mark_digests)

text \<open>The same call when the signer fails.\<close>

definition refused_answers :: "signing_request \<Rightarrow> relay_answers" where
  "refused_answers request = (sample_answers request)\<lparr>an_sign := Inl RE_SigningFailed\<rparr>"

lemma sample_refused:
  assumes "sample_bind ''k'' = Inr request"
  shows "durable_outcome (wd_store (drive sample_hash (durable_ops sample_hash) (refused_answers request) 12 sample_started))
    (attempt_key sample_call) = Some RO_FailedBeforeSubmit"
  using assms
  by (simp add: drive_numeral step_eval refused_answers_def sample_started_def sample_world_def world_new_def relay_new_def
      sample_call_def sample_answers_def sample_engine_def is_trading_enabled_def chain_observe_def
      chain_check_allowed_def chain_breaker_new_def sample_payload_digest_def [symmetric] durable_reserve_bound_def
      durable_record_sign_requested_def with_entry_def durable_record_outcome_def
      signing_admit_probe_def entry_admit_def default_policy_def signing_breaker_new_def entry_default_def
      mark_digests attempt_key_def durable_outcome_def mark_outcome_def mark_sign_requested_def
      status_is_terminal_def outcome_reference_def)

lemma refused_run:
  "world_steps sample_hash (durable_ops sample_hash) sample_world
    (drive sample_hash (durable_ops sample_hash) (refused_answers request) n sample_started)"
proof -
  have "wd_tasks sample_started \<noteq> []" by (simp add: sample_started_def)
  moreover have "answers_ok sample_hash (refused_answers request)"
    using sample_answers_ok [of request] by (simp add: answers_ok_def refused_answers_def)
  ultimately show ?thesis using rtranclp_trans [OF sample_start drive_steps] by blast
qed

text \<open>The same call when the chain is degraded: it takes the probe of the chain and is dropped while it submits.\<close>

definition degraded_answers :: "signing_request \<Rightarrow> relay_answers" where
  "degraded_answers request = (sample_answers request)\<lparr>an_health := BH_Degraded\<rparr>"

definition degraded_start :: "durable_store world" where
  "degraded_start = world_new sample_engine [] 2 100"

definition degraded_submitting :: "signing_request \<Rightarrow> durable_store world" where
  "degraded_submitting request =
     drive sample_hash (durable_ops sample_hash) (degraded_answers request) 17
       (degraded_start\<lparr>wd_tasks := [Execute sample_call EP_Start]\<rparr>)"

definition degraded_world :: "signing_request \<Rightarrow> durable_store world" where
  "degraded_world request =
     (case task_drop (wd_relay (degraded_submitting request)) (wd_tasks (degraded_submitting request) ! 0) of (relay, t) \<Rightarrow>
        (degraded_submitting request)\<lparr>wd_relay := relay, wd_tasks := (wd_tasks (degraded_submitting request))[0 := t]\<rparr>)"

lemma drive_tasks [simp]: "length (wd_tasks (drive sha256 ops ans n w)) = length (wd_tasks w)"
  by (induction n arbitrary: w) (simp_all split: prod.splits)

lemma degraded_run:
  "world_steps sample_hash (durable_ops sample_hash) degraded_start (degraded_world request)"
proof -
  let ?ops = "durable_ops sample_hash" and ?w = degraded_start
  have "world_step sample_hash ?ops ?w (?w\<lparr>wd_tasks := wd_tasks ?w @ [Execute sample_call EP_Start]\<rparr>)"
    by (rule world_step.spawn) (simp add: task_starts_def)
  then have start: "world_step sample_hash ?ops ?w (?w\<lparr>wd_tasks := [Execute sample_call EP_Start]\<rparr>)" 
    by (simp add: degraded_start_def world_new_def)
  have "answers_ok sample_hash (degraded_answers request)"
    using sample_answers_ok [of request] by (simp add: answers_ok_def degraded_answers_def)
  then have "world_steps sample_hash ?ops ?w (degraded_submitting request)"
    unfolding degraded_submitting_def
    by (intro converse_rtranclp_into_rtranclp [where r = "world_step sample_hash ?ops", OF start] drive_steps) simp_all
  moreover have "world_step sample_hash ?ops (degraded_submitting request) (degraded_world request)"
  proof (cases "task_drop (wd_relay (degraded_submitting request)) (wd_tasks (degraded_submitting request) ! 0)")
    case (Pair relay t)
    have "0 < length (wd_tasks (degraded_submitting request))"
      unfolding degraded_submitting_def by (simp only: drive_tasks) simp
    from world_step.drop [OF this Pair] show ?thesis by (simp add: degraded_world_def Pair)
  qed
  ultimately show ?thesis by (rule rtranclp.rtrancl_into_rtrancl)
qed

lemma healthy_default: "br_state entry_default = BH_Healthy"
  by (simp add: entry_default_def)

lemma degraded_entries:
  shows "entry_failure (breaker_config_new 2 100) entry_default 1500 =
      \<lparr>br_consecutive_failures = 1, br_state = BH_Degraded, br_cooldown_until_ms = 0, br_probe_in_flight = False\<rparr>"
    and "entry_failure (breaker_config_new 2 100)
        \<lparr>br_consecutive_failures = 1, br_state = BH_Degraded, br_cooldown_until_ms = 0, br_probe_in_flight = True\<rparr> 1500 =
      \<lparr>br_consecutive_failures = 2, br_state = BH_Unavailable, br_cooldown_until_ms = 1600, br_probe_in_flight = False\<rparr>"
  by (simp_all add: entry_failure_def breaker_config_new_def entry_default_def saturating_add_def
      saturating_add_i64_def word_le_nat_alt max_def)

lemma degraded_submits:
  assumes "sample_bind ''k'' = Inr request"
  shows "wd_tasks (degraded_submitting request) = [Execute sample_call (EP_Submitting request (sample_submit request) True)]"
    and "cb_config (ry_breaker (wd_relay (degraded_submitting request))) = breaker_config_new 2 100"
    and "entry_or_default (ry_breaker (wd_relay (degraded_submitting request))) Base =
      \<lparr>br_consecutive_failures = 1, br_state = BH_Degraded, br_cooldown_until_ms = 0, br_probe_in_flight = True\<rparr>"
  using assms sample_bind_fields [OF assms]
  by (simp_all add: drive_numeral step_eval degraded_submitting_def degraded_answers_def degraded_start_def world_new_def relay_new_def
      sample_call_def sample_answers_def sample_engine_def is_trading_enabled_def chain_observe_def chain_record_failure_def
      degraded_entries entry_allowed_def set_entry_def
      chain_check_allowed_def chain_breaker_new_def sample_payload_digest_def [symmetric] durable_reserve_bound_def
      durable_record_sign_requested_def with_entry_def durable_record_signed_reference_def durable_record_submission_def
      signing_admit_probe_def entry_admit_def default_policy_def signing_breaker_new_def healthy_default
      attests_def submit_bind_def MAX_SIGNED_PAYLOAD_BYTES_def submission_from_request_def submission_new_def
      chain_admit_probe_def entry_or_default_def ws_defs sample_submit_def sample_trade_chain mark_digests)

lemma degraded_drop:
  assumes "sample_bind ''k'' = Inr request"
  shows "entry_or_default (ry_breaker (wd_relay (degraded_world request))) Base =
      \<lparr>br_consecutive_failures = 2, br_state = BH_Unavailable, br_cooldown_until_ms = 1600, br_probe_in_flight = False\<rparr>"
    and "wd_tasks (degraded_world request) = [Execute sample_call EP_Dropped]"
  using degraded_submits [OF assms]
  by (simp_all add: degraded_world_def task_drop_def exec_drop_def is_done_def holds_chain_probe_def probe_drop_def
      sample_call_def sample_trade_chain chain_record_failure_def degraded_entries)

lemma sample_request_exists: "\<exists>request. sample_bind ''k'' = Inr request"
  by (rule sample_binds) (simp_all add: ws_defs)

lemma attempt_key_sample: "attempt_key sample_call = \<lparr>dk_owner = ''u'', dk_workspace = ''w'', dk_idempotency_key = ''k''\<rparr>"
  by (simp add: attempt_key_def key_from_binding_def input_binding_def sample_call_def sample_request_defs)

section \<open>Properties\<close>

text \<open>C2. Signing and submitting happen at most once per identity of owner, workspace and idempotency key,
  in every interleaving of executions and reconciliations, with calls dropped at any point, answers of every
  kind, the kill switch thrown at any time and any number of restarts over the same durable store.\<close>

theorem relay_calls_at_most_once:
  assumes "world_steps sha256 (durable_ops sha256) (world_new policy [] threshold cooldown_ms) w"
  shows "calls_for Signer k (wd_trace w) \<le> 1 \<and> calls_for Chain k (wd_trace w) \<le> 1"
  using durable.calls_at_most_once [OF assms] by (simp add: durable_inv_def)

theorem relay_calls_at_most_once_witness:
  "\<exists>w. world_steps sample_hash (durable_ops sample_hash) sample_world w \<and>
     calls_for Signer (attempt_key sample_call) (wd_trace w) = 1 \<and> calls_for Chain (attempt_key sample_call) (wd_trace w) = 1"
proof -
  obtain request where b: "sample_bind ''k'' = Inr request" using sample_request_exists by blast
  let ?w = "drive sample_hash (durable_ops sample_hash) (sample_answers request) 21 sample_started"
  have "calls_for kd (attempt_key sample_call) (wd_trace ?w) = 1" for kd
    unfolding sample_ends(1) [OF b] by (cases kd) (simp_all add: calls_for_def kind_of_def)
  with relay_calls_at_most_once [OF sample_run [OF b, unfolded sample_world_def]] sample_run [OF b] show ?thesis by blast
qed

text \<open>C4. A failure before submit is the truth for ever: once it is recorded for an identity, or an execution
  has returned it, nothing was submitted for that identity and nothing will be, whatever runs afterwards.\<close>

theorem relay_failed_before_submit_final:
  assumes "world_steps sha256 (durable_ops sha256) (world_new policy [] threshold cooldown_ms) w"
    and "durable_outcome (wd_store w) k = Some RO_FailedBeforeSubmit \<or>
      (\<exists>input. Execute input (EP_Done (Inr RO_FailedBeforeSubmit)) \<in> set (wd_tasks w) \<and> attempt_key input = k)"
    and "world_steps sha256 (durable_ops sha256) w w'"
  shows "calls_for Chain k (wd_trace w') = 0"
  using durable.failed_is_final [OF assms(1) _ _ assms(3)] assms(2)
  by (auto simp: durable_inv_def durable_claimed_def reports_failed_iff)

theorem relay_failed_before_submit_final_witness:
  "\<exists>w. world_steps sample_hash (durable_ops sample_hash) sample_world w \<and>
     durable_outcome (wd_store w) (attempt_key sample_call) = Some RO_FailedBeforeSubmit \<and>
     calls_for Chain (attempt_key sample_call) (wd_trace w) = 0"
proof -
  obtain request where b: "sample_bind ''k'' = Inr request" using sample_request_exists by blast
  let ?w = "drive sample_hash (durable_ops sample_hash) (refused_answers request) 12 sample_started"
  have "calls_for Chain (attempt_key sample_call) (wd_trace ?w) = 0"
    using relay_failed_before_submit_final [OF refused_run [unfolded sample_world_def] _ rtranclp.rtrancl_refl] sample_refused [OF b]
    by blast
  then show ?thesis using refused_run sample_refused [OF b] by blast
qed

text \<open>C22. A terminal outcome in the durable store never changes again, and reconciling the attempt returns it
  without asking the chain.\<close>

theorem relay_terminal_outcome_final:
  assumes "world_steps sha256 (durable_ops sha256) (world_new policy [] threshold cooldown_ms) w"
    and "durable_outcome (wd_store w) (key_from_binding b) = Some r" and "terminal_outcome r"
    and "world_steps sha256 (durable_ops sha256) w w'"
  shows "durable_outcome (wd_store w') (key_from_binding b) = Some r \<and>
    rec_step sha256 (durable_ops sha256) ans b (wd_relay w') RP_LoadOutcome = (wd_relay w', RP_Done (Inr r))"
proof -
  have "durable_inv (wd_store w)"
    using durable.world_steps_inv [OF assms(1)] by (simp add: world_new_def relay_new_def durable_inv_def)
  from durable.terminal_is_final [OF assms(4) this assms(2,3)]
  show ?thesis using assms(3)
    by (simp add: rec_step_def step_load_outcome_def durable_load_outcome_def entry_for_def durable_outcome_def)
qed

theorem relay_terminal_outcome_final_witness:
  "\<exists>w. world_steps sample_hash (durable_ops sample_hash) sample_world w \<and>
     step_load_outcome (durable_ops sample_hash) (input_binding sample_call) (wd_relay w) = RP_Done (Inr RO_FailedBeforeSubmit)"
proof -
  obtain request where b: "sample_bind ''k'' = Inr request" using sample_request_exists by blast
  let ?w = "drive sample_hash (durable_ops sample_hash) (refused_answers request) 12 sample_started"
  have "terminal_outcome RO_FailedBeforeSubmit" by (simp add: outcome_attempt_status_def status_is_terminal_def)
  from relay_terminal_outcome_final [OF refused_run [unfolded sample_world_def]
      sample_refused [OF b, unfolded attempt_key_def] this rtranclp.rtrancl_refl]
  show ?thesis using refused_run [of request 12] by (auto simp: rec_step_def)
qed

text \<open>C10. What was submitted can be reconciled after a restart: for every submitted request the durable store
  has a terminal outcome, or the submission from which reconciling rebuilds that request, up to the chain
  reference it has learnt.\<close>

theorem relay_submitted_recoverable:
  assumes "world_steps sha256 (durable_ops sha256) (world_new policy [] threshold cooldown_ms) w"
    and "(input, CL_Submit request) \<in> set (wd_trace w)"
  shows "(\<exists>r. step_load_outcome (durable_ops sha256) (input_binding input) (wd_relay w) = RP_Done (Inr r) \<and> terminal_outcome r) \<or>
    (\<exists>reference. step_load_submission sha256 (durable_ops sha256) (input_binding input) (wd_relay w) =
       RP_Query (request\<lparr>sb_chain_reference := reference\<rparr>))"
  using durable.submitted_is_found [OF assms(1) _ assms(2)] by (simp add: durable_inv_def)

theorem relay_submitted_recoverable_witness:
  "\<exists>w request. world_steps sample_hash (durable_ops sample_hash) sample_world w \<and>
     (sample_call, CL_Submit request) \<in> set (wd_trace w) \<and>
     ((\<exists>r. step_load_outcome (durable_ops sample_hash) (input_binding sample_call) (wd_relay w) = RP_Done (Inr r) \<and> terminal_outcome r) \<or>
      (\<exists>reference. step_load_submission sample_hash (durable_ops sample_hash) (input_binding sample_call) (wd_relay w) =
         RP_Query (request\<lparr>sb_chain_reference := reference\<rparr>)))"
proof -
  obtain request where b: "sample_bind ''k'' = Inr request" using sample_request_exists by blast
  have m: "(sample_call, CL_Submit (sample_submit request)) \<in>
      set (wd_trace (drive sample_hash (durable_ops sample_hash) (sample_answers request) 21 sample_started))"
    by (simp add: sample_ends [OF b])
  from relay_submitted_recoverable [OF sample_run [OF b, unfolded sample_world_def] m] m sample_run [OF b]
  show ?thesis by blast
qed

text \<open>C21. No half-open probe is stranded. In every world of every run in which no call is in flight, however the
  earlier calls ended, dropped ones included: once the cooldown of a chain is over, the relay lets a call for it pass the
  first check unless the adapter reports that the chain is unavailable, and admits it to the submission; once the
  cooldown of the signing breaker is over, it admits the call to the signer. The call takes the probe exactly
  when the breaker is not healthy.\<close>

theorem relay_probes_never_stranded:
  assumes "world_steps sha256 ops (world_new policy store threshold cooldown_ms) w"
    and "list_all task_finished (wd_tasks w)"
  shows "(br_cooldown_until_ms (entry_or_default (ry_breaker (wd_relay w)) (ti_chain (ri_intent input))) \<le> ri_now_ms input \<longrightarrow>
      (health \<noteq> BH_Unavailable \<longrightarrow> step_check_allowed input (wd_relay w) health = EP_Payload) \<and>
      (\<exists>relay probe. step_admit_submit input (wd_relay w) signing request = (relay, EP_Submit signing request probe) \<and>
        (probe \<longleftrightarrow> br_state (entry_or_default (ry_breaker (wd_relay w)) (ti_chain (ri_intent input))) \<noteq> BH_Healthy) \<and>
        (chain_probe (ry_breaker relay) (ti_chain (ri_intent input)) \<longleftrightarrow> probe))) \<and>
    (br_cooldown_until_ms (sk_inner (ry_signing_breaker (wd_relay w))) \<le> ri_now_ms input \<longrightarrow>
      (\<exists>relay probe. step_admit_signing input (wd_relay w) signing = (relay, EP_Sign signing probe) \<and>
        (probe \<longleftrightarrow> br_state (sk_inner (ry_signing_breaker (wd_relay w))) \<noteq> BH_Healthy) \<and>
        (signing_probe (ry_signing_breaker relay) \<longleftrightarrow> probe)))" (is "(?cool \<longrightarrow> ?check \<and> ?submit) \<and> (?quiet \<longrightarrow> ?sign)")
proof -
  have "\<not> (\<exists>t \<in> set (wd_tasks w). holds_chain chain t)" "\<not> (\<exists>t \<in> set (wd_tasks w). holds_signing t)" for chain
    using assms(2) finished_holds_nothing by (auto simp: list_all_iff)
  then have p: "\<not> chain_probe (ry_breaker (wd_relay w)) chain" "\<not> signing_probe (ry_signing_breaker (wd_relay w))" for chain
    using probes_held_reachable [OF assms(1)] by (auto simp: probes_held_def)
  have ?check if ?cool using chain_allowed_after_cooldown [OF p(1) that] by (simp add: step_check_allowed_def)
  moreover have ?submit if ?cool
    using chain_admits_after_cooldown [OF p(1) that] by (simp add: step_admit_submit_def case_prod_beta)
  moreover have ?sign if ?quiet
    using signing_admits_after_cooldown [OF p(2) that] by (simp add: step_admit_signing_def case_prod_beta)
  ultimately show ?thesis by blast
qed

theorem relay_probes_never_stranded_witness:
  "\<exists>w relay signing request. world_steps sample_hash (durable_ops sample_hash) degraded_start w \<and>
     br_state (entry_or_default (ry_breaker (wd_relay w)) Base) = BH_Unavailable \<and>
     step_admit_submit (sample_call\<lparr>ri_now_ms := 1600\<rparr>) (wd_relay w) signing request = (relay, EP_Submit signing request True) \<and>
     chain_probe (ry_breaker relay) Base"
proof -
  obtain signing where b: "sample_bind ''k'' = Inr signing" using sample_request_exists by blast
  note d = degraded_drop [OF b] and r = degraded_run [of signing]
  have "list_all task_finished (wd_tasks (degraded_world signing))" by (simp add: d(2) task_finished_def)
  from relay_probes_never_stranded [OF r [unfolded degraded_start_def] this,
      of "sample_call\<lparr>ri_now_ms := 1600\<rparr>" BH_Healthy signing "sample_submit signing"]
  obtain relay where "step_admit_submit (sample_call\<lparr>ri_now_ms := 1600\<rparr>) (wd_relay (degraded_world signing)) signing
      (sample_submit signing) = (relay, EP_Submit signing (sample_submit signing) True)" "chain_probe (ry_breaker relay) Base"
    using d(1) by (auto simp: sample_call_def sample_trade_chain)
  moreover have "br_state (entry_or_default (ry_breaker (wd_relay (degraded_world signing))) Base) = BH_Unavailable"
    by (simp add: d(1))
  ultimately show ?thesis using r by blast
qed

end
