(* ===== verification/Tax.thy ===== *)
theory Tax
  imports Cpmm Orders
begin

text \<open>
  Transfer taxes: the assessment of an observation (\<open>crates/tax-engine/src/assessment.rs\<close>), the tax on a
  bought output and on a sold input (\<open>buy_output.rs\<close>, \<open>sell_input.rs\<close>), and their composition with the
  constant-product simulator (\<open>crates/simulation/src/buy_tax.rs\<close>, \<open>sell_tax.rs\<close>, \<open>roundtrip_tax.rs\<close>).

  The arithmetic of the tax calls \<open>expect\<close> on checked operations. A failed \<open>expect\<close> is a panic and the
  value \<open>None\<close> of \<open>tax_floor\<close> and \<open>TE_Panic\<close> of the operations; both are shown not to occur for a tax of at
  most 10,000 basis points, which the type \<open>Bps\<close> guarantees.
\<close>

section \<open>Assessments\<close>

datatype tax_safety_error =
    TE_InvalidTradeIntent domain_error
  | TE_InvalidTaxObservation domain_error
  | TE_MissingObservation
  | TE_ChainMismatch
  | TE_AssessedAssetMismatch
  | TE_FreshnessEvaluationFailed
  | TE_StaleObservation
  | TE_ResyncRequired
  | TE_BuySimulationFailed
  | TE_SellSimulationFailed
  | TE_TokenNotSellable
  | TE_BuyTaxExceedsCap
  | TE_SellTaxExceedsCap
  | TE_ZeroGrossOutput
  | TE_ZeroNetOutput
  | TE_ZeroGrossInput
  | TE_ZeroNetInput
  | TE_Panic

record tax_assessment =
  ta_assessed_asset :: asset_id
  ta_chain :: chain_id
  ta_buy_tax :: bps
  ta_sell_tax :: bps
  ta_freshness :: safe_freshness_meta
  ta_block_or_slot :: u64

definition assessed_asset_for_intent :: "trade_intent \<Rightarrow> asset_id" where
  "assessed_asset_for_intent intent =
     (case ti_side intent of Buy \<Rightarrow> ti_token_out intent | Sell \<Rightarrow> ti_token_in intent)"

text \<open>The match on a freshness status that accepts only fresh data.\<close>

definition require_fresh_tax :: "freshness_status \<Rightarrow> tax_safety_error + unit" where
  "require_fresh_tax status =
     (case status of
        FS_Fresh \<Rightarrow> Inr ()
      | FS_Stale \<Rightarrow> Inl TE_StaleObservation
      | FS_ResyncRequired \<Rightarrow> Inl TE_ResyncRequired)"

definition evaluate_tax_safety ::
  "trade_intent \<Rightarrow> tax_observation option \<Rightarrow> i64 \<Rightarrow> freshness_policy \<Rightarrow> tax_safety_error + tax_assessment" where
  "evaluate_tax_safety intent observation evaluation_time_ms policy =
     bindR (map_err TE_InvalidTradeIntent (intent_validate intent evaluation_time_ms)) (\<lambda>_.
     bindR (ok_or TE_MissingObservation observation) (\<lambda>obs.
     bindR (map_err TE_InvalidTaxObservation (tax_observation_validate obs)) (\<lambda>_.
     if tob_chain obs \<noteq> ti_chain intent then Inl TE_ChainMismatch
     else if tob_token obs \<noteq> assessed_asset_for_intent intent then Inl TE_AssessedAssetMismatch
     else
       bindR (map_err (\<lambda>_. TE_FreshnessEvaluationFailed)
         (evaluate_freshness policy (tob_observed_at_ms obs) evaluation_time_ms (tob_block_or_slot obs) False)) (\<lambda>meta.
       bindR (require_fresh_tax (fm_status meta)) (\<lambda>_.
       if \<not> tob_buy_succeeds obs then Inl TE_BuySimulationFailed
       else if \<not> tob_sellable obs then Inl TE_TokenNotSellable
       else if \<not> tob_sell_succeeds obs then Inl TE_SellSimulationFailed
       else if max_buy_tax (ti_risk intent) < tob_buy_tax obs then Inl TE_BuyTaxExceedsCap
       else if max_sell_tax (ti_risk intent) < tob_sell_tax obs then Inl TE_SellTaxExceedsCap
       else Inr \<lparr>ta_assessed_asset = assessed_asset_for_intent intent, ta_chain = ti_chain intent,
                 ta_buy_tax = tob_buy_tax obs, ta_sell_tax = tob_sell_tax obs, ta_freshness = meta,
                 ta_block_or_slot = tob_block_or_slot obs\<rparr>)))))"

section \<open>The tax on an amount\<close>

definition tax_floor :: "u128 \<Rightarrow> u128 \<Rightarrow> u128 option" where
  "tax_floor gross_val bps =
     (let q = gross_val div 10000; r = gross_val mod 10000 in
      Option.bind (checked_mul q bps) (\<lambda>q_part.
      Option.bind (checked_mul r bps) (\<lambda>r_product.
      checked_add q_part (r_product div 10000))))"

text \<open>Steps 2 to 4: the amount is in the assessed asset and not zero.\<close>

definition taxable :: "tax_assessment \<Rightarrow> asset_amount \<Rightarrow> tax_safety_error \<Rightarrow> tax_safety_error + unit" where
  "taxable assessment gross zero_error =
     (if asset_chain (aa_asset gross) \<noteq> ta_chain assessment \<or>
         asset_chain (aa_asset gross) \<noteq> asset_chain (ta_assessed_asset assessment)
      then Inl TE_ChainMismatch
      else if aa_asset gross \<noteq> ta_assessed_asset assessment then Inl TE_AssessedAssetMismatch
      else if aa_amount gross = 0 then Inl zero_error
      else Inr ())"

record buy_tax_output =
  bt_gross_output :: asset_amount
  bt_tax_cost :: asset_amount
  bt_net_output :: asset_amount

definition apply_buy_tax_to_output ::
  "tax_assessment \<Rightarrow> asset_amount \<Rightarrow> tax_safety_error + buy_tax_output" where
  "apply_buy_tax_to_output assessment gross_output =
     bindR (require_fresh_tax (fm_status (ta_freshness assessment))) (\<lambda>_.
     bindR (taxable assessment gross_output TE_ZeroGrossOutput) (\<lambda>_.
     bindR (ok_or TE_Panic (tax_floor (aa_amount gross_output) (ucast (ta_buy_tax assessment)))) (\<lambda>tax_cost_val.
     bindR (ok_or TE_Panic (checked_sub (aa_amount gross_output) tax_cost_val)) (\<lambda>net_val.
     if net_val = 0 then Inl TE_ZeroNetOutput
     else Inr \<lparr>bt_gross_output = gross_output,
               bt_tax_cost = \<lparr>aa_asset = aa_asset gross_output, aa_amount = tax_cost_val\<rparr>,
               bt_net_output = \<lparr>aa_asset = aa_asset gross_output, aa_amount = net_val\<rparr>\<rparr>))))"

record sell_tax_input =
  si_gross_input :: asset_amount
  si_tax_cost :: asset_amount
  si_net_transferable_input :: asset_amount

definition apply_sell_tax_to_input ::
  "tax_assessment \<Rightarrow> asset_amount \<Rightarrow> tax_safety_error + sell_tax_input" where
  "apply_sell_tax_to_input assessment gross_input =
     bindR (require_fresh_tax (fm_status (ta_freshness assessment))) (\<lambda>_.
     bindR (taxable assessment gross_input TE_ZeroGrossInput) (\<lambda>_.
     bindR (ok_or TE_Panic (tax_floor (aa_amount gross_input) (ucast (ta_sell_tax assessment)))) (\<lambda>tax_cost_val.
     bindR (ok_or TE_Panic (checked_sub (aa_amount gross_input) tax_cost_val)) (\<lambda>net_val.
     if net_val = 0 then Inl TE_ZeroNetInput
     else Inr \<lparr>si_gross_input = gross_input,
               si_tax_cost = \<lparr>aa_asset = aa_asset gross_input, aa_amount = tax_cost_val\<rparr>,
               si_net_transferable_input = \<lparr>aa_asset = aa_asset gross_input, aa_amount = net_val\<rparr>\<rparr>))))"

section \<open>Tax-aware swaps\<close>

datatype tax_aware_simulation_error = TA_Cpmm cpmm_simulation_error_class | TA_Tax tax_safety_error

record tax_aware_cpmm_buy_quote =
  tb_cpmm_quote :: cpmm_simulation_quote
  tb_tax_output :: buy_tax_output

definition simulate_tax_aware_cpmm_buy_exact_input ::
  "cpmm_pool_state \<Rightarrow> exact_input_request \<Rightarrow> tax_assessment \<Rightarrow>
     tax_aware_simulation_error + tax_aware_cpmm_buy_quote" where
  "simulate_tax_aware_cpmm_buy_exact_input pool request assessment =
     bindR (map_err (\<lambda>e. TA_Cpmm (error_class e)) (simulate_cpmm_exact_input pool request)) (\<lambda>cpmm_quote.
     bindR (map_err TA_Tax (apply_buy_tax_to_output assessment (cq_output cpmm_quote))) (\<lambda>tax_output.
     Inr \<lparr>tb_cpmm_quote = cpmm_quote, tb_tax_output = tax_output\<rparr>))"

record tax_aware_cpmm_sell_quote =
  tl_cpmm_quote :: cpmm_simulation_quote
  tl_tax_input :: sell_tax_input

definition simulate_tax_aware_cpmm_sell_exact_input ::
  "cpmm_pool_state \<Rightarrow> exact_input_request \<Rightarrow> tax_assessment \<Rightarrow>
     tax_aware_simulation_error + tax_aware_cpmm_sell_quote" where
  "simulate_tax_aware_cpmm_sell_exact_input pool request assessment =
     (let gross_input = \<lparr>aa_asset = ei_token_in request, aa_amount = ei_amount_in request\<rparr> in
      bindR (map_err TA_Tax (apply_sell_tax_to_input assessment gross_input)) (\<lambda>tax_input.
      let net_request = request\<lparr>ei_amount_in := aa_amount (si_net_transferable_input tax_input)\<rparr> in
      bindR (map_err (\<lambda>e. TA_Cpmm (error_class e)) (simulate_cpmm_exact_input pool net_request)) (\<lambda>cpmm_quote.
      Inr \<lparr>tl_cpmm_quote = cpmm_quote, tl_tax_input = tax_input\<rparr>)))"

record tax_aware_cpmm_roundtrip_quote =
  tr_buy_quote :: tax_aware_cpmm_buy_quote
  tr_sell_quote :: tax_aware_cpmm_sell_quote

definition simulate_tax_aware_cpmm_roundtrip_exact_input ::
  "cpmm_pool_state \<Rightarrow> exact_input_request \<Rightarrow> tax_assessment \<Rightarrow> tax_assessment \<Rightarrow>
     tax_aware_simulation_error + tax_aware_cpmm_roundtrip_quote" where
  "simulate_tax_aware_cpmm_roundtrip_exact_input pool request buy_assessment sell_assessment =
     bindR (simulate_tax_aware_cpmm_buy_exact_input pool request buy_assessment) (\<lambda>buy_quote.
     let staged_pool = pool\<lparr>cp_reserve_0 := cq_resulting_reserve_0 (tb_cpmm_quote buy_quote),
                            cp_reserve_1 := cq_resulting_reserve_1 (tb_cpmm_quote buy_quote)\<rparr>;
         sell_request = exact_input_new_directed (aa_asset (bt_net_output (tb_tax_output buy_quote)))
                          (aa_amount (bt_net_output (tb_tax_output buy_quote))) (ei_token_in request) in
     bindR (simulate_tax_aware_cpmm_sell_exact_input staged_pool sell_request sell_assessment) (\<lambda>sell_quote.
     Inr \<lparr>tr_buy_quote = buy_quote, tr_sell_quote = sell_quote\<rparr>))"

section \<open>Lemmas\<close>

lemma tax_floor_exact:
  assumes "unat bps \<le> 10000"
  shows "\<exists>tax. tax_floor gross bps = Some tax \<and> unat tax = unat gross * unat bps div 10000 \<and> unat tax \<le> unat gross"
proof -
  define q r where qr: "q = unat gross div 10000" "r = unat gross mod 10000"
  have u: "unat (gross div 10000) = q" "unat (gross mod 10000) = r" by (simp_all add: unat_div unat_mod qr)
  have g: "unat gross = q * 10000 + r" and r: "r < 10000" by (simp_all add: qr)
  have gb: "unat gross < 2 ^ 128" by (rule u128_bound)
  have qb: "q * unat bps \<le> q * 10000" using assms by simp
  have rb: "r * unat bps \<le> 10000 * 10000" using r assms by (intro mult_le_mono) simp_all
  have rd: "r * unat bps div 10000 \<le> r" using assms by (metis div_le_mono mult_le_mono2 nonzero_mult_div_cancel_right zero_neq_numeral)
  have e: "unat gross * unat bps div 10000 = q * unat bps + r * unat bps div 10000"
    unfolding g by (simp add: add_mult_distrib algebra_simps)
  define qp rp tax :: u128 where d: "qp = of_nat (q * unat bps)" "rp = of_nat (r * unat bps)"
    "tax = of_nat (q * unat bps + r * unat bps div 10000)"
  have small: "q * unat bps < 2 ^ 128" "r * unat bps < 2 ^ 128" "q * unat bps + r * unat bps div 10000 < 2 ^ 128"
  proof -
    have "(10000 :: nat) * 10000 < 2 ^ 128" by simp
    with rb show "r * unat bps < 2 ^ 128" by (rule le_less_trans)
    have "q * unat bps + r * unat bps div 10000 \<le> unat gross" using add_mono [OF qb rd] g by simp
    from this gb show "q * unat bps + r * unat bps div 10000 < 2 ^ 128" by (rule le_less_trans)
    then show "q * unat bps < 2 ^ 128" by (rule add_lessD1)
  qed
  have qp: "unat qp = q * unat bps" and rp: "unat rp = r * unat bps"
    and tax: "unat tax = q * unat bps + r * unat bps div 10000"
    unfolding d using small by (simp_all add: unat_of_nat_bound del: of_nat_add of_nat_mult)
  have "checked_mul (gross div 10000) bps = Some qp" "checked_mul (gross mod 10000) bps = Some rp"
    by (simp_all add: rust_arith u qp rp)
  moreover have "checked_add qp (rp div 10000) = Some tax"
    by (simp add: rust_arith qp rp tax unat_div)
  ultimately have "tax_floor gross bps = Some tax" by (simp add: tax_floor_def Let_def)
  moreover have "unat tax \<le> unat gross" using add_mono [OF qb rd] tax g by simp
  ultimately show ?thesis using tax e by auto
qed

lemma levy:
  assumes "bps \<le> BPS_MAX"
  obtains tax net where "tax_floor a (ucast bps) = Some tax" and "checked_sub a tax = Some net"
    and "unat tax = unat a * unat bps div 10000" and "unat tax + unat net = unat a"
proof -
  have b: "unat (ucast bps :: u128) = unat bps" "unat bps \<le> 10000"
    using assms by (simp_all add: unat_ucast_fee BPS_MAX_def word_le_nat_alt)
  from tax_floor_exact [of "ucast bps" a] b obtain tax where tax: "tax_floor a (ucast bps) = Some tax"
    "unat tax = unat a * unat bps div 10000" "unat tax \<le> unat a" by auto
  then have "checked_sub a tax = Some (a - tax)" "unat (a - tax) = unat a - unat tax"
    by (simp_all add: checked_sub_def word_le_nat_alt unat_sub_if')
  with tax that show thesis by simp
qed

text \<open>An assessment that may be applied to an amount, and an amount split into tax and rest.\<close>

definition tax_covers :: "tax_assessment \<Rightarrow> asset_amount \<Rightarrow> bool" where
  "tax_covers assessment gross \<longleftrightarrow>
     fm_status (ta_freshness assessment) = FS_Fresh \<and> aa_asset gross = ta_assessed_asset assessment \<and>
     asset_chain (aa_asset gross) = ta_chain assessment \<and> 0 < unat (aa_amount gross)"

definition levied :: "bps \<Rightarrow> asset_amount \<Rightarrow> asset_amount \<Rightarrow> asset_amount \<Rightarrow> bool" where
  "levied bps gross tax net \<longleftrightarrow>
     aa_asset tax = aa_asset gross \<and> aa_asset net = aa_asset gross \<and>
     unat (aa_amount tax) = unat (aa_amount gross) * unat bps div 10000 \<and>
     unat (aa_amount tax) + unat (aa_amount net) = unat (aa_amount gross) \<and> 0 < unat (aa_amount net)"

lemma require_fresh_tax_Inr_iff [result_iff]: "require_fresh_tax s = Inr u \<longleftrightarrow> s = FS_Fresh"
  by (cases s) (auto simp: require_fresh_tax_def)

lemma taxable_Inr_iff [result_iff]:
  "taxable a g e = Inr u \<longleftrightarrow> aa_asset g = ta_assessed_asset a \<and> asset_chain (aa_asset g) = ta_chain a \<and> aa_amount g \<noteq> 0"
  by (auto simp: taxable_def)

lemma tax_covers_iff:
  "tax_covers a g \<longleftrightarrow> require_fresh_tax (fm_status (ta_freshness a)) = Inr () \<and> taxable a g e = Inr ()"
  by (auto simp: tax_covers_def result_iff unat_gt_0)

lemma levied_unique:
  "levied bps g t n \<Longrightarrow> levied bps g t' n' \<Longrightarrow> t = t' \<and> n = n'"
  by (cases t; cases n; cases t'; cases n') (auto simp: levied_def intro: unat_arith_simps(3) [THEN iffD2])

text \<open>The steps both directions share: the tax, the rest, and the rejection of a rest of zero.\<close>

definition levy_result ::
  "tax_safety_error \<Rightarrow> bps \<Rightarrow> asset_amount \<Rightarrow> (u128 \<Rightarrow> u128 \<Rightarrow> 'a) \<Rightarrow> tax_safety_error + 'a" where
  "levy_result e bps g f =
     bindR (ok_or TE_Panic (tax_floor (aa_amount g) (ucast bps))) (\<lambda>tax.
     bindR (ok_or TE_Panic (checked_sub (aa_amount g) tax)) (\<lambda>net. if net = 0 then Inl e else Inr (f tax net)))"

lemma levy_result_iff:
  assumes "bps \<le> BPS_MAX"
  shows "levy_result e bps g f = Inr t \<longleftrightarrow> (\<exists>tax net. levied bps g \<lparr>aa_asset = aa_asset g, aa_amount = tax\<rparr>
      \<lparr>aa_asset = aa_asset g, aa_amount = net\<rparr> \<and> t = f tax net)"
    and "levy_result e bps g f = Inl TE_Panic \<Longrightarrow> e = TE_Panic"
proof -
  obtain tax net where l: "tax_floor (aa_amount g) (ucast bps) = Some tax" "checked_sub (aa_amount g) tax = Some net"
    "unat tax = unat (aa_amount g) * unat bps div 10000" "unat tax + unat net = unat (aa_amount g)"
    using levy [OF assms] by metis
  have r: "levy_result e bps g f = (if net = 0 then Inl e else Inr (f tax net))" by (simp add: levy_result_def l)
  have "levied bps g \<lparr>aa_asset = aa_asset g, aa_amount = x\<rparr> \<lparr>aa_asset = aa_asset g, aa_amount = y\<rparr> \<longleftrightarrow>
      x = tax \<and> y = net \<and> net \<noteq> 0" for x y
    using l by (auto simp: levied_def unat_gt_0 intro: word_unat_eq_iff [THEN iffD2])
  then show "levy_result e bps g f = Inr t \<longleftrightarrow> (\<exists>tax net. levied bps g \<lparr>aa_asset = aa_asset g, aa_amount = tax\<rparr>
      \<lparr>aa_asset = aa_asset g, aa_amount = net\<rparr> \<and> t = f tax net)" by (auto simp: r)
  show "levy_result e bps g f = Inl TE_Panic \<Longrightarrow> e = TE_Panic" by (simp add: r split: if_splits)
qed

lemma levied_amounts:
  "levied bps g t n \<Longrightarrow> t = \<lparr>aa_asset = aa_asset g, aa_amount = aa_amount t\<rparr> \<and>
     n = \<lparr>aa_asset = aa_asset g, aa_amount = aa_amount n\<rparr>"
  by (cases t; cases n) (simp add: levied_def)

lemma not_panic [simp]:
  "require_fresh_tax s \<noteq> Inl TE_Panic" "e \<noteq> TE_Panic \<Longrightarrow> taxable a g e \<noteq> Inl TE_Panic"
  by (cases s) (auto simp: require_fresh_tax_def taxable_def)

lemma apply_buy_tax_iff:
  assumes "ta_buy_tax a \<le> BPS_MAX"
  shows "apply_buy_tax_to_output a g = Inr t \<longleftrightarrow>
      tax_covers a g \<and> bt_gross_output t = g \<and> levied (ta_buy_tax a) g (bt_tax_cost t) (bt_net_output t)"
    and "apply_buy_tax_to_output a g \<noteq> Inl TE_Panic"
  unfolding apply_buy_tax_to_output_def tax_covers_iff [where e = TE_ZeroGrossOutput]
  by (cases t, auto simp: result_iff levy_result_iff [OF assms] dest: levy_result_iff(2) [OF assms]
      simp flip: levy_result_def, metis levied_amounts)

lemma apply_sell_tax_iff:
  assumes "ta_sell_tax a \<le> BPS_MAX"
  shows "apply_sell_tax_to_input a g = Inr t \<longleftrightarrow>
      tax_covers a g \<and> si_gross_input t = g \<and> levied (ta_sell_tax a) g (si_tax_cost t) (si_net_transferable_input t)"
    and "apply_sell_tax_to_input a g \<noteq> Inl TE_Panic"
  unfolding apply_sell_tax_to_input_def tax_covers_iff [where e = TE_ZeroGrossInput]
  by (cases t, auto simp: result_iff levy_result_iff [OF assms] dest: levy_result_iff(2) [OF assms]
      simp flip: levy_result_def, metis levied_amounts)

text \<open>What a tax-aware swap is made of.\<close>

lemma tax_aware_buy_Inr:
  "simulate_tax_aware_cpmm_buy_exact_input pool req a = Inr q \<longleftrightarrow>
     simulate_cpmm_exact_input pool req = Inr (tb_cpmm_quote q) \<and>
     apply_buy_tax_to_output a (cq_output (tb_cpmm_quote q)) = Inr (tb_tax_output q)"
  by (cases q) (auto simp: simulate_tax_aware_cpmm_buy_exact_input_def result_iff)

lemma tax_aware_sell_Inr:
  "simulate_tax_aware_cpmm_sell_exact_input pool req a = Inr q \<longleftrightarrow>
     apply_sell_tax_to_input a \<lparr>aa_asset = ei_token_in req, aa_amount = ei_amount_in req\<rparr> = Inr (tl_tax_input q) \<and>
     simulate_cpmm_exact_input pool (req\<lparr>ei_amount_in := aa_amount (si_net_transferable_input (tl_tax_input q))\<rparr>)
       = Inr (tl_cpmm_quote q)"
  by (cases q) (auto simp: simulate_tax_aware_cpmm_sell_exact_input_def result_iff Let_def)

lemma tax_aware_roundtrip_Inr:
  "simulate_tax_aware_cpmm_roundtrip_exact_input pool req a b = Inr q \<longleftrightarrow>
     simulate_tax_aware_cpmm_buy_exact_input pool req a = Inr (tr_buy_quote q) \<and>
     simulate_tax_aware_cpmm_sell_exact_input
       (pool\<lparr>cp_reserve_0 := cq_resulting_reserve_0 (tb_cpmm_quote (tr_buy_quote q)),
             cp_reserve_1 := cq_resulting_reserve_1 (tb_cpmm_quote (tr_buy_quote q))\<rparr>)
       (exact_input_new_directed (aa_asset (bt_net_output (tb_tax_output (tr_buy_quote q))))
          (aa_amount (bt_net_output (tb_tax_output (tr_buy_quote q)))) (ei_token_in req)) b = Inr (tr_sell_quote q)"
  by (cases q) (auto simp: simulate_tax_aware_cpmm_roundtrip_exact_input_def result_iff Let_def)

section \<open>Properties\<close>

definition sample_assessment :: "asset_id \<Rightarrow> tax_assessment" where
  "sample_assessment asset = \<lparr>ta_assessed_asset = asset, ta_chain = Base, ta_buy_tax = 300, ta_sell_tax = 500,
     ta_freshness = \<lparr>fm_status = FS_Fresh, fm_observed_at_ms = 1000, fm_evaluated_at_ms = 1500, fm_age_ms = 500,
       fm_sequence = 7\<rparr>, ta_block_or_slot = 7\<rparr>"

text \<open>C39. The tax on a bought output and on a sold input is exact, for every amount and every tax of at most 10,000
  basis points, which the type \<open>Bps\<close> guarantees: the operation succeeds exactly when the assessment is fresh and
  covers the asset, the amount is not zero and something is left; tax and rest are then the floor of the exact
  product divided by 10,000 and the difference, and the checked steps behind \<open>expect\<close> never fail.\<close>

theorem tax_levied_exactly:
  assumes "ta_buy_tax a \<le> BPS_MAX" and "ta_sell_tax a \<le> BPS_MAX"
  shows "apply_buy_tax_to_output a g \<noteq> Inl TE_Panic \<and> apply_sell_tax_to_input a g \<noteq> Inl TE_Panic \<and>
    (apply_buy_tax_to_output a g = Inr t \<longleftrightarrow>
      tax_covers a g \<and> bt_gross_output t = g \<and> levied (ta_buy_tax a) g (bt_tax_cost t) (bt_net_output t)) \<and>
    (apply_sell_tax_to_input a g = Inr s \<longleftrightarrow>
      tax_covers a g \<and> si_gross_input s = g \<and> levied (ta_sell_tax a) g (si_tax_cost s) (si_net_transferable_input s))"
  using apply_buy_tax_iff [OF assms(1)] apply_sell_tax_iff [OF assms(2)] by blast

theorem tax_levied_exactly_witness:
  "\<exists>t. apply_buy_tax_to_output (sample_assessment sample_out) \<lparr>aa_asset = sample_out, aa_amount = 199\<rparr> = Inr t \<and>
     aa_amount (bt_tax_cost t) = 5 \<and> aa_amount (bt_net_output t) = 194"
proof -
  let ?g = "\<lparr>aa_asset = sample_out, aa_amount = 199\<rparr>"
  let ?t = "\<lparr>bt_gross_output = ?g, bt_tax_cost = \<lparr>aa_asset = sample_out, aa_amount = 5\<rparr>,
    bt_net_output = \<lparr>aa_asset = sample_out, aa_amount = 194\<rparr>\<rparr>"
  have "apply_buy_tax_to_output (sample_assessment sample_out) ?g = Inr ?t"
    using tax_levied_exactly [of "sample_assessment sample_out" ?g ?t]
    by (simp add: sample_assessment_def sample_out_def tax_covers_def levied_def BPS_MAX_def)
  then show ?thesis by auto
qed

text \<open>C40. A taxed round trip never gains: buying and selling the received net output back in the resulting pool
  returns the input asset, and at most the amount that was paid in.\<close>

theorem taxed_round_trip_no_profit:
  assumes "simulate_tax_aware_cpmm_roundtrip_exact_input pool req a b = Inr q"
    and "ta_buy_tax a \<le> BPS_MAX" and "ta_sell_tax b \<le> BPS_MAX"
  defines "paid \<equiv> cq_output (tl_cpmm_quote (tr_sell_quote q))"
  shows "aa_asset paid = ei_token_in req \<and> aa_amount paid \<le> ei_amount_in req"
proof -
  let ?buy = "tr_buy_quote q" and ?sell = "tr_sell_quote q"
  let ?net = "bt_net_output (tb_tax_output ?buy)" and ?sold = "si_net_transferable_input (tl_tax_input ?sell)"
  from assms(1) have sim: "simulate_cpmm_exact_input pool req = Inr (tb_cpmm_quote ?buy)"
    and buy: "levied (ta_buy_tax a) (cq_output (tb_cpmm_quote ?buy)) (bt_tax_cost (tb_tax_output ?buy)) ?net"
    and sell: "levied (ta_sell_tax b) \<lparr>aa_asset = aa_asset ?net, aa_amount = aa_amount ?net\<rparr>
      (si_tax_cost (tl_tax_input ?sell)) ?sold"
    and swap: "simulate_cpmm_exact_input
      (pool\<lparr>cp_reserve_0 := cq_resulting_reserve_0 (tb_cpmm_quote ?buy),
            cp_reserve_1 := cq_resulting_reserve_1 (tb_cpmm_quote ?buy)\<rparr>)
      \<lparr>ei_token_in = aa_asset ?net, ei_amount_in = aa_amount ?sold, ei_token_out = Some (ei_token_in req)\<rparr>
      = Inr (tl_cpmm_quote ?sell)"
    by (auto simp: tax_aware_roundtrip_Inr tax_aware_buy_Inr tax_aware_sell_Inr apply_buy_tax_iff [OF assms(2)]
        apply_sell_tax_iff [OF assms(3)] exact_input_new_directed_def)
  have "unat (aa_amount ?sold) \<le> unat (aa_amount (cq_output (tb_cpmm_quote ?buy)))"
    using buy sell by (simp add: levied_def)
  from swap_back_no_gain [OF sim this] swap buy show ?thesis by (auto simp: paid_def levied_def)
qed

theorem taxed_round_trip_no_profit_witness:
  "\<exists>q. simulate_tax_aware_cpmm_roundtrip_exact_input sample_pool (exact_input_new (cp_token_0 sample_pool) 1000)
      (sample_assessment (cp_token_1 sample_pool)) (sample_assessment (cp_token_1 sample_pool)) = Inr q \<and>
    aa_amount (cq_output (tl_cpmm_quote (tr_sell_quote q))) \<le> 1000"
proof -
  let ?a = "sample_assessment (cp_token_1 sample_pool)" and ?req = "exact_input_new (cp_token_0 sample_pool) 1000"
  let ?q = "quote_of sample_pool (cp_token_0 sample_pool) 1000 (3, 997, 1992, 1001000, 1998008)"
  let ?pool = "sample_pool\<lparr>cp_reserve_0 := cq_resulting_reserve_0 ?q, cp_reserve_1 := cq_resulting_reserve_1 ?q\<rparr>"
  have q: "simulate_cpmm_exact_input sample_pool ?req = Inr ?q"
    using sample_pool_ready by (subst simulate_ready) (simp_all add: sample_eval)
  have "swap_ready ?pool (cp_token_1 sample_pool) (Some (cp_token_0 sample_pool))"
    using sample_pool_ready(2) by (simp add: swap_ready_def sample_eval cpmm_validate_def)
  then have "\<exists>q'. simulate_cpmm_exact_input ?pool
      \<lparr>ei_token_in = cp_token_1 sample_pool, ei_amount_in = 1837, ei_token_out = Some (cp_token_0 sample_pool)\<rparr> = Inr q'"
    by (subst simulate_ready) (simp_all add: sample_eval)
  then obtain q' where q': "simulate_cpmm_exact_input ?pool
      \<lparr>ei_token_in = cp_token_1 sample_pool, ei_amount_in = 1837, ei_token_out = Some (cp_token_0 sample_pool)\<rparr> = Inr q'" ..
  let ?amount = "\<lambda>n. \<lparr>aa_asset = cp_token_1 sample_pool, aa_amount = n\<rparr>"
  let ?t = "\<lparr>bt_gross_output = ?amount 1992, bt_tax_cost = ?amount 59, bt_net_output = ?amount 1933\<rparr>"
  let ?s = "\<lparr>si_gross_input = ?amount 1933, si_tax_cost = ?amount 96, si_net_transferable_input = ?amount 1837\<rparr>"
  have b: "ta_buy_tax ?a \<le> BPS_MAX" "ta_sell_tax ?a \<le> BPS_MAX" by (simp_all add: sample_assessment_def BPS_MAX_def)
  have "apply_buy_tax_to_output ?a (cq_output ?q) = Inr ?t" "apply_sell_tax_to_input ?a (?amount 1933) = Inr ?s"
    unfolding apply_buy_tax_iff [OF b(1)] apply_sell_tax_iff [OF b(2)]
    by (simp_all add: tax_covers_def levied_def sample_assessment_def sample_eval)
  with q q' have "simulate_tax_aware_cpmm_roundtrip_exact_input sample_pool ?req ?a ?a =
      Inr \<lparr>tr_buy_quote = \<lparr>tb_cpmm_quote = ?q, tb_tax_output = ?t\<rparr>,
           tr_sell_quote = \<lparr>tl_cpmm_quote = q', tl_tax_input = ?s\<rparr>\<rparr>"
    by (simp add: tax_aware_roundtrip_Inr tax_aware_buy_Inr tax_aware_sell_Inr exact_input_new_directed_def
        exact_input_new_def)
  from this taxed_round_trip_no_profit [OF this b] show ?thesis by (auto simp: exact_input_new_def)
qed

end
