(* ===== verification/Net_Delta.thy ===== *)
theory Net_Delta
  imports Tax Bin_Sim
begin

text \<open>
  Net balance deltas (\<open>crates/execution-preview/src/lib.rs\<close>, \<open>error.rs\<close>): their validator, their construction
  from the quotes of the constant-product and bin simulators, and their aggregation over the branches of a split. The
  constructors for concentrated-liquidity quotes are left out with that simulator.
\<close>

section \<open>Errors\<close>

text \<open>The variants of \<open>ClmmSimulationError\<close>; no operation modelled here returns one.\<close>

datatype clmm_simulation_error =
    LM_InvalidPoolState
  | LM_ZeroInputAmount
  | LM_InvalidLiquidity
  | LM_InvalidFee
  | LM_InvalidPrice
  | LM_InvalidTick
  | LM_InvalidRange
  | LM_TickCrossingExceeded
  | LM_InvalidAssetDirection
  | LM_OutputAssetMismatch
  | LM_ChainMismatch
  | LM_ZeroEffectiveInput
  | LM_ZeroOutputAmount
  | LM_ArithmeticOverflow
  | LM_InvariantViolated
  | LM_OutputUnreachable
  | LM_StaleOrUnavailableState

datatype bridge_error =
    BR_Domain domain_error
  | BR_Cpmm cpmm_simulation_error_class
  | BR_Clmm clmm_simulation_error
  | BR_Bin bin_simulation_error
  | BR_Tax tax_safety_error
  | BR_NetDeltaInconsistent string
  | BR_DirectionMismatch
  | BR_ChainMismatch
  | BR_InputAssetMismatch
  | BR_OutputAssetMismatch
  | BR_AssessedAssetMismatch
  | BR_AssessmentDeltaMismatch
  | BR_TaxCapExceeded
  | BR_FreshnessUnavailable

section \<open>Net deltas\<close>

record net_delta =
  nd_token_in :: asset_id
  nd_token_out :: asset_id
  nd_net_input :: asset_amount
  nd_gross_output :: asset_amount
  nd_net_output :: asset_amount
  nd_dex_fee :: "asset_amount option"
  nd_tax_cost :: "asset_amount option"

definition nonzero :: "asset_amount \<Rightarrow> asset_amount option" where
  "nonzero amount = (if aa_amount amount = 0 then None else Some amount)"

definition floor_bps :: "u128 \<Rightarrow> bps \<Rightarrow> bridge_error + u128" where
  "floor_bps amount bps = ok_or (BR_NetDeltaInconsistent ''tax amount overflowed u128'') (tax_floor amount (ucast bps))"

text \<open>The checks of \<open>validate\<close>: assets and amounts, the fee, and the tax.\<close>

definition amounts_consistent :: "net_delta \<Rightarrow> bridge_error + unit" where
  "amounts_consistent d =
     (if nd_token_in d = nd_token_out d then Inl (BR_NetDeltaInconsistent ''token_in and token_out must differ'')
      else if asset_chain (nd_token_in d) \<noteq> asset_chain (nd_token_out d)
      then Inl (BR_NetDeltaInconsistent ''token_in and token_out must share a chain'')
      else if aa_asset (nd_net_input d) \<noteq> nd_token_in d
      then Inl (BR_NetDeltaInconsistent ''net_input must be denominated in token_in'')
      else if aa_asset (nd_gross_output d) \<noteq> nd_token_out d
      then Inl (BR_NetDeltaInconsistent ''gross_output must be denominated in token_out'')
      else if aa_asset (nd_net_output d) \<noteq> nd_token_out d
      then Inl (BR_NetDeltaInconsistent ''net_output must be denominated in token_out'')
      else if aa_amount (nd_net_input d) = 0 then Inl (BR_NetDeltaInconsistent ''net_input must be non-zero'')
      else if aa_amount (nd_gross_output d) = 0 then Inl (BR_NetDeltaInconsistent ''gross_output must be non-zero'')
      else if aa_amount (nd_net_output d) = 0 then Inl (BR_NetDeltaInconsistent ''net_output must be non-zero'')
      else if aa_amount (nd_gross_output d) < aa_amount (nd_net_output d)
      then Inl (BR_NetDeltaInconsistent ''net_output must not exceed gross_output'')
      else Inr ())"

definition fee_consistent :: "net_delta \<Rightarrow> bridge_error + unit" where
  "fee_consistent d =
     (case nd_dex_fee d of
        None \<Rightarrow> Inr ()
      | Some fee \<Rightarrow>
          if aa_amount fee = 0 then Inl (BR_NetDeltaInconsistent ''dex_fee must be non-zero when present'')
          else if aa_asset fee \<noteq> nd_token_in d
          then Inl (BR_NetDeltaInconsistent ''dex_fee must be denominated in token_in'')
          else if aa_amount (nd_net_input d) < aa_amount fee
          then Inl (BR_NetDeltaInconsistent ''dex_fee must not exceed net_input'')
          else Inr ())"

definition tax_consistent :: "net_delta \<Rightarrow> bridge_error + unit" where
  "tax_consistent d =
     (case nd_tax_cost d of
        Some tax \<Rightarrow>
          if aa_amount tax = 0 then Inl (BR_NetDeltaInconsistent ''tax_cost must be non-zero when present'')
          else if aa_asset tax \<noteq> nd_token_in d \<and> aa_asset tax \<noteq> nd_token_out d
          then Inl (BR_NetDeltaInconsistent ''tax_cost must be denominated in token_in or token_out'')
          else if aa_asset tax = nd_token_out d then
            bindR (ok_or (BR_NetDeltaInconsistent ''net_output and tax_cost overflow u128'')
                     (checked_add (aa_amount (nd_net_output d)) (aa_amount tax))) (\<lambda>t.
            if t \<noteq> aa_amount (nd_gross_output d)
            then Inl (BR_NetDeltaInconsistent ''net_output plus tax_cost must equal gross_output'')
            else Inr ())
          else if aa_amount (nd_net_output d) \<noteq> aa_amount (nd_gross_output d)
          then Inl (BR_NetDeltaInconsistent ''net_output must equal gross_output for sell-side input tax'')
          else if aa_amount (nd_net_input d) < aa_amount tax
          then Inl (BR_NetDeltaInconsistent ''tax_cost must not exceed net_input'')
          else
            bindR (ok_or (BR_NetDeltaInconsistent ''tax_cost must not exceed net_input'')
                     (checked_sub (aa_amount (nd_net_input d)) (aa_amount tax))) (\<lambda>pool_input.
            if pool_input < (case nd_dex_fee d of None \<Rightarrow> 0 | Some f \<Rightarrow> aa_amount f)
            then Inl (BR_NetDeltaInconsistent ''net_input after tax must cover dex_fee'')
            else Inr ())
      | None \<Rightarrow>
          if aa_amount (nd_net_output d) \<noteq> aa_amount (nd_gross_output d)
          then Inl (BR_NetDeltaInconsistent ''net_output must equal gross_output when no tax is present'')
          else Inr ())"

definition delta_validate_net :: "net_delta \<Rightarrow> bridge_error + unit" where
  "delta_validate_net d =
     bindR (amounts_consistent d) (\<lambda>_. bindR (fee_consistent d) (\<lambda>_. tax_consistent d))"

text \<open>\<open>delta.validate()?; Ok(delta)\<close>\<close>

definition validated_delta :: "net_delta \<Rightarrow> bridge_error + net_delta" where
  "validated_delta d = bindR (delta_validate_net d) (\<lambda>_. Inr d)"

definition from_cpmm :: "cpmm_simulation_quote \<Rightarrow> bridge_error + net_delta" where
  "from_cpmm q = validated_delta
     \<lparr>nd_token_in = aa_asset (cq_input q), nd_token_out = aa_asset (cq_output q), nd_net_input = cq_input q,
      nd_gross_output = cq_output q, nd_net_output = cq_output q, nd_dex_fee = nonzero (cq_pool_fee q),
      nd_tax_cost = None\<rparr>"

definition from_bin :: "bin_simulation_quote \<Rightarrow> bridge_error + net_delta" where
  "from_bin q = validated_delta
     \<lparr>nd_token_in = aa_asset (bq_input q), nd_token_out = aa_asset (bq_output q), nd_net_input = bq_input q,
      nd_gross_output = bq_output q, nd_net_output = bq_output q, nd_dex_fee = nonzero (bq_fee q),
      nd_tax_cost = None\<rparr>"

definition from_tax_aware_cpmm_buy :: "tax_aware_cpmm_buy_quote \<Rightarrow> bridge_error + net_delta" where
  "from_tax_aware_cpmm_buy q = validated_delta
     \<lparr>nd_token_in = aa_asset (cq_input (tb_cpmm_quote q)),
      nd_token_out = aa_asset (bt_gross_output (tb_tax_output q)),
      nd_net_input = cq_input (tb_cpmm_quote q), nd_gross_output = bt_gross_output (tb_tax_output q),
      nd_net_output = bt_net_output (tb_tax_output q), nd_dex_fee = nonzero (cq_pool_fee (tb_cpmm_quote q)),
      nd_tax_cost = nonzero (bt_tax_cost (tb_tax_output q))\<rparr>"

definition from_tax_aware_cpmm_sell :: "tax_aware_cpmm_sell_quote \<Rightarrow> bridge_error + net_delta" where
  "from_tax_aware_cpmm_sell q = validated_delta
     \<lparr>nd_token_in = aa_asset (si_gross_input (tl_tax_input q)), nd_token_out = aa_asset (cq_output (tl_cpmm_quote q)),
      nd_net_input = si_gross_input (tl_tax_input q), nd_gross_output = cq_output (tl_cpmm_quote q),
      nd_net_output = cq_output (tl_cpmm_quote q), nd_dex_fee = nonzero (cq_pool_fee (tl_cpmm_quote q)),
      nd_tax_cost = nonzero (si_tax_cost (tl_tax_input q))\<rparr>"

section \<open>Aggregation\<close>

record delta_sums =
  dm_net_input :: u128
  dm_gross_output :: u128
  dm_net_output :: u128
  dm_dex_fee :: u128
  dm_tax_total :: u128
  dm_tax_asset :: "asset_id option"

definition add_tax :: "delta_sums \<Rightarrow> asset_amount option \<Rightarrow> bridge_error + delta_sums" where
  "add_tax acc tax_cost =
     (case tax_cost of
        None \<Rightarrow> Inr acc
      | Some tax \<Rightarrow>
          bindR (case dm_tax_asset acc of
                   Some asset \<Rightarrow>
                     if asset \<noteq> aa_asset tax then Inl (BR_NetDeltaInconsistent ''split deltas mix tax denominations'')
                     else Inr acc
                 | None \<Rightarrow> Inr (acc\<lparr>dm_tax_asset := Some (aa_asset tax)\<rparr>)) (\<lambda>acc.
          bindR (ok_or (BR_NetDeltaInconsistent ''split tax_cost sum overflowed u128'')
                   (checked_add (dm_tax_total acc) (aa_amount tax))) (\<lambda>t.
          Inr (acc\<lparr>dm_tax_total := t\<rparr>))))"

definition add_delta :: "asset_id \<Rightarrow> asset_id \<Rightarrow> delta_sums \<Rightarrow> net_delta \<Rightarrow> bridge_error + delta_sums" where
  "add_delta token_in token_out acc d =
     bindR (delta_validate_net d) (\<lambda>_.
     if nd_token_in d \<noteq> token_in \<or> nd_token_out d \<noteq> token_out
     then Inl (BR_NetDeltaInconsistent ''split deltas must share one token pair'')
     else
       bindR (ok_or (BR_NetDeltaInconsistent ''split net_input sum overflowed u128'')
                (checked_add (dm_net_input acc) (aa_amount (nd_net_input d)))) (\<lambda>net_input.
       bindR (ok_or (BR_NetDeltaInconsistent ''split gross_output sum overflowed u128'')
                (checked_add (dm_gross_output acc) (aa_amount (nd_gross_output d)))) (\<lambda>gross_output.
       bindR (ok_or (BR_NetDeltaInconsistent ''split net_output sum overflowed u128'')
                (checked_add (dm_net_output acc) (aa_amount (nd_net_output d)))) (\<lambda>net_output.
       bindR (case nd_dex_fee d of
                None \<Rightarrow> Inr (dm_dex_fee acc)
              | Some fee \<Rightarrow> ok_or (BR_NetDeltaInconsistent ''split dex_fee sum overflowed u128'')
                             (checked_add (dm_dex_fee acc) (aa_amount fee))) (\<lambda>dex_fee.
       add_tax (acc\<lparr>dm_net_input := net_input, dm_gross_output := gross_output, dm_net_output := net_output,
                    dm_dex_fee := dex_fee\<rparr>) (nd_tax_cost d))))))"

fun sum_deltas :: "asset_id \<Rightarrow> asset_id \<Rightarrow> delta_sums \<Rightarrow> net_delta list \<Rightarrow> bridge_error + delta_sums" where
  "sum_deltas token_in token_out acc [] = Inr acc"
| "sum_deltas token_in token_out acc (d # ds) =
     bindR (add_delta token_in token_out acc d) (\<lambda>acc. sum_deltas token_in token_out acc ds)"

definition no_sums :: delta_sums where
  "no_sums = \<lparr>dm_net_input = 0, dm_gross_output = 0, dm_net_output = 0, dm_dex_fee = 0, dm_tax_total = 0,
     dm_tax_asset = None\<rparr>"

definition aggregate :: "net_delta list \<Rightarrow> bridge_error + net_delta" where
  "aggregate deltas =
     (case deltas of
        [] \<Rightarrow> Inl (BR_NetDeltaInconsistent ''split requires at least one net delta'')
      | first # _ \<Rightarrow>
          let token_in = nd_token_in first; token_out = nd_token_out first in
          bindR (sum_deltas token_in token_out no_sums deltas) (\<lambda>acc.
          validated_delta
            \<lparr>nd_token_in = token_in, nd_token_out = token_out,
             nd_net_input = \<lparr>aa_asset = token_in, aa_amount = dm_net_input acc\<rparr>,
             nd_gross_output = \<lparr>aa_asset = token_out, aa_amount = dm_gross_output acc\<rparr>,
             nd_net_output = \<lparr>aa_asset = token_out, aa_amount = dm_net_output acc\<rparr>,
             nd_dex_fee = (if dm_dex_fee acc = 0 then None
                           else Some \<lparr>aa_asset = token_in, aa_amount = dm_dex_fee acc\<rparr>),
             nd_tax_cost = map_option (\<lambda>asset. \<lparr>aa_asset = asset, aa_amount = dm_tax_total acc\<rparr>) (dm_tax_asset acc)\<rparr>))"

section \<open>What a validated delta says\<close>

definition amount_of :: "asset_amount option \<Rightarrow> nat" where
  "amount_of c = (case c of None \<Rightarrow> 0 | Some a \<Rightarrow> unat (aa_amount a))"

lemma amount_of_simps [simp]: "amount_of None = 0" "amount_of (Some a) = unat (aa_amount a)"
  by (simp_all add: amount_of_def)

lemma amount_of_nonzero [simp]: "amount_of (nonzero a) = unat (aa_amount a)"
  by (simp add: nonzero_def)

text \<open>
  The economics of a delta on natural numbers: a tax on the output is taken from the gross output, a tax on the input
  and the fee are taken from the input, and no tax leaves the output untouched.
\<close>

definition delta_conserves :: "net_delta \<Rightarrow> bool" where
  "delta_conserves d \<longleftrightarrow>
     (case nd_tax_cost d of
        None \<Rightarrow> aa_amount (nd_net_output d) = aa_amount (nd_gross_output d)
      | Some tax \<Rightarrow> aa_amount tax \<noteq> 0 \<and>
          (aa_asset tax = nd_token_out d \<and>
             unat (aa_amount (nd_net_output d)) + unat (aa_amount tax) = unat (aa_amount (nd_gross_output d)) \<or>
           aa_asset tax = nd_token_in d \<and> aa_amount (nd_net_output d) = aa_amount (nd_gross_output d) \<and>
             unat (aa_amount tax) + amount_of (nd_dex_fee d) \<le> unat (aa_amount (nd_net_input d))))"

definition delta_ok :: "net_delta \<Rightarrow> bool" where
  "delta_ok d \<longleftrightarrow>
     nd_token_in d \<noteq> nd_token_out d \<and> asset_chain (nd_token_in d) = asset_chain (nd_token_out d) \<and>
     aa_asset (nd_net_input d) = nd_token_in d \<and> aa_asset (nd_gross_output d) = nd_token_out d \<and>
     aa_asset (nd_net_output d) = nd_token_out d \<and>
     aa_amount (nd_net_input d) \<noteq> 0 \<and> aa_amount (nd_gross_output d) \<noteq> 0 \<and> aa_amount (nd_net_output d) \<noteq> 0 \<and>
     (case nd_dex_fee d of
        None \<Rightarrow> True
      | Some fee \<Rightarrow> aa_amount fee \<noteq> 0 \<and> aa_asset fee = nd_token_in d \<and> aa_amount fee \<le> aa_amount (nd_net_input d)) \<and>
     delta_conserves d"

lemma unat_rest: "unat b + c \<le> unat a \<Longrightarrow> \<exists>x :: u128. unat a = unat b + unat x \<and> c \<le> unat x" for a b :: u128
  by (rule exI [of _ "a - b"]) (simp add: unat_sub_no_underflow)

lemma tax_consistent_iff:
  assumes "nd_token_in d \<noteq> nd_token_out d"
  shows "tax_consistent d = Inr () \<longleftrightarrow> delta_conserves d"
  using assms
  by (auto simp: tax_consistent_def delta_conserves_def result_iff rust_arith not_less word_less_nat_alt word_le_nat_alt
      intro: unat_rest unat_rest [where c = 0, simplified] split: option.splits)

lemma delta_conserves_net: "delta_conserves d \<Longrightarrow> aa_amount (nd_net_output d) \<le> aa_amount (nd_gross_output d)"
  by (auto simp: delta_conserves_def word_le_nat_alt split: option.splits)

lemma delta_validate_net_iff [result_iff]: "delta_validate_net d = Inr u \<longleftrightarrow> delta_ok d"
  using tax_consistent_iff [of d] delta_conserves_net [of d]
  by (auto simp: delta_validate_net_def amounts_consistent_def fee_consistent_def delta_ok_def result_iff not_less
      split: option.splits)

lemma validated_delta_iff [result_iff]: "validated_delta d = Inr d' \<longleftrightarrow> delta_ok d \<and> d' = d"
  by (auto simp: validated_delta_def result_iff)

section \<open>Aggregation\<close>

definition tax_assets :: "net_delta list \<Rightarrow> asset_id list" where
  "tax_assets ds = map aa_asset (List.map_filter nd_tax_cost ds)"

lemma tax_assets_simps [simp]:
  "tax_assets [] = []"
  "tax_assets (d # ds) = (case nd_tax_cost d of None \<Rightarrow> tax_assets ds | Some t \<Rightarrow> aa_asset t # tax_assets ds)"
  by (simp_all add: tax_assets_def map_filter_simps split: option.splits)

lemma add_tax_iff:
  "add_tax acc tax = Inr acc' \<longleftrightarrow>
     unat (dm_tax_total acc') = unat (dm_tax_total acc) + amount_of tax \<and>
     (case tax of
        None \<Rightarrow> dm_tax_asset acc' = dm_tax_asset acc
      | Some t \<Rightarrow> dm_tax_asset acc \<in> {None, Some (aa_asset t)} \<and> dm_tax_asset acc' = Some (aa_asset t)) \<and>
     acc'\<lparr>dm_tax_total := 0, dm_tax_asset := None\<rparr> = acc\<lparr>dm_tax_total := 0, dm_tax_asset := None\<rparr>"
  by (cases acc; cases acc'; cases "dm_tax_asset acc")
    (auto simp: add_tax_def result_iff rust_arith word_unat_eq_iff split: option.splits)

lemma add_delta_iff:
  "add_delta token_in token_out acc d = Inr acc' \<longleftrightarrow>
     delta_ok d \<and> nd_token_in d = token_in \<and> nd_token_out d = token_out \<and>
     unat (dm_net_input acc') = unat (dm_net_input acc) + unat (aa_amount (nd_net_input d)) \<and>
     unat (dm_gross_output acc') = unat (dm_gross_output acc) + unat (aa_amount (nd_gross_output d)) \<and>
     unat (dm_net_output acc') = unat (dm_net_output acc) + unat (aa_amount (nd_net_output d)) \<and>
     unat (dm_dex_fee acc') = unat (dm_dex_fee acc) + amount_of (nd_dex_fee d) \<and>
     unat (dm_tax_total acc') = unat (dm_tax_total acc) + amount_of (nd_tax_cost d) \<and>
     (case nd_tax_cost d of
        None \<Rightarrow> dm_tax_asset acc' = dm_tax_asset acc
      | Some t \<Rightarrow> dm_tax_asset acc \<in> {None, Some (aa_asset t)} \<and> dm_tax_asset acc' = Some (aa_asset t))"
  by (cases acc; cases acc'; cases "nd_dex_fee d")
    (auto simp: add_delta_def result_iff rust_arith add_tax_iff simp flip: word_unat_eq_iff split: option.splits)

lemma sum_deltas_Inr:
  assumes "sum_deltas token_in token_out acc ds = Inr acc'"
  shows "(\<forall>d \<in> set ds. delta_ok d \<and> nd_token_in d = token_in \<and> nd_token_out d = token_out) \<and>
    unat (dm_net_input acc') = unat (dm_net_input acc) + (\<Sum>d \<leftarrow> ds. unat (aa_amount (nd_net_input d))) \<and>
    unat (dm_gross_output acc') = unat (dm_gross_output acc) + (\<Sum>d \<leftarrow> ds. unat (aa_amount (nd_gross_output d))) \<and>
    unat (dm_net_output acc') = unat (dm_net_output acc) + (\<Sum>d \<leftarrow> ds. unat (aa_amount (nd_net_output d))) \<and>
    unat (dm_dex_fee acc') = unat (dm_dex_fee acc) + (\<Sum>d \<leftarrow> ds. amount_of (nd_dex_fee d)) \<and>
    unat (dm_tax_total acc') = unat (dm_tax_total acc) + (\<Sum>d \<leftarrow> ds. amount_of (nd_tax_cost d)) \<and>
    (\<forall>x \<in> set (tax_assets ds). dm_tax_asset acc' = Some x) \<and>
    (tax_assets ds = [] \<longrightarrow> dm_tax_asset acc' = dm_tax_asset acc) \<and>
    (dm_tax_asset acc \<noteq> None \<longrightarrow> dm_tax_asset acc' = dm_tax_asset acc)"
  using assms
proof (induction ds arbitrary: acc)
  case (Cons d ds)
  then obtain acc1 where "add_delta token_in token_out acc d = Inr acc1" "sum_deltas token_in token_out acc1 ds = Inr acc'"
    by (auto simp: result_iff)
  with Cons.IH [OF this(2)] show ?case by (auto simp: add_delta_iff split: option.splits)
qed simp

lemma add_delta_total:
  assumes "delta_ok d" and "nd_token_in d = token_in" and "nd_token_out d = token_out"
    and "unat (dm_net_input acc) + unat (aa_amount (nd_net_input d)) < 2 ^ 128"
    and "unat (dm_gross_output acc) + unat (aa_amount (nd_gross_output d)) < 2 ^ 128"
    and "unat (dm_net_output acc) + unat (aa_amount (nd_net_output d)) < 2 ^ 128"
    and "unat (dm_dex_fee acc) + amount_of (nd_dex_fee d) < 2 ^ 128"
    and "unat (dm_tax_total acc) + amount_of (nd_tax_cost d) < 2 ^ 128"
    and "\<And>t. nd_tax_cost d = Some t \<Longrightarrow> dm_tax_asset acc \<in> {None, Some (aa_asset t)}"
  shows "\<exists>acc'. add_delta token_in token_out acc d = Inr acc'"
proof -
  let ?acc = "\<lparr>dm_net_input = of_nat (unat (dm_net_input acc) + unat (aa_amount (nd_net_input d))),
    dm_gross_output = of_nat (unat (dm_gross_output acc) + unat (aa_amount (nd_gross_output d))),
    dm_net_output = of_nat (unat (dm_net_output acc) + unat (aa_amount (nd_net_output d))),
    dm_dex_fee = of_nat (unat (dm_dex_fee acc) + amount_of (nd_dex_fee d)),
    dm_tax_total = of_nat (unat (dm_tax_total acc) + amount_of (nd_tax_cost d)),
    dm_tax_asset = (case nd_tax_cost d of None \<Rightarrow> dm_tax_asset acc | Some t \<Rightarrow> Some (aa_asset t))\<rparr>"
  have "add_delta token_in token_out acc d = Inr ?acc"
    unfolding add_delta_iff using assms by (auto simp: unat_of_nat_bound simp del: of_nat_add split: option.splits)
  then show ?thesis by blast
qed

lemma sum_deltas_total:
  assumes "\<And>d. d \<in> set ds \<Longrightarrow> delta_ok d \<and> nd_token_in d = token_in \<and> nd_token_out d = token_out"
    and "unat (dm_net_input acc) + (\<Sum>d \<leftarrow> ds. unat (aa_amount (nd_net_input d))) < 2 ^ 128"
    and "unat (dm_gross_output acc) + (\<Sum>d \<leftarrow> ds. unat (aa_amount (nd_gross_output d))) < 2 ^ 128"
    and "unat (dm_net_output acc) + (\<Sum>d \<leftarrow> ds. unat (aa_amount (nd_net_output d))) < 2 ^ 128"
    and "unat (dm_dex_fee acc) + (\<Sum>d \<leftarrow> ds. amount_of (nd_dex_fee d)) < 2 ^ 128"
    and "unat (dm_tax_total acc) + (\<Sum>d \<leftarrow> ds. amount_of (nd_tax_cost d)) < 2 ^ 128"
    and "set (tax_assets ds) \<subseteq> {x}" and "dm_tax_asset acc \<in> {None, Some x}"
  shows "\<exists>acc'. sum_deltas token_in token_out acc ds = Inr acc'"
  using assms
proof (induction ds arbitrary: acc)
  case (Cons d ds)
  have d: "delta_ok d" "nd_token_in d = token_in" "nd_token_out d = token_out"
    using Cons.prems(1) [of d] by simp_all
  have t: "dm_tax_asset acc \<in> {None, Some (aa_asset t)}" if "nd_tax_cost d = Some t" for t
    using Cons.prems(7,8) that by auto
  have "\<exists>acc1. add_delta token_in token_out acc d = Inr acc1"
    by (rule add_delta_total [OF d _ _ _ _ _ t])
      (use Cons.prems(2) in simp, use Cons.prems(3) in simp, use Cons.prems(4) in simp, use Cons.prems(5) in simp,
       use Cons.prems(6) in simp, simp)
  then obtain acc1 where step: "add_delta token_in token_out acc d = Inr acc1" ..
  note acc1 = step [unfolded add_delta_iff]
  have u: "unat (dm_net_input acc1) = unat (dm_net_input acc) + unat (aa_amount (nd_net_input d))"
    "unat (dm_gross_output acc1) = unat (dm_gross_output acc) + unat (aa_amount (nd_gross_output d))"
    "unat (dm_net_output acc1) = unat (dm_net_output acc) + unat (aa_amount (nd_net_output d))"
    "unat (dm_dex_fee acc1) = unat (dm_dex_fee acc) + amount_of (nd_dex_fee d)"
    "unat (dm_tax_total acc1) = unat (dm_tax_total acc) + amount_of (nd_tax_cost d)"
    using acc1 by blast+
  have x: "set (tax_assets ds) \<subseteq> {x}" "dm_tax_asset acc1 \<in> {None, Some x}"
    using acc1 Cons.prems(7,8) by (auto split: option.splits)
  have "\<exists>acc'. sum_deltas token_in token_out acc1 ds = Inr acc'"
    by (rule Cons.IH [OF _ _ _ _ _ _ x])
      (rule Cons.prems(1), simp, use Cons.prems(2) u(1) in simp, use Cons.prems(3) u(2) in simp,
       use Cons.prems(4) u(3) in simp, use Cons.prems(5) u(4) in simp, use Cons.prems(6) u(5) in simp)
  with step show ?case by auto
qed simp

text \<open>The conservation of one delta, by the side its tax is taken from.\<close>

lemma delta_ok_bounds:
  assumes "delta_ok d"
  shows "amount_of (nd_dex_fee d) \<le> unat (aa_amount (nd_net_input d))"
    and "unat (aa_amount (nd_net_output d)) \<le> unat (aa_amount (nd_gross_output d))"
    and "0 < unat (aa_amount (nd_net_input d))" and "0 < unat (aa_amount (nd_net_output d))"
  using assms delta_conserves_net [of d]
  by (auto simp: delta_ok_def word_le_nat_alt unat_gt_0 split: option.splits)

lemma delta_ok_conserves: "delta_ok d \<Longrightarrow> delta_conserves d \<and> nd_token_in d \<noteq> nd_token_out d"
  by (simp add: delta_ok_def)

lemma delta_ok_output_tax:
  assumes "delta_ok d" and "set (tax_assets [d]) \<subseteq> {nd_token_out d}"
  shows "unat (aa_amount (nd_net_output d)) + amount_of (nd_tax_cost d) = unat (aa_amount (nd_gross_output d))"
  using delta_ok_conserves [OF assms(1)] assms(2) by (cases "nd_tax_cost d") (auto simp: delta_conserves_def)

lemma delta_ok_input_tax:
  assumes "delta_ok d" and "set (tax_assets [d]) \<subseteq> {nd_token_in d}"
  shows "unat (aa_amount (nd_net_output d)) = unat (aa_amount (nd_gross_output d)) \<and>
    amount_of (nd_tax_cost d) + amount_of (nd_dex_fee d) \<le> unat (aa_amount (nd_net_input d))"
  using delta_ok_conserves [OF assms(1)] assms(2) delta_ok_bounds(1) [OF assms(1)]
  by (cases "nd_tax_cost d") (auto simp: delta_conserves_def)

lemma delta_ok_tax:
  "delta_ok d \<Longrightarrow> x \<in> set (tax_assets [d]) \<Longrightarrow> (x = nd_token_in d \<or> x = nd_token_out d) \<and> 0 < amount_of (nd_tax_cost d)"
  by (drule delta_ok_conserves, cases "nd_tax_cost d") (auto simp: delta_conserves_def unat_gt_0)

lemma tax_assets_mem: "x \<in> set (tax_assets ds) \<longleftrightarrow> (\<exists>d \<in> set ds. x \<in> set (tax_assets [d]))"
  by (induction ds) (auto split: option.splits)

lemma tax_assets_sub: "d \<in> set ds \<Longrightarrow> set (tax_assets [d]) \<subseteq> set (tax_assets ds)"
  using tax_assets_mem [of _ ds] by blast

text \<open>Deltas that can be merged: each valid, one pair of tokens, one denomination of tax.\<close>

definition mergeable :: "asset_id \<Rightarrow> asset_id \<Rightarrow> net_delta list \<Rightarrow> bool" where
  "mergeable token_in token_out ds \<longleftrightarrow>
     (\<forall>d \<in> set ds. delta_ok d \<and> nd_token_in d = token_in \<and> nd_token_out d = token_out) \<and>
     (\<forall>x \<in> set (tax_assets ds). \<forall>y \<in> set (tax_assets ds). x = y)"

lemma mergeableD:
  "mergeable token_in token_out ds \<Longrightarrow> d \<in> set ds \<Longrightarrow> delta_ok d \<and> nd_token_in d = token_in \<and> nd_token_out d = token_out"
  by (simp add: mergeable_def)

lemma mergeable_tax_side:
  assumes "mergeable token_in token_out ds"
  shows "set (tax_assets ds) \<subseteq> {token_in} \<or> set (tax_assets ds) \<subseteq> {token_out}"
proof (cases "tax_assets ds")
  case (Cons x xs)
  then have x: "x \<in> set (tax_assets ds)" by simp
  then obtain d where d: "d \<in> set ds" "x \<in> set (tax_assets [d])" unfolding tax_assets_mem [of x ds] by (rule bexE)
  have "x = token_in \<or> x = token_out" using mergeableD [OF assms d(1)] delta_ok_tax [OF _ d(2)] by auto
  moreover have "y = x" if "y \<in> set (tax_assets ds)" for y
    using assms that x unfolding mergeable_def by (elim conjE) (drule (1) bspec, drule (1) bspec)
  then have "set (tax_assets ds) \<subseteq> {x}" by (intro subsetI) simp
  ultimately show ?thesis by (elim disjE) simp_all
qed simp

lemma merged_output_tax:
  assumes "mergeable token_in token_out ds" and "set (tax_assets ds) \<subseteq> {token_out}"
  shows "(\<Sum>d \<leftarrow> ds. unat (aa_amount (nd_net_output d))) + (\<Sum>d \<leftarrow> ds. amount_of (nd_tax_cost d))
    = (\<Sum>d \<leftarrow> ds. unat (aa_amount (nd_gross_output d)))"
proof -
  have "unat (aa_amount (nd_net_output d)) + amount_of (nd_tax_cost d) = unat (aa_amount (nd_gross_output d))"
    if "d \<in> set ds" for d
    using mergeableD [OF assms(1) that] subset_trans [OF tax_assets_sub [OF that] assms(2)]
    by (intro delta_ok_output_tax) simp_all
  then show ?thesis unfolding sum_list_addf [symmetric] by (intro arg_cong [where f = sum_list] map_cong) simp_all
qed

lemma merged_input_tax:
  assumes "mergeable token_in token_out ds" and "set (tax_assets ds) \<subseteq> {token_in}"
  shows "(\<Sum>d \<leftarrow> ds. unat (aa_amount (nd_net_output d))) = (\<Sum>d \<leftarrow> ds. unat (aa_amount (nd_gross_output d)))"
    and "(\<Sum>d \<leftarrow> ds. amount_of (nd_tax_cost d)) + (\<Sum>d \<leftarrow> ds. amount_of (nd_dex_fee d))
      \<le> (\<Sum>d \<leftarrow> ds. unat (aa_amount (nd_net_input d)))"
proof -
  have d: "unat (aa_amount (nd_net_output d)) = unat (aa_amount (nd_gross_output d)) \<and>
      amount_of (nd_tax_cost d) + amount_of (nd_dex_fee d) \<le> unat (aa_amount (nd_net_input d))"
    if "d \<in> set ds" for d
    using mergeableD [OF assms(1) that] subset_trans [OF tax_assets_sub [OF that] assms(2)]
    by (intro delta_ok_input_tax) simp_all
  then show "(\<Sum>d \<leftarrow> ds. unat (aa_amount (nd_net_output d))) = (\<Sum>d \<leftarrow> ds. unat (aa_amount (nd_gross_output d)))"
    by (intro arg_cong [where f = sum_list] map_cong) simp_all
  show "(\<Sum>d \<leftarrow> ds. amount_of (nd_tax_cost d)) + (\<Sum>d \<leftarrow> ds. amount_of (nd_dex_fee d))
      \<le> (\<Sum>d \<leftarrow> ds. unat (aa_amount (nd_net_input d)))"
    unfolding sum_list_addf [symmetric] using d by (intro sum_list_mono) simp
qed

lemma merged_bounds:
  assumes "mergeable token_in token_out ds"
  shows "(\<Sum>d \<leftarrow> ds. amount_of (nd_dex_fee d)) \<le> (\<Sum>d \<leftarrow> ds. unat (aa_amount (nd_net_input d)))"
    and "(\<Sum>d \<leftarrow> ds. unat (aa_amount (nd_net_output d))) \<le> (\<Sum>d \<leftarrow> ds. unat (aa_amount (nd_gross_output d)))"
    and "(\<Sum>d \<leftarrow> ds. amount_of (nd_tax_cost d))
      \<le> max (\<Sum>d \<leftarrow> ds. unat (aa_amount (nd_net_input d))) (\<Sum>d \<leftarrow> ds. unat (aa_amount (nd_gross_output d)))"
proof -
  show "(\<Sum>d \<leftarrow> ds. amount_of (nd_dex_fee d)) \<le> (\<Sum>d \<leftarrow> ds. unat (aa_amount (nd_net_input d)))"
    using mergeableD [OF assms] delta_ok_bounds(1) by (intro sum_list_mono) blast
  show "(\<Sum>d \<leftarrow> ds. unat (aa_amount (nd_net_output d))) \<le> (\<Sum>d \<leftarrow> ds. unat (aa_amount (nd_gross_output d)))"
    using mergeableD [OF assms] delta_ok_bounds(2) by (intro sum_list_mono) blast
  from mergeable_tax_side [OF assms] show "(\<Sum>d \<leftarrow> ds. amount_of (nd_tax_cost d))
      \<le> max (\<Sum>d \<leftarrow> ds. unat (aa_amount (nd_net_input d))) (\<Sum>d \<leftarrow> ds. unat (aa_amount (nd_gross_output d)))"
  proof
    assume "set (tax_assets ds) \<subseteq> {token_in}"
    from merged_input_tax(2) [OF assms this] show ?thesis by simp
  next
    assume "set (tax_assets ds) \<subseteq> {token_out}"
    from merged_output_tax [OF assms this, symmetric] show ?thesis by simp
  qed
qed

lemma merged_positive:
  assumes "mergeable token_in token_out ds" and "ds \<noteq> []"
  shows "0 < (\<Sum>d \<leftarrow> ds. unat (aa_amount (nd_net_input d)))"
    and "0 < (\<Sum>d \<leftarrow> ds. unat (aa_amount (nd_net_output d)))"
    and "tax_assets ds \<noteq> [] \<Longrightarrow> 0 < (\<Sum>d \<leftarrow> ds. amount_of (nd_tax_cost d))"
proof -
  obtain d where d: "d \<in> set ds" using assms(2) by (cases ds) auto
  with assms(1) delta_ok_bounds(3,4) [of d]
  show "0 < (\<Sum>d \<leftarrow> ds. unat (aa_amount (nd_net_input d)))" "0 < (\<Sum>d \<leftarrow> ds. unat (aa_amount (nd_net_output d)))"
    by (auto simp: mergeable_def sum_list_eq_0_iff simp flip: neq0_conv)
  show "0 < (\<Sum>d \<leftarrow> ds. amount_of (nd_tax_cost d))" if "tax_assets ds \<noteq> []"
  proof -
    from that obtain x where "x \<in> set (tax_assets ds)" by (cases "tax_assets ds") auto
    then obtain d where "d \<in> set ds" "x \<in> set (tax_assets [d])" unfolding tax_assets_mem [of x ds] by blast
    moreover from this have "0 < amount_of (nd_tax_cost d)" using assms(1) delta_ok_tax by (auto simp: mergeable_def)
    ultimately show ?thesis by (auto simp: sum_list_eq_0_iff simp flip: neq0_conv)
  qed
qed

text \<open>The delta that \<open>aggregate\<close> builds from the sums; it always passes its validation.\<close>

definition merged_delta :: "asset_id \<Rightarrow> asset_id \<Rightarrow> delta_sums \<Rightarrow> net_delta" where
  "merged_delta token_in token_out acc =
     \<lparr>nd_token_in = token_in, nd_token_out = token_out,
      nd_net_input = \<lparr>aa_asset = token_in, aa_amount = dm_net_input acc\<rparr>,
      nd_gross_output = \<lparr>aa_asset = token_out, aa_amount = dm_gross_output acc\<rparr>,
      nd_net_output = \<lparr>aa_asset = token_out, aa_amount = dm_net_output acc\<rparr>,
      nd_dex_fee = (if dm_dex_fee acc = 0 then None else Some \<lparr>aa_asset = token_in, aa_amount = dm_dex_fee acc\<rparr>),
      nd_tax_cost = map_option (\<lambda>asset. \<lparr>aa_asset = asset, aa_amount = dm_tax_total acc\<rparr>) (dm_tax_asset acc)\<rparr>"

lemma merged_delta_fee: "amount_of (nd_dex_fee (merged_delta i out acc)) = unat (dm_dex_fee acc)"
  by (simp add: merged_delta_def)

lemma sum_deltas_facts:
  assumes "sum_deltas token_in token_out no_sums ds = Inr acc"
  shows "mergeable token_in token_out ds"
    and "unat (dm_net_input acc) = (\<Sum>d \<leftarrow> ds. unat (aa_amount (nd_net_input d)))"
    and "unat (dm_gross_output acc) = (\<Sum>d \<leftarrow> ds. unat (aa_amount (nd_gross_output d)))"
    and "unat (dm_net_output acc) = (\<Sum>d \<leftarrow> ds. unat (aa_amount (nd_net_output d)))"
    and "unat (dm_dex_fee acc) = (\<Sum>d \<leftarrow> ds. amount_of (nd_dex_fee d))"
    and "unat (dm_tax_total acc) = (\<Sum>d \<leftarrow> ds. amount_of (nd_tax_cost d))"
    and "dm_tax_asset acc = (case tax_assets ds of [] \<Rightarrow> None | x # _ \<Rightarrow> Some x)"
proof -
  note f = sum_deltas_Inr [OF assms]
  have tax: "dm_tax_asset acc = Some x" if "x \<in> set (tax_assets ds)" for x using f that by blast
  have "x = y" if "x \<in> set (tax_assets ds)" "y \<in> set (tax_assets ds)" for x y
    using tax [OF that(1)] tax [OF that(2)] by simp
  moreover have "delta_ok d \<and> nd_token_in d = token_in \<and> nd_token_out d = token_out" if "d \<in> set ds" for d
    using f that by blast
  ultimately show "mergeable token_in token_out ds" unfolding mergeable_def by (intro conjI [OF ballI] ballI)
  have "tax_assets ds = [] \<longrightarrow> dm_tax_asset acc = None" using f by (simp add: no_sums_def)
  with tax show "dm_tax_asset acc = (case tax_assets ds of [] \<Rightarrow> None | x # _ \<Rightarrow> Some x)"
    by (cases "tax_assets ds") simp_all
qed (insert sum_deltas_Inr [OF assms], simp_all add: no_sums_def)

lemma merged_delta_conserves:
  assumes "sum_deltas token_in token_out no_sums ds = Inr acc" and "ds \<noteq> []"
  shows "delta_conserves (merged_delta token_in token_out acc)"
proof (cases "tax_assets ds")
  case Nil
  note f = sum_deltas_facts [OF assms(1)]
  have "unat (dm_net_output acc) = unat (dm_gross_output acc)"
    using merged_input_tax(1) [OF f(1)] Nil f(3,4) by simp
  then have "dm_net_output acc = dm_gross_output acc" by (rule word_unat_eq_iff [THEN iffD2])
  then show ?thesis using f(7) Nil by (simp add: delta_conserves_def merged_delta_def)
next
  case (Cons x xs)
  note f = sum_deltas_facts [OF assms(1)]
  have asset: "dm_tax_asset acc = Some x" using f(7) Cons by simp
  have "0 < unat (dm_tax_total acc)" using merged_positive(3) [OF f(1) assms(2)] Cons f(6) by simp
  then have pos: "dm_tax_total acc \<noteq> 0" by (simp add: unat_gt_0)
  from mergeable_tax_side [OF f(1)] show ?thesis
  proof
    assume s: "set (tax_assets ds) \<subseteq> {token_in}"
    have "unat (dm_net_output acc) = unat (dm_gross_output acc)" using merged_input_tax(1) [OF f(1) s] f(3,4) by simp
    then have "dm_net_output acc = dm_gross_output acc" by (rule word_unat_eq_iff [THEN iffD2])
    moreover have "unat (dm_tax_total acc) + unat (dm_dex_fee acc) \<le> unat (dm_net_input acc)"
      using merged_input_tax(2) [OF f(1) s] f(2,5,6) by simp
    ultimately show ?thesis using asset pos s Cons merged_delta_fee [of token_in token_out acc]
      by (simp add: delta_conserves_def merged_delta_def)
  next
    assume s: "set (tax_assets ds) \<subseteq> {token_out}"
    have "unat (dm_net_output acc) + unat (dm_tax_total acc) = unat (dm_gross_output acc)"
      using merged_output_tax [OF f(1) s] f(3,4,6) by simp
    then show ?thesis using asset pos s Cons by (simp add: delta_conserves_def merged_delta_def)
  qed
qed

lemma merged_delta_ok:
  assumes "sum_deltas token_in token_out no_sums ds = Inr acc" and "ds \<noteq> []"
  shows "delta_ok (merged_delta token_in token_out acc)"
proof -
  note f = sum_deltas_facts [OF assms(1)]
  obtain d where "d \<in> set ds" using assms(2) by (cases ds) auto
  from mergeableD [OF f(1) this] have tok: "token_in \<noteq> token_out" "asset_chain token_in = asset_chain token_out"
    by (auto simp: delta_ok_def)
  have "0 < unat (dm_net_input acc)" "0 < unat (dm_net_output acc)" "unat (dm_net_output acc) \<le> unat (dm_gross_output acc)"
    "unat (dm_dex_fee acc) \<le> unat (dm_net_input acc)"
    using merged_positive [OF f(1) assms(2)] merged_bounds [OF f(1)] f by simp_all
  then have pos: "dm_net_input acc \<noteq> 0" "dm_net_output acc \<noteq> 0" "dm_gross_output acc \<noteq> 0"
    "dm_dex_fee acc \<le> dm_net_input acc"
    by (auto simp: word_le_nat_alt)
  from tok pos merged_delta_conserves [OF assms] show ?thesis
    unfolding delta_ok_def by (simp add: merged_delta_def)
qed

lemma aggregate_iff:
  "aggregate ds = Inr t \<longleftrightarrow> ds \<noteq> [] \<and>
     (\<exists>acc. sum_deltas (nd_token_in (hd ds)) (nd_token_out (hd ds)) no_sums ds = Inr acc \<and>
        t = merged_delta (nd_token_in (hd ds)) (nd_token_out (hd ds)) acc)"
proof (cases ds)
  case (Cons d ds')
  let ?s = "sum_deltas (nd_token_in d) (nd_token_out d) no_sums ds"
  have "aggregate ds = bindR ?s (\<lambda>acc. validated_delta (merged_delta (nd_token_in d) (nd_token_out d) acc))"
    unfolding aggregate_def merged_delta_def Cons Let_def by simp
  then show ?thesis
    using merged_delta_ok [of "nd_token_in d" "nd_token_out d" ds] Cons
    by (auto simp: bindR_Inr_iff validated_delta_iff simp del: sum_deltas.simps)
qed (simp add: aggregate_def)

lemma aggregate_total:
  assumes "ds \<noteq> []" and "mergeable (nd_token_in (hd ds)) (nd_token_out (hd ds)) ds"
    and "(\<Sum>d \<leftarrow> ds. unat (aa_amount (nd_net_input d))) < 2 ^ 128"
    and "(\<Sum>d \<leftarrow> ds. unat (aa_amount (nd_gross_output d))) < 2 ^ 128"
  shows "\<exists>t. aggregate ds = Inr t"
proof -
  note b = merged_bounds [OF assms(2)]
  obtain x where x: "set (tax_assets ds) \<subseteq> {x}" using mergeable_tax_side [OF assms(2)] by blast
  have "max (\<Sum>d \<leftarrow> ds. unat (aa_amount (nd_net_input d))) (\<Sum>d \<leftarrow> ds. unat (aa_amount (nd_gross_output d))) < 2 ^ 128"
    using assms(3,4) by simp
  note small = le_less_trans [OF b(1) assms(3)] le_less_trans [OF b(2) assms(4)] le_less_trans [OF b(3) this]
  have "\<exists>acc. sum_deltas (nd_token_in (hd ds)) (nd_token_out (hd ds)) no_sums ds = Inr acc"
    by (rule sum_deltas_total [OF mergeableD [OF assms(2)] _ _ _ _ _ x])
      (use assms(3,4) small in \<open>simp_all add: no_sums_def\<close>)
  with assms(1) show ?thesis unfolding aggregate_iff by blast
qed

lemma aggregate_sums:
  assumes "aggregate ds = Inr t"
  shows "delta_ok t \<and> mergeable (nd_token_in t) (nd_token_out t) ds \<and>
    unat (aa_amount (nd_net_input t)) = (\<Sum>d \<leftarrow> ds. unat (aa_amount (nd_net_input d))) \<and>
    unat (aa_amount (nd_gross_output t)) = (\<Sum>d \<leftarrow> ds. unat (aa_amount (nd_gross_output d))) \<and>
    unat (aa_amount (nd_net_output t)) = (\<Sum>d \<leftarrow> ds. unat (aa_amount (nd_net_output d))) \<and>
    amount_of (nd_dex_fee t) = (\<Sum>d \<leftarrow> ds. amount_of (nd_dex_fee d)) \<and>
    amount_of (nd_tax_cost t) = (\<Sum>d \<leftarrow> ds. amount_of (nd_tax_cost d))"
proof -
  let ?i = "nd_token_in (hd ds)" and ?o = "nd_token_out (hd ds)"
  obtain acc where acc: "ds \<noteq> []" "sum_deltas ?i ?o no_sums ds = Inr acc" "t = merged_delta ?i ?o acc"
    using assms unfolding aggregate_iff by blast
  note f = sum_deltas_facts [OF acc(2)]
  have fee: "amount_of (nd_dex_fee t) = unat (dm_dex_fee acc)" by (simp add: acc(3) merged_delta_fee)
  have "unat (dm_tax_total acc) = 0" if "tax_assets ds = []"
  proof -
    have "amount_of (nd_tax_cost d) = 0" if "d \<in> set ds" for d
      using tax_assets_sub [OF that] \<open>tax_assets ds = []\<close> by (cases "nd_tax_cost d") simp_all
    then show ?thesis using f(6) by (simp add: sum_list_eq_0_iff)
  qed
  then have tax: "amount_of (nd_tax_cost t) = unat (dm_tax_total acc)"
    using f(7) by (cases "tax_assets ds") (simp_all add: acc(3) merged_delta_def)
  show ?thesis
    unfolding fee tax using merged_delta_ok [OF acc(2,1)] f by (simp add: acc(3)) (simp add: merged_delta_def)
qed

section \<open>Properties\<close>

definition sample_net_delta :: "u128 \<Rightarrow> u128 \<Rightarrow> u128 \<Rightarrow> net_delta" where
  "sample_net_delta amount gross tax =
     \<lparr>nd_token_in = sample_in, nd_token_out = sample_out,
      nd_net_input = \<lparr>aa_asset = sample_in, aa_amount = amount\<rparr>,
      nd_gross_output = \<lparr>aa_asset = sample_out, aa_amount = gross\<rparr>,
      nd_net_output = \<lparr>aa_asset = sample_out, aa_amount = gross - tax\<rparr>,
      nd_dex_fee = Some \<lparr>aa_asset = sample_in, aa_amount = 1\<rparr>,
      nd_tax_cost = nonzero \<lparr>aa_asset = sample_out, aa_amount = tax\<rparr>\<rparr>"

text \<open>C17. The aggregation of branch deltas is exact and total: it succeeds exactly when there is a branch, every
  branch is valid, all share one pair of tokens and one denomination of tax, and the inputs and the gross outputs fit
  128 bits. The total is then valid, and its input, gross and net output, fee and tax are the sums of those of the
  branches. The other overflow checks and the validation of the total never fail.\<close>

theorem aggregate_exact:
  "((\<exists>t. aggregate ds = Inr t) \<longleftrightarrow> ds \<noteq> [] \<and> mergeable (nd_token_in (hd ds)) (nd_token_out (hd ds)) ds \<and>
     (\<Sum>d \<leftarrow> ds. unat (aa_amount (nd_net_input d))) < 2 ^ 128 \<and>
     (\<Sum>d \<leftarrow> ds. unat (aa_amount (nd_gross_output d))) < 2 ^ 128) \<and>
   (aggregate ds = Inr t \<longrightarrow>
     delta_ok t \<and> mergeable (nd_token_in t) (nd_token_out t) ds \<and>
     unat (aa_amount (nd_net_input t)) = (\<Sum>d \<leftarrow> ds. unat (aa_amount (nd_net_input d))) \<and>
     unat (aa_amount (nd_gross_output t)) = (\<Sum>d \<leftarrow> ds. unat (aa_amount (nd_gross_output d))) \<and>
     unat (aa_amount (nd_net_output t)) = (\<Sum>d \<leftarrow> ds. unat (aa_amount (nd_net_output d))) \<and>
     amount_of (nd_dex_fee t) = (\<Sum>d \<leftarrow> ds. amount_of (nd_dex_fee d)) \<and>
     amount_of (nd_tax_cost t) = (\<Sum>d \<leftarrow> ds. amount_of (nd_tax_cost d)))"
proof -
  have "ds \<noteq> [] \<and> mergeable (nd_token_in (hd ds)) (nd_token_out (hd ds)) ds \<and>
     (\<Sum>d \<leftarrow> ds. unat (aa_amount (nd_net_input d))) < 2 ^ 128 \<and>
     (\<Sum>d \<leftarrow> ds. unat (aa_amount (nd_gross_output d))) < 2 ^ 128" if "aggregate ds = Inr t" for t
  proof -
    note s = aggregate_sums [OF that]
    have t: "nd_token_in t = nd_token_in (hd ds)" "nd_token_out t = nd_token_out (hd ds)" "ds \<noteq> []"
      using that by (auto simp: aggregate_iff merged_delta_def)
    from s u128_bound [of "aa_amount (nd_net_input t)"] u128_bound [of "aa_amount (nd_gross_output t)"]
    show ?thesis unfolding t by (simp add: t)
  qed
  with aggregate_total aggregate_sums show ?thesis by blast
qed

theorem aggregate_exact_witness:
  "\<exists>t. aggregate [sample_net_delta 60 41 1, sample_net_delta 40 21 0] = Inr t \<and> unat (aa_amount (nd_net_input t)) = 100 \<and>
     unat (aa_amount (nd_net_output t)) = 61 \<and> amount_of (nd_dex_fee t) = 2 \<and> amount_of (nd_tax_cost t) = 1"
proof -
  let ?ds = "[sample_net_delta 60 41 1, sample_net_delta 40 21 0]"
  have "mergeable (nd_token_in (hd ?ds)) (nd_token_out (hd ?ds)) ?ds"
    by (simp add: mergeable_def sample_net_delta_def delta_ok_def delta_conserves_def nonzero_def sample_in_def sample_out_def)
  then have "\<exists>t. aggregate ?ds = Inr t" using aggregate_exact [of ?ds] by (simp add: sample_net_delta_def)
  then obtain t where t: "aggregate ?ds = Inr t" ..
  with aggregate_exact [of ?ds t] show ?thesis by (simp add: sample_net_delta_def)
qed
end
