(* ===== verification/Delta_Preview.thy ===== *)
theory Delta_Preview
  imports Net_Delta Exec_Preview
begin

text \<open>
  From a net delta to a validated preview (\<open>crates/execution-preview/src/lib.rs\<close>): the preview built from a
  delta, its validation against intent, route or split plan, and against the tax assessment that must explain the tax
  of the delta.
\<close>

section \<open>Validated previews\<close>

definition build_execution_preview ::
  "trade_intent \<Rightarrow> net_delta \<Rightarrow> freshness_status \<Rightarrow> bridge_error + execution_preview" where
  "build_execution_preview intent d local_state_freshness =
     bindR (delta_validate_net d) (\<lambda>_.
     if asset_chain (nd_token_in d) \<noteq> ti_chain intent \<or> asset_chain (nd_token_out d) \<noteq> ti_chain intent
     then Inl BR_ChainMismatch
     else if nd_token_in d \<noteq> ti_token_in intent then Inl BR_InputAssetMismatch
     else if nd_token_out d \<noteq> ti_token_out intent then Inl BR_OutputAssetMismatch
     else if (case nd_tax_cost d of
                None \<Rightarrow> False
              | Some tax \<Rightarrow> aa_asset tax \<noteq> (case ti_side intent of Buy \<Rightarrow> nd_token_out d | Sell \<Rightarrow> nd_token_in d))
     then Inl BR_DirectionMismatch
     else Inr \<lparr>ep_intent_id = ti_id intent, ep_chain = ti_chain intent, ep_token_in = nd_token_in d,
               ep_token_out = nd_token_out d, ep_side = ti_side intent, ep_simulated_net_input = nd_net_input d,
               ep_simulated_net_output = nd_net_output d, ep_gross_output = nd_gross_output d,
               ep_cost_components = \<lparr>ec_gas_cost = None, ec_dex_fee = nd_dex_fee d, ec_provider_fee = None,
                 ec_tax_cost = nd_tax_cost d\<rparr>,
               ep_local_state_freshness = local_state_freshness\<rparr>)"

definition validate_delta_preview ::
  "trade_intent \<Rightarrow> route_plan \<Rightarrow> net_delta \<Rightarrow> i64 \<Rightarrow> bridge_error + execution_preview" where
  "validate_delta_preview intent route d now_ms =
     bindR (map_err (\<lambda>_. BR_FreshnessUnavailable)
       (evaluate_freshness default_freshness_policy (fr_observed_at_ms (rp_state route)) now_ms
          (fr_sequence (rp_state route)) False)) (\<lambda>meta.
     bindR (build_execution_preview intent d (fm_status meta)) (\<lambda>preview.
     map_err BR_Domain (preview_validate preview intent route now_ms)))"

text \<open>The tax that an assessment implies for an amount; none when it is zero.\<close>

definition implied_tax :: "asset_id \<Rightarrow> u128 \<Rightarrow> bps \<Rightarrow> bridge_error + asset_amount option" where
  "implied_tax asset amount bps =
     bindR (floor_bps amount bps) (\<lambda>expected.
     Inr (if expected = 0 then None else Some \<lparr>aa_asset = asset, aa_amount = expected\<rparr>))"

text \<open>Whether the tax of a delta is the one the assessment implies for its side.\<close>

definition delta_taxed_as :: "trade_intent \<Rightarrow> tax_assessment \<Rightarrow> net_delta \<Rightarrow> bridge_error + unit" where
  "delta_taxed_as intent assessment d =
     bindR (case ti_side intent of
              Buy \<Rightarrow> implied_tax (ti_token_out intent) (aa_amount (nd_gross_output d)) (ta_buy_tax assessment)
            | Sell \<Rightarrow> implied_tax (ti_token_in intent) (aa_amount (nd_net_input d)) (ta_sell_tax assessment))
       (\<lambda>expected_cost. if nd_tax_cost d \<noteq> expected_cost then Inl BR_AssessmentDeltaMismatch else Inr ())"

definition assessment_applies :: "trade_intent \<Rightarrow> tax_assessment \<Rightarrow> bridge_error + unit" where
  "assessment_applies intent assessment =
     (if ta_assessed_asset assessment \<noteq> (case ti_side intent of Buy \<Rightarrow> ti_token_out intent | Sell \<Rightarrow> ti_token_in intent)
      then Inl BR_AssessedAssetMismatch else Inr ())"

definition tax_within_cap :: "trade_intent \<Rightarrow> tax_assessment \<Rightarrow> bridge_error + unit" where
  "tax_within_cap intent assessment =
     (if (case ti_side intent of
            Buy \<Rightarrow> max_buy_tax (ti_risk intent) < ta_buy_tax assessment
          | Sell \<Rightarrow> max_sell_tax (ti_risk intent) < ta_sell_tax assessment)
      then Inl BR_TaxCapExceeded else Inr ())"

definition validate_delta_preview_with_assessment ::
  "trade_intent \<Rightarrow> route_plan \<Rightarrow> net_delta \<Rightarrow> tax_assessment \<Rightarrow> i64 \<Rightarrow> bridge_error + execution_preview" where
  "validate_delta_preview_with_assessment intent route d assessment now_ms =
     (if fm_status (ta_freshness assessment) \<noteq> FS_Fresh then Inl BR_FreshnessUnavailable
      else if ta_chain assessment \<noteq> ti_chain intent then Inl BR_ChainMismatch
      else
        bindR (assessment_applies intent assessment) (\<lambda>_.
        bindR (delta_taxed_as intent assessment d) (\<lambda>_.
        bindR (tax_within_cap intent assessment) (\<lambda>_.
        validate_delta_preview intent route d now_ms))))"

text \<open>The branch binding of a split: each delta spends the budget of its leg and gives the output of its route.\<close>

definition branch_bound :: "net_delta \<times> split_leg \<Rightarrow> bridge_error + unit" where
  "branch_bound p =
     (case p of (d, leg) \<Rightarrow>
        if aa_amount (nd_net_input d) \<noteq> sl_amount_in leg
        then Inl (BR_NetDeltaInconsistent ''split branch delta input does not equal its gross budget'')
        else if nd_net_output d \<noteq> rp_expected_net_output (sl_route leg)
        then Inl (BR_NetDeltaInconsistent ''split branch delta output does not equal its route expected output'')
        else Inr ())"

definition validate_split_delta_preview ::
  "trade_intent \<Rightarrow> split_plan \<Rightarrow> net_delta list \<Rightarrow> i64 \<Rightarrow> bridge_error + execution_preview" where
  "validate_split_delta_preview intent split branch_deltas now_ms =
     (if length branch_deltas \<noteq> length (sp_legs split)
      then Inl (BR_NetDeltaInconsistent ''split requires one branch delta per leg'')
      else
        bindR (aggregate branch_deltas) (\<lambda>total_delta.
        bindR (for_each branch_bound (zip branch_deltas (sp_legs split))) (\<lambda>_.
        bindR (map_err (\<lambda>_. BR_FreshnessUnavailable)
          (evaluate_freshness default_freshness_policy (fr_observed_at_ms (sp_state split)) now_ms
             (fr_sequence (sp_state split)) False)) (\<lambda>meta.
        bindR (build_execution_preview intent total_delta (fm_status meta)) (\<lambda>preview.
        map_err BR_Domain (preview_validate_split preview intent split now_ms))))))"

definition validate_split_delta_preview_with_assessment ::
  "trade_intent \<Rightarrow> split_plan \<Rightarrow> net_delta list \<Rightarrow> tax_assessment \<Rightarrow> i64 \<Rightarrow> bridge_error + execution_preview" where
  "validate_split_delta_preview_with_assessment intent split branch_deltas assessment now_ms =
     (if fm_status (ta_freshness assessment) \<noteq> FS_Fresh then Inl BR_FreshnessUnavailable
      else if ta_chain assessment \<noteq> ti_chain intent then Inl BR_ChainMismatch
      else if length branch_deltas \<noteq> length (sp_legs split)
      then Inl (BR_NetDeltaInconsistent ''split requires one branch delta per leg'')
      else
        bindR (assessment_applies intent assessment) (\<lambda>_.
        bindR (for_each (delta_taxed_as intent assessment) branch_deltas) (\<lambda>_.
        bindR (tax_within_cap intent assessment) (\<lambda>_.
        validate_split_delta_preview intent split branch_deltas now_ms))))"

section \<open>Previews from deltas\<close>

lemma build_execution_preview_Inr:
  assumes "build_execution_preview intent d fresh = Inr p"
  shows "delta_ok d \<and> ep_simulated_net_input p = nd_net_input d \<and> ep_simulated_net_output p = nd_net_output d \<and>
    ep_gross_output p = nd_gross_output d \<and> ec_tax_cost (ep_cost_components p) = nd_tax_cost d \<and>
    ec_dex_fee (ep_cost_components p) = nd_dex_fee d \<and> nd_token_in d = ti_token_in intent \<and>
    nd_token_out d = ti_token_out intent"
  using assms unfolding build_execution_preview_def bindR_Inr_iff if_Inl_Inr_iff delta_validate_net_iff
  by (elim exE conjE) auto

text \<open>The tax of an intent's side, as numbers: what the assessment implies for a delta.\<close>

definition assessed_rate :: "trade_intent \<Rightarrow> tax_assessment \<Rightarrow> bps" where
  "assessed_rate intent a = (case ti_side intent of Buy \<Rightarrow> ta_buy_tax a | Sell \<Rightarrow> ta_sell_tax a)"

definition rate_cap :: "trade_intent \<Rightarrow> bps" where
  "rate_cap intent = (case ti_side intent of Buy \<Rightarrow> max_buy_tax (ti_risk intent) | Sell \<Rightarrow> max_sell_tax (ti_risk intent))"

definition taxed_amount :: "trade_intent \<Rightarrow> net_delta \<Rightarrow> nat" where
  "taxed_amount intent d =
     (case ti_side intent of Buy \<Rightarrow> unat (aa_amount (nd_gross_output d)) | Sell \<Rightarrow> unat (aa_amount (nd_net_input d)))"

text \<open>The delta carries exactly the assessed tax, in the assessed asset.\<close>

definition taxed_exactly :: "trade_intent \<Rightarrow> tax_assessment \<Rightarrow> net_delta \<Rightarrow> bool" where
  "taxed_exactly intent a d \<longleftrightarrow>
     amount_of (nd_tax_cost d) = taxed_amount intent d * unat (assessed_rate intent a) div 10000 \<and>
     (\<forall>tax. nd_tax_cost d = Some tax \<longrightarrow> aa_asset tax = assessed_asset_for_intent intent \<and> aa_amount tax \<noteq> 0)"

lemma implied_tax_iff:
  assumes "bps \<le> BPS_MAX"
  shows "implied_tax asset amount bps = Inr c \<longleftrightarrow>
    amount_of c = unat amount * unat bps div 10000 \<and> (\<forall>tax. c = Some tax \<longrightarrow> aa_asset tax = asset \<and> aa_amount tax \<noteq> 0)"
proof -
  obtain tax where l: "tax_floor amount (ucast bps) = Some tax" "unat tax = unat amount * unat bps div 10000"
    using levy [OF assms] by metis
  have e: "implied_tax asset amount bps = Inr (if tax = 0 then None else Some \<lparr>aa_asset = asset, aa_amount = tax\<rparr>)"
    by (simp add: implied_tax_def floor_bps_def l)
  show ?thesis
  proof (cases c)
    case None
    then show ?thesis by (simp add: e unat_gt_0 flip: l(2))
  next
    case (Some t)
    have "t = \<lparr>aa_asset = asset, aa_amount = tax\<rparr> \<longleftrightarrow> aa_asset t = asset \<and> aa_amount t = tax"
      by (cases t) simp
    then show ?thesis unfolding e Some by (auto simp: word_unat_eq_iff simp flip: l(2))
  qed
qed

lemma delta_taxed_as_iff:
  assumes "assessed_rate intent a \<le> BPS_MAX"
  shows "delta_taxed_as intent a d = Inr () \<longleftrightarrow> taxed_exactly intent a d"
  using assms
  by (cases "ti_side intent")
    (simp_all add: delta_taxed_as_def taxed_exactly_def bindR_Inr_iff implied_tax_iff assessed_rate_def taxed_amount_def
      assessed_asset_for_intent_def)

lemma assessment_applies_iff [result_iff]:
  "assessment_applies intent a = Inr u \<longleftrightarrow> ta_assessed_asset a = assessed_asset_for_intent intent"
  by (simp add: assessment_applies_def assessed_asset_for_intent_def)

lemma tax_within_cap_iff [result_iff]: "tax_within_cap intent a = Inr u \<longleftrightarrow> assessed_rate intent a \<le> rate_cap intent"
  by (cases "ti_side intent") (auto simp: tax_within_cap_def assessed_rate_def rate_cap_def not_less)

lemma map_eq_zip:
  "length xs = length ys \<Longrightarrow> \<forall>(x, y) \<in> set (zip xs ys). f x = g y \<Longrightarrow> map f xs = map g ys"
  by (induction xs ys rule: list_induct2) auto

lemma validate_delta_preview_Inr:
  assumes "validate_delta_preview intent route d now_ms = Inr p"
  obtains fresh where "build_execution_preview intent d fresh = Inr p" and "preview_validate p intent route now_ms = Inr p"
proof -
  from assms obtain fresh q where q: "build_execution_preview intent d fresh = Inr q"
    "preview_validate q intent route now_ms = Inr p"
    unfolding validate_delta_preview_def bindR_Inr_iff map_err_Inr_iff by blast
  then have "p = q" by (auto simp: preview_validate_def bindR_Inr_iff dest: limit_check_Inr)
  with q that show thesis by blast
qed

lemma validate_split_delta_preview_Inr:
  assumes "validate_split_delta_preview intent split ds now_ms = Inr p"
  obtains t fresh where "length ds = length (sp_legs split)" and "aggregate ds = Inr t"
    and "\<forall>(d, leg) \<in> set (zip ds (sp_legs split)). aa_amount (nd_net_input d) = sl_amount_in leg \<and>
      nd_net_output d = rp_expected_net_output (sl_route leg)"
    and "build_execution_preview intent t fresh = Inr p" and "preview_validate_split p intent split now_ms = Inr p"
proof -
  from assms obtain t fresh q where q: "length ds = length (sp_legs split)" "aggregate ds = Inr t"
    "for_each branch_bound (zip ds (sp_legs split)) = Inr ()" "build_execution_preview intent t fresh = Inr q"
    "preview_validate_split q intent split now_ms = Inr p"
    unfolding validate_split_delta_preview_def bindR_Inr_iff map_err_Inr_iff if_Inl_Inr_iff by auto
  then have "p = q" by (auto simp: preview_validate_split_def bindR_Inr_iff dest: limit_check_Inr)
  moreover have "\<forall>(d, leg) \<in> set (zip ds (sp_legs split)). aa_amount (nd_net_input d) = sl_amount_in leg \<and>
      nd_net_output d = rp_expected_net_output (sl_route leg)"
    using q(3) by (auto simp: for_each_Inr_iff branch_bound_def split: if_splits dest!: bspec)
  ultimately show thesis using q that by blast
qed

lemma preview_validate_sound:
  assumes "preview_validate p intent route now_ms = Inr p" and "now_ms < 2 ^ 63"
  shows "preview_sound p intent \<and> rp_expected_net_output route = ep_simulated_net_output p \<and>
    state_current (rp_state route) now_ms"
proof -
  from assms(1) have v: "preview_validate_internal p = Inr ()" "intent_binding p intent = Inr ()"
    "validate_intent_risk_and_amount p intent = Inr ()" "limit_check p intent = Inr p" "route_binding p route = Inr ()"
    "validate_aggregate_freshness p (rp_state route) now_ms = Inr ()"
    by (simp_all add: preview_validate_def bindR_Inr_iff)
  from preview_soundI [OF v(1-4)] route_binding_Inr [OF v(5)] aggregate_freshness_current [OF v(6) assms(2)]
  show ?thesis by blast
qed

lemma preview_validate_split_sound:
  assumes "preview_validate_split p intent split now_ms = Inr p" and "now_ms < 2 ^ 63"
  shows "preview_sound p intent \<and> state_current (sp_state split) now_ms"
proof -
  from assms(1) have v: "preview_validate_internal p = Inr ()" "intent_binding p intent = Inr ()"
    "validate_intent_risk_and_amount p intent = Inr ()" "limit_check p intent = Inr p"
    "validate_aggregate_freshness p (sp_state split) now_ms = Inr ()"
    by (simp_all add: preview_validate_split_def bindR_Inr_iff)
  from preview_soundI [OF v(1-4)] aggregate_freshness_current [OF v(5) assms(2)] show ?thesis by blast
qed

text \<open>The quotes of the constant-product simulator, taxed or not, always normalise.\<close>

lemma quote_assets:
  assumes "swap_ready pool t t_out"
  shows "t \<noteq> token_out_of pool t" and "asset_chain t = asset_chain (token_out_of pool t)"
proof -
  have ok: "cpmm_validate pool = Inr ()" and t: "t = cp_token_0 pool \<or> t = cp_token_1 pool"
    using assms by (simp_all add: swap_ready_def)
  have "cp_token_0 pool \<noteq> cp_token_1 pool"
    using assms by (auto simp: swap_ready_def cpmm_validate_def pool_tokens_validate_def result_iff split: if_splits)
  with t validate_same_chain [OF ok] show "t \<noteq> token_out_of pool t" "asset_chain t = asset_chain (token_out_of pool t)"
    by (auto simp: token_out_of_def)
qed

lemma quote_delta_facts:
  assumes "simulate_cpmm_exact_input pool req = Inr q"
  shows "cq_input q = \<lparr>aa_asset = ei_token_in req, aa_amount = ei_amount_in req\<rparr>"
    and "ei_amount_in req \<noteq> 0" and "aa_amount (cq_output q) \<noteq> 0"
    and "ei_token_in req \<noteq> aa_asset (cq_output q)"
    and "asset_chain (ei_token_in req) = asset_chain (aa_asset (cq_output q))"
    and "aa_asset (cq_pool_fee q) = ei_token_in req" and "aa_amount (cq_pool_fee q) \<le> ei_amount_in req"
proof -
  from assms obtain r where r: "swap_ready pool (ei_token_in req) (ei_token_out req)" "ei_amount_in req \<noteq> 0"
    "swap_result_of pool (ei_token_in req) (ei_amount_in req) = Inr r"
    "q = quote_of pool (ei_token_in req) (ei_amount_in req) r"
    by (rule exact_input_Inr)
  note v = quote_values [OF r(1,3), folded r(4)]
  show "cq_input q = \<lparr>aa_asset = ei_token_in req, aa_amount = ei_amount_in req\<rparr>" by (simp add: r(4) quote_of_input)
  show "ei_amount_in req \<noteq> 0" by (rule r(2))
  show "aa_amount (cq_output q) \<noteq> 0" using v(3,7) by auto
  show "ei_token_in req \<noteq> aa_asset (cq_output q)"
    "asset_chain (ei_token_in req) = asset_chain (aa_asset (cq_output q))"
    using quote_assets [OF r(1)] by (simp_all add: r(4) quote_reserves)
  show "aa_asset (cq_pool_fee q) = ei_token_in req" by (simp add: r(4) quote_of_def case_prod_beta)
  show "aa_amount (cq_pool_fee q) \<le> ei_amount_in req" using v(1,9) by (simp add: word_le_nat_alt)
qed

lemma nonzero_cases: "(case nonzero a of None \<Rightarrow> P | Some x \<Rightarrow> Q x) = (if aa_amount a = 0 then P else Q a)"
  by (simp add: nonzero_def)

lemma levied_taxed:
  assumes "assessed_rate intent a \<le> BPS_MAX" and "levied (assessed_rate intent a) g tax net"
    and "unat (aa_amount g) = taxed_amount intent d" and "aa_asset g = assessed_asset_for_intent intent"
    and "nd_tax_cost d = nonzero tax"
  shows "delta_taxed_as intent a d = Inr ()"
  unfolding delta_taxed_as_iff [OF assms(1)] taxed_exactly_def
  using assms by (auto simp: levied_def nonzero_def split: if_splits)

lemma from_cpmm_total:
  assumes "simulate_cpmm_exact_input pool req = Inr q"
  shows "\<exists>d. from_cpmm q = Inr d \<and> nd_net_input d = cq_input q \<and> nd_net_output d = cq_output q"
  using quote_delta_facts [OF assms]
  by (auto simp: from_cpmm_def validated_delta_iff delta_ok_def delta_conserves_def nonzero_cases)

lemma from_tax_aware_buy_total:
  assumes "simulate_tax_aware_cpmm_buy_exact_input pool req a = Inr q" and "ta_buy_tax a \<le> BPS_MAX"
  shows "\<exists>d. from_tax_aware_cpmm_buy q = Inr d \<and> nd_net_input d = cq_input (tb_cpmm_quote q) \<and>
    nd_gross_output d = cq_output (tb_cpmm_quote q) \<and> nd_net_output d = bt_net_output (tb_tax_output q) \<and>
    nd_tax_cost d = nonzero (bt_tax_cost (tb_tax_output q)) \<and>
    levied (ta_buy_tax a) (nd_gross_output d) (bt_tax_cost (tb_tax_output q)) (nd_net_output d) \<and>
    nd_token_out d = aa_asset (cq_output (tb_cpmm_quote q))"
proof -
  have sim: "simulate_cpmm_exact_input pool req = Inr (tb_cpmm_quote q)"
    and tax: "bt_gross_output (tb_tax_output q) = cq_output (tb_cpmm_quote q)"
      "levied (ta_buy_tax a) (cq_output (tb_cpmm_quote q)) (bt_tax_cost (tb_tax_output q)) (bt_net_output (tb_tax_output q))"
    using assms(1) by (simp_all add: tax_aware_buy_Inr apply_buy_tax_iff [OF assms(2)])
  from quote_delta_facts [OF sim] tax show ?thesis
    by (auto simp: from_tax_aware_cpmm_buy_def validated_delta_iff delta_ok_def delta_conserves_def nonzero_cases levied_def
        word_unat_eq_iff)
qed

lemma from_tax_aware_sell_total:
  assumes "simulate_tax_aware_cpmm_sell_exact_input pool req a = Inr q" and "ta_sell_tax a \<le> BPS_MAX"
  shows "\<exists>d. from_tax_aware_cpmm_sell q = Inr d \<and>
    nd_net_input d = \<lparr>aa_asset = ei_token_in req, aa_amount = ei_amount_in req\<rparr> \<and>
    nd_net_output d = cq_output (tl_cpmm_quote q) \<and> nd_tax_cost d = nonzero (si_tax_cost (tl_tax_input q)) \<and>
    levied (ta_sell_tax a) (nd_net_input d) (si_tax_cost (tl_tax_input q)) (cq_input (tl_cpmm_quote q)) \<and>
    nd_token_in d = ei_token_in req"
proof -
  let ?g = "\<lparr>aa_asset = ei_token_in req, aa_amount = ei_amount_in req\<rparr>"
  let ?net = "si_net_transferable_input (tl_tax_input q)"
  have sim: "simulate_cpmm_exact_input pool (req\<lparr>ei_amount_in := aa_amount ?net\<rparr>) = Inr (tl_cpmm_quote q)"
    and tax: "si_gross_input (tl_tax_input q) = ?g" "levied (ta_sell_tax a) ?g (si_tax_cost (tl_tax_input q)) ?net"
    using assms(1) by (simp_all add: tax_aware_sell_Inr apply_sell_tax_iff [OF assms(2)])
  note f = quote_delta_facts [OF sim, simplified]
  have input: "cq_input (tl_cpmm_quote q) = ?net" using f(1) levied_amounts [OF tax(2)] by simp
  have "unat (aa_amount (si_tax_cost (tl_tax_input q))) + unat (aa_amount (cq_pool_fee (tl_cpmm_quote q)))
      \<le> unat (ei_amount_in req)" "unat (aa_amount (cq_pool_fee (tl_cpmm_quote q))) \<le> unat (ei_amount_in req)"
    "0 < unat (ei_amount_in req)" "aa_asset (si_tax_cost (tl_tax_input q)) = ei_token_in req"
    using tax(2) f(7) by (simp_all add: levied_def word_le_nat_alt)
  with f tax input show ?thesis
    by (auto simp: from_tax_aware_cpmm_sell_def validated_delta_iff delta_ok_def delta_conserves_def nonzero_cases
        word_le_nat_alt)
qed

section \<open>Assessed previews\<close>

text \<open>A preview validated together with a tax assessment is sound and exactly taxed: it is safe for the intent as
  a validated preview is, its amounts are those of a valid delta, the route delivers its net output and its state is
  current; the assessment is fresh, for the asset and the chain of the intent and within the cap of the intent, and
  the tax of the delta is exactly the assessed rate of the gross output of a buy or of the input of a sell, rounded
  down.\<close>

lemma assessed_preview_sound:
  assumes "validate_delta_preview_with_assessment intent route d a now_ms = Inr p"
    and "assessed_rate intent a \<le> BPS_MAX" and "now_ms < 2 ^ 63"
  shows "preview_sound p intent \<and> delta_ok d \<and> ep_simulated_net_input p = nd_net_input d \<and>
    ep_simulated_net_output p = nd_net_output d \<and> rp_expected_net_output route = nd_net_output d \<and>
    state_current (rp_state route) now_ms \<and> fm_status (ta_freshness a) = FS_Fresh \<and> ta_chain a = ti_chain intent \<and>
    ta_assessed_asset a = assessed_asset_for_intent intent \<and> taxed_exactly intent a d \<and>
    assessed_rate intent a \<le> rate_cap intent"
proof -
  from assms(1) have c: "fm_status (ta_freshness a) = FS_Fresh" "ta_chain a = ti_chain intent"
    "ta_assessed_asset a = assessed_asset_for_intent intent" "taxed_exactly intent a d"
    "assessed_rate intent a \<le> rate_cap intent"
    and v: "validate_delta_preview intent route d now_ms = Inr p"
    unfolding validate_delta_preview_with_assessment_def bindR_Inr_iff if_Inl_Inr_iff assessment_applies_iff
      tax_within_cap_iff by (auto simp: delta_taxed_as_iff [OF assms(2)])
  from v obtain fresh where "build_execution_preview intent d fresh = Inr p"
    "preview_validate p intent route now_ms = Inr p" by (rule validate_delta_preview_Inr)
  from build_execution_preview_Inr [OF this(1)] preview_validate_sound [OF this(2) assms(3)] c show ?thesis by simp
qed

text \<open>A split preview validated together with a tax assessment conserves every branch: the preview is safe for the
  intent and the state of the plan is current; there is one delta per leg, which spends exactly the budget of the leg,
  delivers exactly the output of its route and carries exactly the assessed tax; and the input and the net output of
  the preview are the sums over the branches.\<close>

lemma assessed_split_conserves:
  assumes "validate_split_delta_preview_with_assessment intent split ds a now_ms = Inr p"
    and "assessed_rate intent a \<le> BPS_MAX" and "now_ms < 2 ^ 63"
  shows "preview_sound p intent \<and> state_current (sp_state split) now_ms \<and> length ds = length (sp_legs split) \<and>
    (\<forall>(d, leg) \<in> set (zip ds (sp_legs split)). delta_ok d \<and> taxed_exactly intent a d \<and>
      aa_amount (nd_net_input d) = sl_amount_in leg \<and> nd_net_output d = rp_expected_net_output (sl_route leg)) \<and>
    unat (aa_amount (ep_simulated_net_input p)) = (\<Sum>leg \<leftarrow> sp_legs split. unat (sl_amount_in leg)) \<and>
    unat (aa_amount (ep_simulated_net_output p)) = (\<Sum>d \<leftarrow> ds. unat (aa_amount (nd_net_output d))) \<and>
    assessed_rate intent a \<le> rate_cap intent \<and>
    (\<exists>t. aggregate ds = Inr t \<and> ep_simulated_net_input p = nd_net_input t \<and> ep_simulated_net_output p = nd_net_output t)"
proof -
  from assms(1) have c: "\<forall>d \<in> set ds. taxed_exactly intent a d" "assessed_rate intent a \<le> rate_cap intent"
    and v: "validate_split_delta_preview intent split ds now_ms = Inr p"
    unfolding validate_split_delta_preview_with_assessment_def bindR_Inr_iff if_Inl_Inr_iff for_each_Inr_iff
      tax_within_cap_iff by (auto simp: delta_taxed_as_iff [OF assms(2)])
  from v obtain t fresh where t: "length ds = length (sp_legs split)" "aggregate ds = Inr t"
    "\<forall>(d, leg) \<in> set (zip ds (sp_legs split)). aa_amount (nd_net_input d) = sl_amount_in leg \<and>
      nd_net_output d = rp_expected_net_output (sl_route leg)"
    "build_execution_preview intent t fresh = Inr p" "preview_validate_split p intent split now_ms = Inr p"
    by (rule validate_split_delta_preview_Inr)
  note s = aggregate_sums [OF t(2)]
  have ok: "delta_ok d" if "d \<in> set ds" for d using s that by (auto simp: mergeable_def)
  have "map (\<lambda>d. unat (aa_amount (nd_net_input d))) ds = map (\<lambda>leg. unat (sl_amount_in leg)) (sp_legs split)"
    using t(3) by (intro map_eq_zip [OF t(1)]) auto
  then have "unat (aa_amount (ep_simulated_net_input p)) = (\<Sum>leg \<leftarrow> sp_legs split. unat (sl_amount_in leg))"
    "unat (aa_amount (ep_simulated_net_output p)) = (\<Sum>d \<leftarrow> ds. unat (aa_amount (nd_net_output d)))"
    using build_execution_preview_Inr [OF t(4)] s by simp_all
  moreover have "\<forall>(d, leg) \<in> set (zip ds (sp_legs split)). delta_ok d \<and> taxed_exactly intent a d \<and>
      aa_amount (nd_net_input d) = sl_amount_in leg \<and> nd_net_output d = rp_expected_net_output (sl_route leg)"
    using t(3) c(1) ok by (auto dest: set_zip_leftD)
  ultimately show ?thesis
    using preview_validate_split_sound [OF t(5) assms(3)] build_execution_preview_Inr [OF t(4)] t(1,2) c(2) by blast
qed

lemmas bridge_eval = validate_delta_preview_with_assessment_def assessment_applies_def delta_taxed_as_def implied_tax_def
  floor_bps_def tax_floor_def tax_within_cap_def validate_delta_preview_def build_execution_preview_def
  delta_validate_net_def amounts_consistent_def fee_consistent_def tax_consistent_def sample_assessment_def
  sample_net_delta_def nonzero_def checked_mul_def checked_sub_def

lemma sample_assessed:
  "\<exists>p. validate_delta_preview_with_assessment sample_intent sample_route (sample_net_delta 100 61 1)
     (sample_assessment sample_out) 1500 = Inr p"
  by (simp add: bridge_eval preview_validate_def sample_route_def sample_branch_def route_binding_def route_validate_def
      leg_validate_def preview_eval)

lemma sample_split_assessed:
  "\<exists>p. validate_split_delta_preview_with_assessment sample_intent sample_split [sample_net_delta 60 41 1, sample_net_delta 40 20 0]
     (sample_assessment sample_out) 1500 = Inr p"
proof -
  let ?ds = "[sample_net_delta 60 41 1, sample_net_delta 40 20 0]"
  let ?t = "\<lparr>nd_token_in = sample_in, nd_token_out = sample_out,
    nd_net_input = \<lparr>aa_asset = sample_in, aa_amount = 100\<rparr>, nd_gross_output = \<lparr>aa_asset = sample_out, aa_amount = 61\<rparr>,
    nd_net_output = \<lparr>aa_asset = sample_out, aa_amount = 60\<rparr>, nd_dex_fee = Some \<lparr>aa_asset = sample_in, aa_amount = 2\<rparr>,
    nd_tax_cost = Some \<lparr>aa_asset = sample_out, aa_amount = 1\<rparr>\<rparr>"
  have agg: "aggregate ?ds = Inr ?t"
    by (simp add: aggregate_def validated_delta_def add_delta_def add_tax_def no_sums_def bridge_eval checked_add_def
        Let_def sample_in_def sample_out_def)
  have leg: "sp_legs sample_split = [sample_branch ''p'' 60 40, sample_branch ''q'' 40 20]"
    by (simp add: sample_split_def)
  have "for_each branch_bound (zip ?ds (sp_legs sample_split)) = Inr ()"
    by (simp add: leg branch_bound_def sample_branch_def sample_net_delta_def)
  moreover have "\<exists>p. build_execution_preview sample_intent ?t FS_Fresh = Inr p \<and>
      preview_validate_split p sample_intent sample_split 1500 = Inr p"
  proof -
    have "split_binding p sample_split = Inr ()" if "aa_amount (ep_simulated_net_input p) = 100"
      "ep_simulated_net_output p = \<lparr>aa_asset = sample_out, aa_amount = 60\<rparr>" for p
      using that by (simp add: split_binding_def sample_split_def sample_branch_def checked_add_def)
    then show ?thesis
      by (simp add: bridge_eval preview_validate_split_def sample_split_valid)
        (simp add: sample_split_def preview_eval)
  qed
  moreover have "evaluate_freshness default_freshness_policy (fr_observed_at_ms (sp_state sample_split)) 1500
      (fr_sequence (sp_state sample_split)) False = Inr m \<Longrightarrow> fm_status m = FS_Fresh" for m
    by (simp add: sample_split_def preview_eval) auto
  moreover have "\<exists>m. evaluate_freshness default_freshness_policy (fr_observed_at_ms (sp_state sample_split)) 1500
      (fr_sequence (sp_state sample_split)) False = Inr m"
    by (simp add: sample_split_def preview_eval)
  ultimately have "\<exists>p. validate_split_delta_preview sample_intent sample_split ?ds 1500 = Inr p"
    by (auto simp: validate_split_delta_preview_def agg leg)
  then show ?thesis
    by (simp add: validate_split_delta_preview_with_assessment_def leg)
      (simp add: bridge_eval checked_add_def sample_intent_def sample_in_def sample_out_def sample_risk_def)
qed

section \<open>Properties\<close>

text \<open>C18. Simulation and bridge agree: every taxed quote of the constant-product simulator normalises to a valid delta,
  which debits exactly the requested input and delivers the net output of the quote, and whose tax is exactly what the
  assessment implies. So a taxed quote of the simulator is never refused for its own economics or its own tax.\<close>

theorem taxed_quotes_normalise:
  assumes "ta_buy_tax a \<le> BPS_MAX" and "ta_sell_tax a \<le> BPS_MAX"
  shows "(simulate_tax_aware_cpmm_buy_exact_input pool req a = Inr q \<longrightarrow>
      (\<exists>d. from_tax_aware_cpmm_buy q = Inr d \<and> nd_net_input d = \<lparr>aa_asset = ei_token_in req, aa_amount = ei_amount_in req\<rparr> \<and>
        nd_net_output d = bt_net_output (tb_tax_output q) \<and>
        (\<forall>intent. ti_side intent = Buy \<and> ti_token_out intent = nd_token_out d \<longrightarrow> delta_taxed_as intent a d = Inr ()))) \<and>
    (simulate_tax_aware_cpmm_sell_exact_input pool req a = Inr q' \<longrightarrow>
      (\<exists>d. from_tax_aware_cpmm_sell q' = Inr d \<and> nd_net_input d = \<lparr>aa_asset = ei_token_in req, aa_amount = ei_amount_in req\<rparr> \<and>
        nd_net_output d = cq_output (tl_cpmm_quote q') \<and>
        (\<forall>intent. ti_side intent = Sell \<and> ti_token_in intent = nd_token_in d \<longrightarrow> delta_taxed_as intent a d = Inr ())))"
proof (intro conjI impI)
  assume sim: "simulate_tax_aware_cpmm_buy_exact_input pool req a = Inr q"
  then have "simulate_cpmm_exact_input pool req = Inr (tb_cpmm_quote q)" by (simp add: tax_aware_buy_Inr)
  note input = quote_delta_facts(1) [OF this]
  obtain d where d: "from_tax_aware_cpmm_buy q = Inr d" "nd_net_input d = cq_input (tb_cpmm_quote q)"
    "nd_net_output d = bt_net_output (tb_tax_output q)" "nd_gross_output d = cq_output (tb_cpmm_quote q)"
    "nd_tax_cost d = nonzero (bt_tax_cost (tb_tax_output q))"
    "levied (ta_buy_tax a) (nd_gross_output d) (bt_tax_cost (tb_tax_output q)) (nd_net_output d)"
    "nd_token_out d = aa_asset (cq_output (tb_cpmm_quote q))"
    using from_tax_aware_buy_total [OF sim assms(1)] by blast
  have "delta_taxed_as intent a d = Inr ()" if "ti_side intent = Buy" "ti_token_out intent = nd_token_out d" for intent
    using that d(4-7) assms(1)
    by (intro levied_taxed [OF _ _ _ _ d(5), where g = "nd_gross_output d" and net = "nd_net_output d"])
      (simp_all add: assessed_rate_def taxed_amount_def assessed_asset_for_intent_def)
  with d(1-3) input show "\<exists>d. from_tax_aware_cpmm_buy q = Inr d \<and>
      nd_net_input d = \<lparr>aa_asset = ei_token_in req, aa_amount = ei_amount_in req\<rparr> \<and>
      nd_net_output d = bt_net_output (tb_tax_output q) \<and>
      (\<forall>intent. ti_side intent = Buy \<and> ti_token_out intent = nd_token_out d \<longrightarrow> delta_taxed_as intent a d = Inr ())"
    by auto
next
  assume sim: "simulate_tax_aware_cpmm_sell_exact_input pool req a = Inr q'"
  obtain d where d: "from_tax_aware_cpmm_sell q' = Inr d"
    "nd_net_input d = \<lparr>aa_asset = ei_token_in req, aa_amount = ei_amount_in req\<rparr>"
    "nd_net_output d = cq_output (tl_cpmm_quote q')" "nd_tax_cost d = nonzero (si_tax_cost (tl_tax_input q'))"
    "levied (ta_sell_tax a) (nd_net_input d) (si_tax_cost (tl_tax_input q')) (cq_input (tl_cpmm_quote q'))"
    "nd_token_in d = ei_token_in req"
    using from_tax_aware_sell_total [OF sim assms(2)] by blast
  have "delta_taxed_as intent a d = Inr ()" if "ti_side intent = Sell" "ti_token_in intent = nd_token_in d" for intent
    using that d(2,4-6) assms(2)
    by (intro levied_taxed [OF _ _ _ _ d(4), where g = "nd_net_input d" and net = "cq_input (tl_cpmm_quote q')"])
      (simp_all add: assessed_rate_def taxed_amount_def assessed_asset_for_intent_def)
  with d(1-3) show "\<exists>d. from_tax_aware_cpmm_sell q' = Inr d \<and>
      nd_net_input d = \<lparr>aa_asset = ei_token_in req, aa_amount = ei_amount_in req\<rparr> \<and>
      nd_net_output d = cq_output (tl_cpmm_quote q') \<and>
      (\<forall>intent. ti_side intent = Sell \<and> ti_token_in intent = nd_token_in d \<longrightarrow> delta_taxed_as intent a d = Inr ())"
    by auto
qed

theorem taxed_quotes_normalise_witness:
  "\<exists>q d. simulate_tax_aware_cpmm_buy_exact_input sample_pool (exact_input_new (cp_token_0 sample_pool) 1000)
      (sample_assessment (cp_token_1 sample_pool)) = Inr q \<and>
    from_tax_aware_cpmm_buy q = Inr d \<and> aa_amount (nd_net_input d) = 1000"
proof -
  let ?a = "sample_assessment (cp_token_1 sample_pool)" and ?req = "exact_input_new (cp_token_0 sample_pool) 1000"
  let ?q = "quote_of sample_pool (cp_token_0 sample_pool) 1000 (3, 997, 1992, 1001000, 1998008)"
  let ?amount = "\<lambda>n. \<lparr>aa_asset = cp_token_1 sample_pool, aa_amount = n\<rparr>"
  let ?t = "\<lparr>bt_gross_output = ?amount 1992, bt_tax_cost = ?amount 59, bt_net_output = ?amount 1933\<rparr>"
  have b: "ta_buy_tax ?a \<le> BPS_MAX" "ta_sell_tax ?a \<le> BPS_MAX" by (simp_all add: sample_assessment_def BPS_MAX_def)
  have "simulate_cpmm_exact_input sample_pool ?req = Inr ?q"
    using sample_pool_ready by (subst simulate_ready) (simp_all add: sample_eval)
  moreover have "apply_buy_tax_to_output ?a (cq_output ?q) = Inr ?t"
    unfolding apply_buy_tax_iff [OF b(1)] by (simp add: tax_covers_def levied_def sample_assessment_def sample_eval)
  ultimately have sim: "simulate_tax_aware_cpmm_buy_exact_input sample_pool ?req ?a =
      Inr \<lparr>tb_cpmm_quote = ?q, tb_tax_output = ?t\<rparr>" by (simp add: tax_aware_buy_Inr)
  with taxed_quotes_normalise [OF b, THEN conjunct1, THEN mp, OF sim] show ?thesis by (auto simp: exact_input_new_def)
qed

end
