(* ===== verification/Trigger.thy ===== *)
theory Trigger
  imports Delta_Preview Limit_Fsm
begin

text \<open>
  The trigger of the limit engine (\<open>crates/limit-engine/src/trigger.rs\<close>): one probe of a chunk, the search for
  the largest chunk that is safe to fill, and the decision for an order.

  The quote provider is a trait that only tests implement: it is an argument \<open>provider\<close> of the model, a function
  of order, amount and time, which is the determinism its documentation asks of an implementation. No property assumes that it is honest.
\<close>

section \<open>Quotes and probes\<close>

record quoted_attempt =
  qa_intent :: trade_intent
  qa_route :: route_plan
  qa_net_delta :: net_delta
  qa_assessment :: tax_assessment

datatype quote_outcome = Quoted quoted_attempt | Unavailable

type_synonym quote_provider = "stored_limit_order \<Rightarrow> atomic_amount \<Rightarrow> i64 \<Rightarrow> quote_outcome"

datatype probe_outcome = PR_Executable | PR_NotExecutable

definition bridge_error_is_integrity :: "bridge_error \<Rightarrow> bool" where
  "bridge_error_is_integrity e =
     (case e of
        BR_NetDeltaInconsistent _ \<Rightarrow> True
      | BR_ChainMismatch \<Rightarrow> True
      | BR_InputAssetMismatch \<Rightarrow> True
      | BR_OutputAssetMismatch \<Rightarrow> True
      | BR_AssessedAssetMismatch \<Rightarrow> True
      | BR_AssessmentDeltaMismatch \<Rightarrow> True
      | BR_DirectionMismatch \<Rightarrow> True
      | BR_Domain d \<Rightarrow> d \<in> {DE_ChainMismatch, DE_InputAssetMismatch, DE_OutputAssetMismatch, DE_TradeSideMismatch,
          DE_IntentIdMismatch, DE_SameAssetPair, DE_RouteTokenMismatch, DE_RouteOutputAssetMismatch,
          DE_RouteOutputAmountMismatch, DE_RouteUnmodeledFunding, DE_EmptyRoute, DE_EmptyRouteRef,
          DE_MaxTotalCostAssetMismatch, DE_InvalidMaxTotalCost, DE_LimitPriceAssetMismatch, DE_MissingLimitPrice,
          DE_UnexpectedLimitPrice, DE_UnsupportedAmountType}
      | BR_Cpmm _ \<Rightarrow> False
      | BR_Clmm _ \<Rightarrow> False
      | BR_Bin _ \<Rightarrow> False
      | BR_Tax _ \<Rightarrow> False
      | BR_TaxCapExceeded \<Rightarrow> False
      | BR_FreshnessUnavailable \<Rightarrow> False)"

definition quote_binds_to_order :: "stored_limit_order \<Rightarrow> quoted_attempt \<Rightarrow> atomic_amount \<Rightarrow> bool" where
  "quote_binds_to_order order attempt amount_in =
     (let intent = qa_intent attempt; lo = so_order order in
      case checked_add (so_nonce order) (so_attempt_seq order) of
        None \<Rightarrow> False
      | Some expected_nonce \<Rightarrow>
          ti_amount intent = amount_in \<and>
          ti_amount_type intent = InputAssetAtomic \<and>
          ti_order_type intent = Limit \<and>
          ti_chain intent = lo_chain lo \<and>
          ti_token_in intent = lo_token_in lo \<and>
          ti_token_out intent = lo_token_out lo \<and>
          ti_side intent = lo_side lo \<and>
          ti_limit_price intent = Some (lo_limit_price lo) \<and>
          ti_risk intent = lo_risk lo \<and>
          ti_allow_partial_fill intent = lo_allow_partial_fill lo \<and>
          ti_expiry_ms intent = Some (lo_expires_at_ms lo) \<and>
          ti_nonce intent = expected_nonce \<and>
          ti_user_id intent = lo_owner lo \<and>
          ti_wallet_ref intent = lo_wallet_ref lo)"

definition route_is_fresh :: "route_plan \<Rightarrow> i64 \<Rightarrow> freshness_policy \<Rightarrow> bool" where
  "route_is_fresh route now_ms policy =
     (case evaluate_freshness policy (fr_observed_at_ms (rp_state route)) now_ms (fr_sequence (rp_state route)) False of
        Inr meta \<Rightarrow> fm_status meta = FS_Fresh
      | Inl _ \<Rightarrow> False)"

definition probe_attempt ::
  "stored_limit_order \<Rightarrow> atomic_amount \<Rightarrow> quote_provider \<Rightarrow> i64 \<Rightarrow> freshness_policy \<Rightarrow>
     limit_engine_error + probe_outcome" where
  "probe_attempt order amount_in provider now_ms policy =
     (if amount_in = 0 \<or> lo_remaining_input (so_order order) < amount_in then Inr PR_NotExecutable
      else case provider order amount_in now_ms of
        Unavailable \<Rightarrow> Inr PR_NotExecutable
      | Quoted attempt \<Rightarrow>
          if \<not> quote_binds_to_order order attempt amount_in then Inl LE_IntegrityViolation
          else if aa_amount (nd_net_input (qa_net_delta attempt)) \<noteq> amount_in then Inl LE_IntegrityViolation
          else if \<not> route_is_fresh (qa_route attempt) now_ms policy then Inr PR_NotExecutable
          else
            case validate_delta_preview_with_assessment (qa_intent attempt) (qa_route attempt)
                   (qa_net_delta attempt) (qa_assessment attempt) now_ms of
              Inl e \<Rightarrow> if bridge_error_is_integrity e then Inl LE_IntegrityViolation else Inr PR_NotExecutable
            | Inr preview \<Rightarrow>
                case satisfies_limit_price preview (lo_limit_price (so_order order)) of
                  Inr b \<Rightarrow> Inr (if b then PR_Executable else PR_NotExecutable)
                | Inl _ \<Rightarrow> Inl LE_IntegrityViolation)"

definition attempt_is_executable ::
  "stored_limit_order \<Rightarrow> atomic_amount \<Rightarrow> quote_provider \<Rightarrow> i64 \<Rightarrow> freshness_policy \<Rightarrow>
     limit_engine_error + bool" where
  "attempt_is_executable order amount_in provider now_ms policy =
     bindR (probe_attempt order amount_in provider now_ms policy) (\<lambda>outcome. Inr (outcome = PR_Executable))"

section \<open>The search\<close>

definition MAX_SEARCH_STEPS :: nat where "MAX_SEARCH_STEPS = 128"

definition MAX_FALLBACK_STEPS :: nat where "MAX_FALLBACK_STEPS = 128"

text \<open>
  The two loops take the probe as an argument, which is \<open>attempt_is_executable\<close> for the order, provider, time and
  policy of the call. The number is what remains of the step bound.
\<close>

fun bisect :: "(u128 \<Rightarrow> limit_engine_error + bool) \<Rightarrow> nat \<Rightarrow> u128 \<Rightarrow> u128 \<Rightarrow> limit_engine_error + u128" where
  "bisect probe 0 lo hi = Inr lo"
| "bisect probe (Suc n) lo hi =
     (if 1 < hi - lo then
        let mid = lo + (hi - lo) div 2 in
        bindR (probe mid) (\<lambda>ok. if ok then bisect probe n mid hi else bisect probe n lo mid)
      else Inr lo)"

fun confirm :: "(u128 \<Rightarrow> limit_engine_error + bool) \<Rightarrow> u128 \<Rightarrow> nat \<Rightarrow> u128 \<Rightarrow> limit_engine_error + u128 option" where
  "confirm probe min_fill 0 chunk =
     bindR (probe chunk) (\<lambda>ok. if ok then Inr (Some chunk) else Inr None)"
| "confirm probe min_fill (Suc n) chunk =
     bindR (probe chunk) (\<lambda>ok.
     if ok then Inr (Some chunk)
     else if chunk < min_fill then Inr None
     else
       let chunk = chunk div 2 in
       if chunk < min_fill then Inr None else confirm probe min_fill n chunk)"

definition leave_remainder ::
  "(u128 \<Rightarrow> limit_engine_error + bool) \<Rightarrow> u128 \<Rightarrow> u128 \<Rightarrow> u128 \<Rightarrow> limit_engine_error + u128 option" where
  "leave_remainder probe remaining min_fill chunk =
     (if chunk \<noteq> remaining then
        case checked_sub remaining chunk of
          None \<Rightarrow> Inr None
        | Some leftover \<Rightarrow>
            if leftover < min_fill then
              bindR (probe remaining) (\<lambda>ok.
              if ok then Inr (Some remaining)
              else
                case checked_sub remaining min_fill of
                  None \<Rightarrow> Inr None
                | Some capped \<Rightarrow>
                    if capped < min_fill then Inr None
                    else bindR (probe capped) (\<lambda>ok. if \<not> ok then Inr None else Inr (Some capped)))
            else Inr (Some chunk)
      else Inr (Some chunk))"

definition finalize_candidate ::
  "stored_limit_order \<Rightarrow> atomic_amount \<Rightarrow> quote_provider \<Rightarrow> i64 \<Rightarrow> freshness_policy \<Rightarrow>
     limit_engine_error + atomic_amount option" where
  "finalize_candidate order candidate provider now_ms policy =
     (let remaining = lo_remaining_input (so_order order); min_fill = lo_min_fill (so_order order);
          probe = (\<lambda>amount. attempt_is_executable order amount provider now_ms policy) in
      bindR (confirm probe min_fill MAX_FALLBACK_STEPS candidate) (\<lambda>confirmed.
      case confirmed of
        None \<Rightarrow> Inr None
      | Some chunk \<Rightarrow> leave_remainder probe remaining min_fill chunk))"

definition max_safe_fill ::
  "stored_limit_order \<Rightarrow> quote_provider \<Rightarrow> i64 \<Rightarrow> freshness_policy \<Rightarrow>
     limit_engine_error + atomic_amount option" where
  "max_safe_fill order provider now_ms policy =
     (let remaining = lo_remaining_input (so_order order); min_fill = lo_min_fill (so_order order);
          probe = (\<lambda>amount. attempt_is_executable order amount provider now_ms policy) in
      if min_fill = 0 \<or> remaining < min_fill then Inr None
      else if \<not> lo_allow_partial_fill (so_order order) then
        bindR (probe remaining) (\<lambda>ok. Inr (if ok then Some remaining else None))
      else
        bindR (probe remaining) (\<lambda>ok.
        if ok then Inr (Some remaining)
        else
          bindR (probe min_fill) (\<lambda>ok.
          if \<not> ok then Inr None
          else
            bindR (bisect probe MAX_SEARCH_STEPS min_fill remaining) (\<lambda>lo.
            finalize_candidate order lo provider now_ms policy))))"

section \<open>The decision\<close>

datatype trigger_decision = NoSignal | NotExecutable | Fill atomic_amount

record trigger_outcome =
  to_order :: stored_limit_order
  to_decision :: trigger_decision

definition evaluate_trigger ::
  "stored_limit_order \<Rightarrow> bool \<Rightarrow> quote_provider \<Rightarrow> i64 \<Rightarrow> freshness_policy \<Rightarrow>
     limit_engine_error + trigger_outcome" where
  "evaluate_trigger order signal provider now_ms policy =
     (let status = lo_status (so_order order) in
      if \<not> is_terminal status \<and> lo_expires_at_ms (so_order order) \<le> now_ms then
        bindR (apply_transition order Expired None now_ms) (\<lambda>expired.
        Inr \<lparr>to_order = expired, to_decision = NotExecutable\<rparr>)
      else if is_terminal status then Inr \<lparr>to_order = order, to_decision = NotExecutable\<rparr>
      else if \<not> signal then Inr \<lparr>to_order = order, to_decision = NoSignal\<rparr>
      else
        bindR (if status = TriggerCandidate then Inr order
               else apply_transition order TriggerCandidate None now_ms) (\<lambda>candidate.
        bindR (max_safe_fill order provider now_ms policy) (\<lambda>fill.
        case fill of
          Some chunk \<Rightarrow> Inr \<lparr>to_order = candidate, to_decision = Fill chunk\<rparr>
        | None \<Rightarrow>
            bindR (apply_transition candidate Active None now_ms) (\<lambda>reverted.
            Inr \<lparr>to_order = reverted, to_decision = NotExecutable\<rparr>))))"

section \<open>The loops\<close>

lemma mid_between:
  fixes lo hi :: u128
  assumes "lo \<le> hi" and "1 < hi - lo"
  shows "lo < lo + (hi - lo) div 2" and "lo + (hi - lo) div 2 < hi"
    and "unat (lo + (hi - lo) div 2) = unat lo + (unat hi - unat lo) div 2" and "1 < unat hi - unat lo"
proof -
  have d: "unat (hi - lo) = unat hi - unat lo" using assms(1) by (simp add: unat_sub_no_underflow word_le_nat_alt)
  then show gap: "1 < unat hi - unat lo" using assms(2) by (simp add: word_less_nat_alt)
  have half: "unat ((hi - lo) div 2) = (unat hi - unat lo) div 2" by (simp add: unat_div d)
  have "unat lo + (unat hi - unat lo) div 2 < unat hi" using gap by linarith
  then have "unat lo + unat ((hi - lo) div 2) < 2 ^ 128" using half u128_bound [of hi] by linarith
  then show mid: "unat (lo + (hi - lo) div 2) = unat lo + (unat hi - unat lo) div 2"
    using half by (simp add: unat_add_no_overflow)
  show "lo < lo + (hi - lo) div 2" "lo + (hi - lo) div 2 < hi"
    using gap by (simp_all add: word_less_nat_alt mid)
qed

lemma bisect_sound:
  assumes "bisect probe n lo hi = Inr r" and "probe lo = Inr True" and "lo \<le> hi"
  shows "probe r = Inr True \<and> lo \<le> r \<and> r \<le> hi"
  using assms
proof (induction n arbitrary: lo hi)
  case (Suc n)
  show ?case
  proof (cases "1 < hi - lo")
    case True
    note m = mid_between [OF Suc.prems(3) True]
    let ?mid = "lo + (hi - lo) div 2"
    consider "probe ?mid = Inr True" "bisect probe n ?mid hi = Inr r" | "bisect probe n lo ?mid = Inr r"
      using Suc.prems(1) True by (auto simp: Let_def bindR_Inr_iff split: if_splits)
    then show ?thesis
    proof cases
      case 1
      from Suc.IH [OF 1(2,1) less_imp_le [OF m(2)]] m(1) show ?thesis by (blast intro: order_trans less_imp_le)
    next
      case 2
      from Suc.IH [OF 2 Suc.prems(2) less_imp_le [OF m(1)]] m(2) show ?thesis by (blast intro: order_trans less_imp_le)
    qed
  qed (use Suc.prems in simp)
qed simp

text \<open>With enough steps the answer is adjacent to a probe that failed, and without errors there is an answer.\<close>

lemma bisect_adjacent:
  assumes "bisect probe n lo hi = Inr r" and "probe hi = Inr False" and "lo < hi" and "unat hi - unat lo \<le> 2 ^ n"
  shows "\<exists>h. unat h = unat r + 1 \<and> probe h = Inr False \<and> h \<le> hi"
  using assms
proof (induction n arbitrary: lo hi)
  case 0
  then show ?case by (intro exI [of _ hi]) (auto simp: word_less_nat_alt)
next
  case (Suc n)
  show ?case
  proof (cases "1 < hi - lo")
    case True
    have le: "lo \<le> hi" using Suc.prems(3) by simp
    note m = mid_between [OF le True]
    let ?mid = "lo + (hi - lo) div 2"
    have half: "unat hi - unat ?mid \<le> 2 ^ n" "unat ?mid - unat lo \<le> 2 ^ n"
      using Suc.prems(4) unfolding m(3) by auto
    consider "bisect probe n ?mid hi = Inr r" | "probe ?mid = Inr False" "bisect probe n lo ?mid = Inr r"
      using Suc.prems(1) True by (auto simp: Let_def bindR_Inr_iff split: if_splits)
    then show ?thesis
    proof cases
      case 1
      from Suc.IH [OF 1 Suc.prems(2) m(2) half(1)] show ?thesis .
    next
      case 2
      from Suc.IH [OF 2(2,1) m(1) half(2)] m(2) show ?thesis by (blast intro: order_trans less_imp_le)
    qed
  next
    case False
    have "unat hi - unat lo = unat (hi - lo)"
      using Suc.prems(3) by (simp add: unat_sub_no_underflow word_less_nat_alt)
    then have "unat hi = unat lo + 1"
      using False Suc.prems(3) by (simp add: word_less_nat_alt not_less)
    then show ?thesis using Suc.prems(1,2) False by (intro exI [of _ hi]) simp
  qed
qed

lemma bisect_total:
  assumes "\<And>c. c \<le> hi \<Longrightarrow> \<exists>b. probe c = Inr b" and "lo \<le> hi"
  shows "\<exists>r. bisect probe n lo hi = Inr r"
  using assms
proof (induction n arbitrary: lo hi)
  case (Suc n)
  show ?case
  proof (cases "1 < hi - lo")
    case True
    note m = mid_between [OF Suc.prems(2) True]
    let ?mid = "lo + (hi - lo) div 2"
    obtain b where "probe ?mid = Inr b" using Suc.prems(1) [OF less_imp_le [OF m(2)]] by blast
    moreover have "\<exists>r. bisect probe n ?mid hi = Inr r" using Suc.IH [OF Suc.prems(1) less_imp_le [OF m(2)]] by blast
    moreover have "\<exists>r. bisect probe n lo ?mid = Inr r"
      using Suc.IH [of ?mid lo, OF Suc.prems(1) [OF order_trans [OF _ less_imp_le [OF m(2)]]] less_imp_le [OF m(1)]] by blast
    ultimately show ?thesis using True by (simp add: Let_def)
  qed simp
qed simp

lemma confirm_sound:
  assumes "confirm probe min_fill n chunk = Inr (Some c)" and "min_fill \<le> chunk"
  shows "probe c = Inr True \<and> min_fill \<le> c \<and> c \<le> chunk"
  using assms
proof (induction n arbitrary: chunk)
  case 0
  then show ?case by (auto simp: bindR_Inr_iff split: if_splits)
next
  case (Suc n)
  have "unat (chunk div 2) \<le> unat chunk" by (simp add: unat_div)
  then have half: "chunk div 2 \<le> chunk" by (simp only: word_le_nat_alt)
  from Suc.prems(1) obtain ok where ok: "probe chunk = Inr ok"
    unfolding confirm.simps bindR_Inr_iff by blast
  show ?case
  proof (cases ok)
    case True
    then show ?thesis using Suc.prems ok by simp
  next
    case False
    then have "min_fill \<le> chunk div 2" "confirm probe min_fill n (chunk div 2) = Inr (Some c)"
      using Suc.prems ok by (simp_all only: confirm.simps bindR_simps Let_def if_False split: if_split_asm) simp_all
    from Suc.IH [OF this(2,1)] half show ?thesis by (blast intro: order_trans)
  qed
qed

lemma confirm_executable: "probe chunk = Inr True \<Longrightarrow> confirm probe min_fill n chunk = Inr (Some chunk)"
  by (cases n) simp_all

text \<open>What is left after a chunk is nothing or enough for another fill.\<close>

definition viable :: "u128 \<Rightarrow> u128 \<Rightarrow> u128 \<Rightarrow> bool" where
  "viable remaining min_fill c \<longleftrightarrow>
     unat min_fill \<le> unat c \<and> unat c \<le> unat remaining \<and>
     (c = remaining \<or> unat min_fill \<le> unat remaining - unat c)"

lemma leave_remainder_sound:
  assumes "leave_remainder probe remaining min_fill chunk = Inr (Some c)" and "probe chunk = Inr True"
    and "min_fill \<le> chunk" and "chunk \<le> remaining"
  shows "probe c = Inr True \<and> viable remaining min_fill c"
  using assms unfolding leave_remainder_def
  by (auto simp: viable_def bindR_Inr_iff checked_sub_def word_le_nat_alt not_less not_le word_less_nat_alt
      unat_sub_no_underflow split: if_splits)

section \<open>Probes\<close>

lemma probe_executable:
  assumes "attempt_is_executable order c provider now_ms policy = Inr True"
  obtains attempt p where "provider order c now_ms = Quoted attempt" and "quote_binds_to_order order attempt c"
    and "aa_amount (nd_net_input (qa_net_delta attempt)) = c" and "route_is_fresh (qa_route attempt) now_ms policy"
    and "validate_delta_preview_with_assessment (qa_intent attempt) (qa_route attempt) (qa_net_delta attempt)
      (qa_assessment attempt) now_ms = Inr p"
    and "satisfies_limit_price p (lo_limit_price (so_order order)) = Inr True"
proof -
  have e: "probe_attempt order c provider now_ms policy = Inr PR_Executable"
    using assms by (simp add: attempt_is_executable_def bindR_Inr_iff)
  then obtain attempt where q: "provider order c now_ms = Quoted attempt"
    by (auto simp: probe_attempt_def split: quote_outcome.splits if_splits)
  let ?v = "validate_delta_preview_with_assessment (qa_intent attempt) (qa_route attempt) (qa_net_delta attempt)
    (qa_assessment attempt) now_ms"
  have b: "quote_binds_to_order order attempt c" "aa_amount (nd_net_input (qa_net_delta attempt)) = c"
    "route_is_fresh (qa_route attempt) now_ms policy"
    using e by (simp_all add: probe_attempt_def q split: if_split_asm)
  show thesis
  proof (cases ?v)
    case (Inl x)
    with e show thesis by (simp add: probe_attempt_def q split: if_split_asm)
  next
    case (Inr p)
    with e have "satisfies_limit_price p (lo_limit_price (so_order order)) = Inr True"
      by (simp add: probe_attempt_def q split: if_split_asm sum.split_asm)
    with that q b Inr show thesis by blast
  qed
qed

lemma probe_range:
  "attempt_is_executable order c provider now_ms policy = Inr True \<Longrightarrow> c \<noteq> 0 \<and> c \<le> lo_remaining_input (so_order order)"
  by (auto simp: attempt_is_executable_def bindR_Inr_iff probe_attempt_def not_less split: if_split_asm)

section \<open>The search\<close>

lemma finalize_sound:
  assumes "finalize_candidate order candidate provider now_ms policy = Inr (Some c)"
    and "lo_min_fill (so_order order) \<le> candidate" and "candidate \<le> lo_remaining_input (so_order order)"
  shows "attempt_is_executable order c provider now_ms policy = Inr True \<and>
    viable (lo_remaining_input (so_order order)) (lo_min_fill (so_order order)) c"
proof -
  let ?probe = "\<lambda>amount. attempt_is_executable order amount provider now_ms policy"
  from assms(1) obtain chunk where chunk:
    "confirm ?probe (lo_min_fill (so_order order)) MAX_FALLBACK_STEPS candidate = Inr (Some chunk)"
    "leave_remainder ?probe (lo_remaining_input (so_order order)) (lo_min_fill (so_order order)) chunk = Inr (Some c)"
    by (auto simp: finalize_candidate_def Let_def bindR_Inr_iff split: option.splits)
  note k = confirm_sound [OF chunk(1) assms(2)]
  from leave_remainder_sound [OF chunk(2)] k assms(3) show ?thesis by (blast intro: order_trans)
qed

lemma max_safe_fill_eq:
  fixes order provider now_ms policy
  defines "rem \<equiv> lo_remaining_input (so_order order)" and "min_fill \<equiv> lo_min_fill (so_order order)"
    and "probe \<equiv> \<lambda>amount. attempt_is_executable order amount provider now_ms policy"
  assumes "min_fill \<noteq> 0" and "min_fill \<le> rem" and "probe rem = Inr ok"
  shows "max_safe_fill order provider now_ms policy =
    (if ok then Inr (Some rem)
     else if lo_allow_partial_fill (so_order order) then
       bindR (probe min_fill) (\<lambda>ok. if \<not> ok then Inr None
         else bindR (bisect probe MAX_SEARCH_STEPS min_fill rem)
           (\<lambda>lo. finalize_candidate order lo provider now_ms policy))
     else Inr None)"
  using assms(4-) leD [OF assms(5)] unfolding max_safe_fill_def Let_def rem_def min_fill_def probe_def by simp

lemma max_safe_fill_sound:
  assumes "max_safe_fill order provider now_ms policy = Inr (Some c)"
  shows "attempt_is_executable order c provider now_ms policy = Inr True"
    and "viable (lo_remaining_input (so_order order)) (lo_min_fill (so_order order)) c"
    and "lo_min_fill (so_order order) \<noteq> 0"
    and "lo_allow_partial_fill (so_order order) \<or> c = lo_remaining_input (so_order order)"
proof -
  let ?rem = "lo_remaining_input (so_order order)" and ?min = "lo_min_fill (so_order order)"
  let ?probe = "\<lambda>amount. attempt_is_executable order amount provider now_ms policy"
  let ?search = "bindR (?probe ?min) (\<lambda>ok. if \<not> ok then Inr None
    else bindR (bisect ?probe MAX_SEARCH_STEPS ?min ?rem) (\<lambda>lo. finalize_candidate order lo provider now_ms policy))"
  have guard: "?min \<noteq> 0" "?min \<le> ?rem"
    using assms by (auto simp: max_safe_fill_def Let_def not_less split: if_split_asm)
  then show "?min \<noteq> 0" by simp
  have full: "viable ?rem ?min ?rem" using guard(2) by (simp add: viable_def word_le_nat_alt)
  from assms obtain ok where ok: "?probe ?rem = Inr ok"
    unfolding max_safe_fill_def Let_def using guard by (cases "?probe ?rem") (simp_all split: if_split_asm)
  note e = max_safe_fill_eq [OF guard ok]
  consider "?probe ?rem = Inr True" "c = ?rem"
    | lo where "lo_allow_partial_fill (so_order order)" "?probe ?min = Inr True"
      "bisect ?probe MAX_SEARCH_STEPS ?min ?rem = Inr lo" "finalize_candidate order lo provider now_ms policy = Inr (Some c)"
  proof (cases ok)
    case True
    with e assms ok show ?thesis using that(1) by simp
  next
    case False
    with e assms have "lo_allow_partial_fill (so_order order)" "?search = Inr (Some c)" by (simp_all split: if_split_asm)
    moreover from this(2) obtain b where "?probe ?min = Inr b" unfolding bindR_Inr_iff by blast
    moreover from calculation(2,3) have b by (cases b) simp_all
    ultimately show ?thesis using that(2) by (auto simp: bindR_Inr_iff)
  qed
  then have "?probe c = Inr True \<and> viable ?rem ?min c \<and> (lo_allow_partial_fill (so_order order) \<or> c = ?rem)"
  proof cases
    case 2
    from bisect_sound [OF 2(3,2) guard(2)] have "?min \<le> lo" "lo \<le> ?rem" by simp_all
    from finalize_sound [OF 2(4) this] 2(1) show ?thesis by simp
  qed (use full in simp)
  then show "?probe c = Inr True" "viable ?rem ?min c" "lo_allow_partial_fill (so_order order) \<or> c = ?rem"
    by blast+
qed

text \<open>The best chunk: the largest one that a predicate accepts, or none.\<close>

definition largest :: "(u128 \<Rightarrow> bool) \<Rightarrow> u128 option \<Rightarrow> bool" where
  "largest P r \<longleftrightarrow> (case r of None \<Rightarrow> \<forall>d. \<not> P d | Some c \<Rightarrow> P c \<and> (\<forall>d. P d \<longrightarrow> d \<le> c))"

lemma leave_remainder_largest:
  assumes lo: "probe lo = Inr True" "min_fill \<le> lo" "lo \<le> remaining"
    and rem: "probe remaining = Inr False"
    and top: "\<And>d. lo < d \<Longrightarrow> d \<le> remaining \<Longrightarrow> probe d \<noteq> Inr True"
    and mono: "\<And>d. min_fill \<le> d \<Longrightarrow> d \<le> lo \<Longrightarrow> probe d = Inr True"
  shows "\<exists>r. leave_remainder probe remaining min_fill lo = Inr r \<and>
    largest (\<lambda>d. viable remaining min_fill d \<and> probe d = Inr True) r"
proof -
  have ne: "lo \<noteq> remaining" using lo(1) rem by auto
  have sub: "checked_sub remaining lo = Some (remaining - lo)" "unat (remaining - lo) = unat remaining - unat lo"
    "checked_sub remaining min_fill = Some (remaining - min_fill)"
    "unat (remaining - min_fill) = unat remaining - unat min_fill"
    using lo(2,3) by (simp_all add: checked_sub_def unat_sub_no_underflow word_le_nat_alt)
  have below: "d \<le> lo" if "viable remaining min_fill d" "probe d = Inr True" for d
    using top [of d] that by (meson viable_def not_le word_le_nat_alt)
  have part: "unat min_fill \<le> unat remaining - unat d" "unat min_fill \<le> unat d" "unat d \<le> unat remaining"
    if "viable remaining min_fill d" "probe d = Inr True" for d
    using that rem by (auto simp: viable_def)
  show ?thesis
  proof (cases "remaining - lo < min_fill")
    case False
    then have "leave_remainder probe remaining min_fill lo = Inr (Some lo)" by (simp add: leave_remainder_def ne sub)
    moreover have "viable remaining min_fill lo"
      using False lo(2,3) sub(2) by (simp add: viable_def word_le_nat_alt word_less_nat_alt)
    ultimately show ?thesis using lo(1) below by (auto simp: largest_def)
  next
    case True
    then have short: "unat remaining - unat lo < unat min_fill" using sub(2) by (simp add: word_less_nat_alt)
    show ?thesis
    proof (cases "remaining - min_fill < min_fill")
      case cap: True
      then have "leave_remainder probe remaining min_fill lo = Inr None"
        using True by (simp add: leave_remainder_def ne sub rem)
      moreover have "\<not> (viable remaining min_fill d \<and> probe d = Inr True)" for d
        using part [of d] cap sub(4) by (auto simp: word_less_nat_alt)
      ultimately show ?thesis by (auto simp: largest_def)
    next
      case cap: False
      let ?cap = "remaining - min_fill"
      have c: "unat min_fill \<le> unat ?cap" using cap by (simp add: word_less_nat_alt)
      have "unat ?cap \<le> unat lo" using sub(4) short by linarith
      with c have "probe ?cap = Inr True" by (intro mono) (simp_all add: word_le_nat_alt)
      then have "leave_remainder probe remaining min_fill lo = Inr (Some ?cap)"
        using True cap by (simp add: leave_remainder_def ne sub rem)
      moreover have "viable remaining min_fill ?cap" using c sub(4) by (auto simp: viable_def)
      moreover have "d \<le> ?cap" if "viable remaining min_fill d" "probe d = Inr True" for d
        unfolding word_le_nat_alt sub(4) using part [OF that] by linarith
      ultimately show ?thesis using \<open>probe ?cap = Inr True\<close> by (auto simp: largest_def)
    qed
  qed
qed

definition fillable :: "stored_limit_order \<Rightarrow> quote_provider \<Rightarrow> i64 \<Rightarrow> freshness_policy \<Rightarrow> u128 \<Rightarrow> bool" where
  "fillable order provider now_ms policy c \<longleftrightarrow>
     viable (lo_remaining_input (so_order order)) (lo_min_fill (so_order order)) c \<and>
     (lo_allow_partial_fill (so_order order) \<or> c = lo_remaining_input (so_order order)) \<and>
     attempt_is_executable order c provider now_ms policy = Inr True"

lemma search_largest:
  fixes order provider now_ms policy
  defines "rem \<equiv> lo_remaining_input (so_order order)" and "min_fill \<equiv> lo_min_fill (so_order order)"
    and "probe \<equiv> \<lambda>amount. attempt_is_executable order amount provider now_ms policy"
  assumes ok: "\<And>c. c \<le> rem \<Longrightarrow> \<exists>b. probe c = Inr b"
    and mono: "\<And>c d. probe c = Inr True \<Longrightarrow> min_fill \<le> d \<Longrightarrow> d \<le> c \<Longrightarrow> probe d = Inr True"
    and ends: "probe min_fill = Inr True" "probe rem = Inr False" "min_fill \<le> rem"
  shows "\<exists>r. bindR (bisect probe MAX_SEARCH_STEPS min_fill rem) (\<lambda>lo. finalize_candidate order lo provider now_ms policy)
    = Inr r \<and> largest (\<lambda>d. viable rem min_fill d \<and> probe d = Inr True) r"
proof -
  obtain lo where lo: "bisect probe MAX_SEARCH_STEPS min_fill rem = Inr lo" using bisect_total [of rem probe, OF ok ends(3)] by blast
  note s = bisect_sound [OF lo ends(1,3)]
  have "min_fill \<noteq> rem" using ends(1,2) by auto
  then have "min_fill < rem" using ends(3) by simp
  moreover have "unat rem - unat min_fill \<le> 2 ^ MAX_SEARCH_STEPS"
    using u128_bound [of rem] by (simp add: MAX_SEARCH_STEPS_def)
  ultimately obtain h where h: "unat h = unat lo + 1" "probe h = Inr False" using bisect_adjacent [OF lo ends(2)] by blast
  have top: "probe d \<noteq> Inr True" if "lo < d" for d
  proof
    assume "probe d = Inr True"
    moreover have "min_fill \<le> h" "h \<le> d" using s that h(1) by (simp_all add: word_le_nat_alt word_less_nat_alt)
    ultimately have "probe h = Inr True" by (rule mono)
    with h(2) show False by simp
  qed
  have down: "probe d = Inr True" if "min_fill \<le> d" "d \<le> lo" for d using mono [OF conjunct1 [OF s] that] .
  have "confirm probe min_fill MAX_FALLBACK_STEPS lo = Inr (Some lo)" by (rule confirm_executable) (use s in simp)
  then have "finalize_candidate order lo provider now_ms policy = leave_remainder probe rem min_fill lo"
    unfolding finalize_candidate_def Let_def rem_def min_fill_def probe_def by simp
  then show ?thesis using leave_remainder_largest [of probe lo min_fill rem, OF _ _ _ ends(2) top down] s lo by auto
qed

text \<open>A provider whose quotes never fail an integrity check and whose chunks stay executable when they get smaller.\<close>

definition monotone_quotes :: "stored_limit_order \<Rightarrow> quote_provider \<Rightarrow> i64 \<Rightarrow> freshness_policy \<Rightarrow> bool" where
  "monotone_quotes order provider now_ms policy \<longleftrightarrow>
     (\<forall>c \<le> lo_remaining_input (so_order order). \<exists>b. attempt_is_executable order c provider now_ms policy = Inr b) \<and>
     (\<forall>c d. attempt_is_executable order c provider now_ms policy = Inr True \<longrightarrow> lo_min_fill (so_order order) \<le> d \<longrightarrow>
        d \<le> c \<longrightarrow> attempt_is_executable order d provider now_ms policy = Inr True)"

section \<open>The decision\<close>

lemma transition_without_fill:
  assumes "apply_transition order requested None at_ms = Inr next"
  shows "lo_status (so_order next) = requested"
  using assms
  by (rule apply_transition_Inr) (auto dest!: finish_transition_Inr(1) simp: final_target_def coerced_target_def Let_def)

lemma history_step:
  assumes "apply_transition order requested None at_ms = Inr next"
  shows "order_history order [(requested, None, at_ms)] next"
  using order_history.step [OF order_history.start assms] by simp

lemma evaluate_trigger_history:
  assumes "evaluate_trigger order signal provider now_ms policy = Inr out"
  shows "\<exists>calls. order_history order calls (to_order out) \<and> length calls \<le> 2 \<and> (\<forall>(_, fill, _) \<in> set calls. fill = None)"
proof -
  let ?nofill = "\<lambda>calls. \<forall>(_ :: order_status, fill :: fill_delta option, _ :: i64) \<in> set calls. fill = None"
  have start: "\<exists>calls. order_history order calls order \<and> length calls \<le> 1 \<and> ?nofill calls"
    by (rule exI [of _ "[]"]) (simp add: order_history.start)
  have one: "\<exists>calls. order_history order calls s \<and> length calls \<le> 1 \<and> ?nofill calls"
    if "apply_transition order t None now_ms = Inr s" for s t
    by (rule exI [of _ "[(t, None, now_ms)]"]) (simp add: history_step [OF that])
  consider "to_order out = order" | t where "apply_transition order t None now_ms = Inr (to_order out)"
    | candidate t where "apply_transition order TriggerCandidate None now_ms = Inr candidate"
      "apply_transition candidate t None now_ms = Inr (to_order out)"
    using assms unfolding evaluate_trigger_def Let_def
    by (auto simp: bindR_Inr_iff split: if_split_asm option.split_asm)
  then show ?thesis
  proof cases
    case 1
    with start show ?thesis by fastforce
  next
    case 2
    with one show ?thesis by fastforce
  next
    case 3
    from one [OF 3(1)] obtain calls where c: "order_history order calls candidate" "length calls \<le> 1" "?nofill calls"
      by blast
    have "order_history order (calls @ [(t, None, now_ms)]) (to_order out)" by (rule order_history.step [OF c(1) 3(2)])
    with c(2,3) show ?thesis by (intro exI [of _ "calls @ [(t, None, now_ms)]"]) auto
  qed
qed

lemma evaluate_trigger_fill:
  assumes "evaluate_trigger order signal provider now_ms policy = Inr out" and "to_decision out = Fill c"
  shows "signal" and "now_ms < lo_expires_at_ms (so_order order)" and "\<not> is_terminal (lo_status (so_order order))"
    and "max_safe_fill order provider now_ms policy = Inr (Some c)"
    and "lo_status (so_order (to_order out)) = TriggerCandidate"
proof -
  have "signal \<and> now_ms < lo_expires_at_ms (so_order order) \<and> \<not> is_terminal (lo_status (so_order order)) \<and>
    max_safe_fill order provider now_ms policy = Inr (Some c) \<and>
    (to_order out = order \<and> lo_status (so_order order) = TriggerCandidate \<or>
     apply_transition order TriggerCandidate None now_ms = Inr (to_order out))"
    using assms unfolding evaluate_trigger_def Let_def
    by (auto simp: bindR_Inr_iff not_le split: if_split_asm option.split_asm)
  then show signal "now_ms < lo_expires_at_ms (so_order order)" "\<not> is_terminal (lo_status (so_order order))"
    "max_safe_fill order provider now_ms policy = Inr (Some c)" "lo_status (so_order (to_order out)) = TriggerCandidate"
    using transition_without_fill [of order TriggerCandidate now_ms "to_order out"] by auto
qed

section \<open>Properties\<close>

text \<open>The intent of an order for a chunk: everything but its identifier, its source and its idempotency key is given by
  the order.\<close>

definition order_intent :: "stored_limit_order \<Rightarrow> u128 \<Rightarrow> trade_intent \<Rightarrow> trade_intent" where
  "order_intent order amount i =
     \<lparr>ti_id = ti_id i, ti_source = ti_source i, ti_user_id = lo_owner (so_order order),
      ti_wallet_ref = lo_wallet_ref (so_order order), ti_chain = lo_chain (so_order order),
      ti_token_in = lo_token_in (so_order order), ti_token_out = lo_token_out (so_order order),
      ti_side = lo_side (so_order order), ti_amount_type = InputAssetAtomic, ti_amount = amount, ti_order_type = Limit,
      ti_limit_price = Some (lo_limit_price (so_order order)), ti_risk = lo_risk (so_order order),
      ti_allow_partial_fill = lo_allow_partial_fill (so_order order),
      ti_expiry_ms = Some (lo_expires_at_ms (so_order order)), ti_nonce = so_nonce order + so_attempt_seq order,
      ti_idempotency_key = ti_idempotency_key i\<rparr>"

lemma quote_binds_iff:
  "quote_binds_to_order order attempt amount \<longleftrightarrow>
     qa_intent attempt = order_intent order amount (qa_intent attempt) \<and>
     unat (so_nonce order) + unat (so_attempt_seq order) < 2 ^ 64"
  by (cases "qa_intent attempt")
    (auto simp: quote_binds_to_order_def order_intent_def Let_def checked_add_def split: option.splits if_splits)

text \<open>C8. The trigger never fills unsafely. If it decides to fill a chunk, there was a signal, the order was open and
  before its deadline and becomes a candidate, with no change of its ledger. The chunk is between the minimal fill
  and the remainder, leaves nothing or enough for another fill, and is the whole remainder when partial fills are not
  allowed. Whatever the provider is, its quote for exactly this chunk is bound to the order: the intent of the quote has
  the owner, wallet, chain, tokens, side, limit price, risk limits, partial-fill rule, deadline and next nonce of the
  order and the chunk as its amount. The preview that the validator makes of the delta of the quote is sound for that
  intent, spends exactly the chunk and delivers what the delta and the route say; the route is fresh under the given
  policy; the tax is exactly the assessed one and within the cap of the order; and the net output is within the limit
  price of the order, compared as products of natural numbers.\<close>

theorem trigger_fill_safe:
  assumes "evaluate_trigger order signal provider now_ms policy = Inr out" and "to_decision out = Fill c"
    and "now_ms < 2 ^ 63"
    and "\<And>attempt. provider order c now_ms = Quoted attempt \<Longrightarrow>
      assessed_rate (qa_intent attempt) (qa_assessment attempt) \<le> BPS_MAX"
  shows "signal \<and> now_ms < lo_expires_at_ms (so_order order) \<and> \<not> is_terminal (lo_status (so_order order)) \<and>
    lo_status (so_order (to_order out)) = TriggerCandidate \<and>
    (\<exists>calls. order_history order calls (to_order out) \<and> (\<forall>(_, fill, _) \<in> set calls. fill = None)) \<and>
    viable (lo_remaining_input (so_order order)) (lo_min_fill (so_order order)) c \<and>
    (lo_allow_partial_fill (so_order order) \<or> c = lo_remaining_input (so_order order)) \<and>
    (\<exists>attempt p. provider order c now_ms = Quoted attempt \<and>
      qa_intent attempt = order_intent order c (qa_intent attempt) \<and>
      unat (ti_nonce (qa_intent attempt)) = unat (so_nonce order) + unat (so_attempt_seq order) \<and>
      validate_delta_preview_with_assessment (qa_intent attempt) (qa_route attempt) (qa_net_delta attempt)
        (qa_assessment attempt) now_ms = Inr p \<and>
      preview_sound p (qa_intent attempt) \<and> aa_amount (ep_simulated_net_input p) = c \<and>
      ep_simulated_net_input p = nd_net_input (qa_net_delta attempt) \<and>
      ep_simulated_net_output p = nd_net_output (qa_net_delta attempt) \<and>
      rp_expected_net_output (qa_route attempt) = ep_simulated_net_output p \<and>
      route_is_fresh (qa_route attempt) now_ms policy \<and> state_current (rp_state (qa_route attempt)) now_ms \<and>
      taxed_exactly (qa_intent attempt) (qa_assessment attempt) (qa_net_delta attempt) \<and>
      assessed_rate (qa_intent attempt) (qa_assessment attempt) \<le> rate_cap (qa_intent attempt) \<and>
      within_limit (lo_side (so_order order)) (lp_ratio (lo_limit_price (so_order order))) c
        (aa_amount (ep_simulated_net_output p)))"
proof -
  note f = evaluate_trigger_fill [OF assms(1,2)]
  note s = max_safe_fill_sound [OF f(4)]
  obtain calls where calls: "order_history order calls (to_order out)" "\<forall>(_, fill, _) \<in> set calls. fill = None"
    using evaluate_trigger_history [OF assms(1)] by blast
  from s(1) obtain attempt p where a: "provider order c now_ms = Quoted attempt" "quote_binds_to_order order attempt c"
    "aa_amount (nd_net_input (qa_net_delta attempt)) = c" "route_is_fresh (qa_route attempt) now_ms policy"
    "validate_delta_preview_with_assessment (qa_intent attempt) (qa_route attempt) (qa_net_delta attempt)
      (qa_assessment attempt) now_ms = Inr p"
    "satisfies_limit_price p (lo_limit_price (so_order order)) = Inr True"
    by (rule probe_executable)
  note v = assessed_preview_sound [OF a(5) assms(4) [OF a(1)] assms(3)]
  have bound: "qa_intent attempt = order_intent order c (qa_intent attempt)"
    and nonce: "unat (so_nonce order) + unat (so_attempt_seq order) < 2 ^ 64"
    using a(2) by (simp_all add: quote_binds_iff)
  have fields: "ti_side (qa_intent attempt) = lo_side (so_order order)"
    "ti_nonce (qa_intent attempt) = so_nonce order + so_attempt_seq order"
    by (subst bound, simp add: order_intent_def)+
  have n: "unat (ti_nonce (qa_intent attempt)) = unat (so_nonce order) + unat (so_attempt_seq order)"
    using nonce by (simp add: fields unat_word_ariths)
  have p: "ep_side p = ti_side (qa_intent attempt)" "aa_amount (ep_simulated_net_input p) = c"
    using v a(3) by (simp_all add: preview_sound_def)
  have limit: "within_limit (lo_side (so_order order)) (lp_ratio (lo_limit_price (so_order order))) c
      (aa_amount (ep_simulated_net_output p))"
    using a(6) fields(1) p by (simp add: satisfies_limit_price_iff)
  have route: "rp_expected_net_output (qa_route attempt) = ep_simulated_net_output p" using v by simp
  show ?thesis using v a(1,4,5) bound n f s(2,4) calls p(2) limit route by blast
qed

text \<open>C16. The search is complete for well-behaved providers: when no quote fails an integrity check and a chunk stays
  executable when it gets smaller, \<open>max_safe_fill\<close> returns, within its step bounds, the largest chunk that is
  executable and leaves a viable remainder, and nothing exactly when there is none.\<close>

theorem max_safe_fill_maximal:
  assumes "monotone_quotes order provider now_ms policy" and nz: "lo_min_fill (so_order order) \<noteq> 0"
  shows "\<exists>r. max_safe_fill order provider now_ms policy = Inr r \<and> largest (fillable order provider now_ms policy) r"
proof -
  let ?rem = "lo_remaining_input (so_order order)" and ?min = "lo_min_fill (so_order order)"
  let ?probe = "\<lambda>amount. attempt_is_executable order amount provider now_ms policy"
  have ok: "\<exists>b. ?probe c = Inr b" if "c \<le> ?rem" for c using assms(1) that unfolding monotone_quotes_def by blast
  have mono: "?probe d = Inr True" if "?probe c = Inr True" "?min \<le> d" "d \<le> c" for c d
    using assms(1) that unfolding monotone_quotes_def by blast
  show ?thesis
  proof (cases "?min \<le> ?rem")
    case False
    then have "max_safe_fill order provider now_ms policy = Inr None" by (simp add: max_safe_fill_def not_le)
    moreover have "\<not> fillable order provider now_ms policy d" for d
      using False by (auto simp: fillable_def viable_def word_le_nat_alt)
    ultimately show ?thesis by (auto simp: largest_def)
  next
    case True
    obtain b where b: "?probe ?rem = Inr b" using ok [OF order_refl] by blast
    note e = max_safe_fill_eq [OF nz True b]
    obtain m where m: "?probe ?min = Inr m" using ok [OF True] by blast
    have le: "d \<le> ?rem" "?min \<le> d" "?probe d = Inr True" if "fillable order provider now_ms policy d" for d
      using that by (simp_all add: fillable_def viable_def word_le_nat_alt)
    consider (full) b | (whole) "\<not> b" "\<not> lo_allow_partial_fill (so_order order)"
      | (none) "\<not> b" "lo_allow_partial_fill (so_order order)" "\<not> m"
      | (search) "\<not> b" "lo_allow_partial_fill (so_order order)" m by blast
    then show ?thesis
    proof cases
      case full
      have "fillable order provider now_ms policy ?rem"
        using full b True by (simp add: fillable_def viable_def word_le_nat_alt)
      with le show ?thesis using e full by (auto simp: largest_def)
    next
      case whole
      then have "\<not> fillable order provider now_ms policy d" for d using b by (auto simp: fillable_def)
      then show ?thesis using e whole by (auto simp: largest_def)
    next
      case none
      have "\<not> fillable order provider now_ms policy d" for d
      proof
        assume d: "fillable order provider now_ms policy d"
        from mono [OF le(3) [OF d] order_refl le(2) [OF d]] m none(3) show False by simp
      qed
      then show ?thesis using e none m by (auto simp: largest_def)
    next
      case search
      then have "fillable order provider now_ms policy = (\<lambda>d. viable ?rem ?min d \<and> ?probe d = Inr True)"
        by (auto simp: fillable_def)
      with search_largest [OF ok mono _ _ True] e search m b show ?thesis by auto
    qed
  qed
qed

definition sample_attempt :: "u128 \<Rightarrow> quoted_attempt" where
  "sample_attempt amount =
     \<lparr>qa_intent = sample_intent\<lparr>ti_amount := amount\<rparr>,
      qa_route = sl_route (sample_branch ''p'' amount amount),
      qa_net_delta =
        \<lparr>nd_token_in = sample_in, nd_token_out = sample_out, nd_net_input = \<lparr>aa_asset = sample_in, aa_amount = amount\<rparr>,
         nd_gross_output = \<lparr>aa_asset = sample_out, aa_amount = amount\<rparr>,
         nd_net_output = \<lparr>aa_asset = sample_out, aa_amount = amount\<rparr>, nd_dex_fee = None, nd_tax_cost = None\<rparr>,
      qa_assessment = (sample_assessment sample_out)\<lparr>ta_buy_tax := 0\<rparr>\<rparr>"

definition sample_provider :: "u128 \<Rightarrow> quote_provider" where
  "sample_provider depth order amount now_ms = (if amount \<le> depth then Quoted (sample_attempt amount) else Unavailable)"

lemma sample_attempt_validates:
  assumes "amount \<noteq> 0"
  shows "\<exists>p. validate_delta_preview_with_assessment (qa_intent (sample_attempt amount)) (qa_route (sample_attempt amount))
      (qa_net_delta (sample_attempt amount)) (qa_assessment (sample_attempt amount)) 1500 = Inr p \<and>
    satisfies_limit_price p sample_price = Inr True"
  using assms u128_bound [of amount]
  by (simp add: sample_attempt_def bridge_eval preview_validate_def sample_branch_def route_binding_def route_validate_def
      leg_validate_def preview_eval)

lemma sample_probe:
  assumes "depth \<le> 100"
  shows "attempt_is_executable (sample_stored True 5 100 Active) c (sample_provider depth) 1500 default_freshness_policy
    = Inr (c \<noteq> 0 \<and> c \<le> depth)"
proof (cases "c \<noteq> 0 \<and> c \<le> depth")
  case True
  obtain p where p: "validate_delta_preview_with_assessment (qa_intent (sample_attempt c)) (qa_route (sample_attempt c))
      (qa_net_delta (sample_attempt c)) (qa_assessment (sample_attempt c)) 1500 = Inr p"
    "satisfies_limit_price p sample_price = Inr True"
    using sample_attempt_validates True by blast
  have "quote_binds_to_order (sample_stored True 5 100 Active) (sample_attempt c) c"
    by (simp add: quote_binds_to_order_def sample_attempt_def sample_intent_def sample_stored_def sample_order_def
        checked_add_def)
  moreover have "route_is_fresh (qa_route (sample_attempt c)) 1500 default_freshness_policy"
    by (simp add: route_is_fresh_def sample_attempt_def sample_branch_def preview_eval)
  moreover have "aa_amount (nd_net_input (qa_net_delta (sample_attempt c))) = c" by (simp add: sample_attempt_def)
  moreover have "\<not> 100 < c" using True assms by auto
  moreover have "lo_remaining_input (so_order (sample_stored True 5 100 Active)) = 100"
    "lo_limit_price (so_order (sample_stored True 5 100 Active)) = sample_price"
    by (simp_all add: sample_stored_def sample_order_def)
  ultimately have "probe_attempt (sample_stored True 5 100 Active) c (sample_provider depth) 1500 default_freshness_policy
      = Inr PR_Executable"
    using True p by (simp add: probe_attempt_def sample_provider_def)
  then show ?thesis using True by (simp add: attempt_is_executable_def)
next
  case False
  then show ?thesis by (auto simp: attempt_is_executable_def probe_attempt_def sample_provider_def)
qed

lemma sample_order_amounts:
  "lo_remaining_input (so_order (sample_stored True 5 100 Active)) = 100"
  "lo_min_fill (so_order (sample_stored True 5 100 Active)) = 10"
  "lo_allow_partial_fill (so_order (sample_stored True 5 100 Active))"
  by (simp_all add: sample_stored_def sample_order_def)

theorem max_safe_fill_maximal_witness:
  "max_safe_fill (sample_stored True 5 100 Active) (sample_provider 40) 1500 default_freshness_policy = Inr (Some 40)"
proof -
  let ?o = "sample_stored True 5 100 Active" and ?p = default_freshness_policy
  note probe = sample_probe [of 40]
  have "monotone_quotes ?o (sample_provider 40) 1500 ?p"
    unfolding monotone_quotes_def using probe by (auto simp: sample_order_amounts)
  from max_safe_fill_maximal [OF this] obtain r where r: "max_safe_fill ?o (sample_provider 40) 1500 ?p = Inr r"
    "largest (fillable ?o (sample_provider 40) 1500 ?p) r"
    by (auto simp: sample_order_amounts)
  have f: "fillable ?o (sample_provider 40) 1500 ?p d \<longleftrightarrow> viable 100 10 d \<and> d \<noteq> 0 \<and> d \<le> 40" for d
    using probe by (simp add: fillable_def sample_order_amounts)
  have "fillable ?o (sample_provider 40) 1500 ?p 40" by (simp add: f viable_def)
  with r(2) f have "r = Some 40" by (cases r) (auto simp: largest_def intro: order.antisym)
  with r(1) show ?thesis by simp
qed

theorem trigger_fill_safe_witness:
  "\<exists>out. evaluate_trigger (sample_stored True 5 100 Active) True (sample_provider 100) 1500 default_freshness_policy = Inr out \<and>
     to_decision out = Fill 100 \<and> lo_status (so_order (to_order out)) = TriggerCandidate"
proof -
  let ?o = "sample_stored True 5 100 Active" and ?p = default_freshness_policy
  let ?out = "\<lparr>to_order = sample_stored True 6 100 TriggerCandidate, to_decision = Fill 100\<rparr>"
  have "max_safe_fill ?o (sample_provider 100) 1500 ?p = Inr (Some 100)"
    using max_safe_fill_eq [of ?o "sample_provider 100" 1500 ?p True] sample_probe [of 100]
    by (simp add: sample_order_amounts)
  moreover have "apply_transition ?o TriggerCandidate None 1500 = Inr (sample_stored True 6 100 TriggerCandidate)"
    by (simp add: order_eval)
  moreover have "lo_status (so_order ?o) = Active" "lo_expires_at_ms (so_order ?o) = 2000"
    by (simp_all add: sample_stored_def sample_order_def)
  ultimately have e: "evaluate_trigger ?o True (sample_provider 100) 1500 ?p = Inr ?out"
    by (simp add: evaluate_trigger_def is_terminal_def)
  have "assessed_rate (qa_intent attempt) (qa_assessment attempt) \<le> BPS_MAX"
    if "sample_provider 100 ?o 100 1500 = Quoted attempt" for attempt
    using that by (auto simp: sample_provider_def sample_attempt_def assessed_rate_def sample_intent_def)
  from trigger_fill_safe [OF e _ _ this] e show ?thesis by auto
qed
end
