(* ===== verification/Revalidation.thy ===== *)
theory Revalidation
  imports Delta_Preview Policy
begin

text \<open>
  The last gate before signing (\<open>crates/execution-preview/src/revalidation.rs\<close>). Each numbered check of the two
  functions is a definition whose left result is the outcome of an early return; checks that both functions repeat word
  for word are one definition. The borrowed inputs are values, the hash set of allowed programs is a set. Printing of
  outcomes and reasons is left out.
\<close>

section \<open>Trusted snapshots\<close>

record wallet_balance =
  wb_wallet_ref :: wallet_ref
  wb_chain :: chain_id
  wb_asset :: asset_id
  wb_available :: atomic_amount
  wb_freshness :: freshness

record allowance_state =
  al_wallet_ref :: wallet_ref
  al_chain :: chain_id
  al_asset :: asset_id
  al_spender_ref :: string
  al_amount :: atomic_amount
  al_freshness :: freshness

datatype allowance_observation = NotRequired | Required allowance_state

definition observed_state :: "allowance_observation \<Rightarrow> allowance_state option" where
  "observed_state ob = (case ob of NotRequired \<Rightarrow> None | Required state \<Rightarrow> Some state)"

record route_leg_ref =
  rg_venue :: string
  rg_pool_ref :: string
  rg_token_in :: asset_id
  rg_token_out :: asset_id

text \<open>\<open>RouteBinding\<close> is its only field, the list of legs.\<close>

definition from_route :: "route_plan \<Rightarrow> route_leg_ref list" where
  "from_route route =
     map (\<lambda>leg. \<lparr>rg_venue = rl_venue leg, rg_pool_ref = rl_pool_ref leg, rg_token_in = rl_token_in leg,
                 rg_token_out = rl_token_out leg\<rparr>) (rp_legs route)"

record revalidation_input =
  vi_intent :: trade_intent
  vi_approval :: "approved_execution option"
  vi_policy_limits :: policy_limits
  vi_allowed_programs :: "string set"
  vi_trading_enabled :: bool
  vi_now_ms :: i64
  vi_freshness_policy :: freshness_policy
  vi_route :: route_plan
  vi_net_delta :: net_delta
  vi_basis_assessment :: tax_assessment
  vi_tax_observation :: "tax_observation option"
  vi_approved_route_binding :: "route_leg_ref list"
  vi_min_out :: asset_amount
  vi_wallet_balance :: wallet_balance
  vi_allowance :: allowance_observation

datatype (plugins only: size code) revalidation_reason =
    VR_TradingDisabled
  | VR_ApprovalMissing
  | VR_ApprovalBindingMismatch
  | VR_PolicyExpired
  | VR_RecipientMismatch
  | VR_VenueNotAllowlisted
  | VR_ProgramNotAllowlisted
  | VR_SelectedRouteMismatch
  | VR_StateRegression
  | VR_StaleState
  | VR_ResyncRequired
  | VR_TaxObservationStale
  | VR_TaxChanged
  | VR_TaxCapExceeded
  | VR_TokenNotSellable
  | VR_MissingTaxObservation
  | VR_InsufficientBalance
  | VR_InsufficientAllowance
  | VR_AllowanceSpenderMismatch
  | VR_MissingAllowanceObservation
  | VR_MinOutNotMet
  | VR_AmountPolicyViolation
  | VR_UnsupportedAmountType
  | VR_NetDeltaInconsistent
  | VR_DomainInvalid
  | VR_BridgeInvalid

datatype revalidation_outcome =
    Valid execution_preview
  | AbortRequote revalidation_reason
  | AbortFinal revalidation_reason

section \<open>Classification of failures\<close>

text \<open>A panic of the tax arithmetic has no arm in the code; assessments do not run that arithmetic.\<close>

definition map_tax_error :: "tax_safety_error \<Rightarrow> revalidation_outcome" where
  "map_tax_error e =
     (case e of
        TE_MissingObservation \<Rightarrow> AbortFinal VR_MissingTaxObservation
      | TE_StaleObservation \<Rightarrow> AbortRequote VR_TaxObservationStale
      | TE_FreshnessEvaluationFailed \<Rightarrow> AbortRequote VR_TaxObservationStale
      | TE_ResyncRequired \<Rightarrow> AbortFinal VR_ResyncRequired
      | TE_TokenNotSellable \<Rightarrow> AbortFinal VR_TokenNotSellable
      | TE_BuyTaxExceedsCap \<Rightarrow> AbortFinal VR_TaxCapExceeded
      | TE_SellTaxExceedsCap \<Rightarrow> AbortFinal VR_TaxCapExceeded
      | _ \<Rightarrow> AbortFinal VR_DomainInvalid)"

definition map_bridge_error :: "bridge_error \<Rightarrow> revalidation_outcome" where
  "map_bridge_error e =
     (case e of
        BR_NetDeltaInconsistent _ \<Rightarrow> AbortFinal VR_NetDeltaInconsistent
      | BR_FreshnessUnavailable \<Rightarrow> AbortRequote VR_StaleState
      | BR_TaxCapExceeded \<Rightarrow> AbortFinal VR_TaxCapExceeded
      | BR_Domain d \<Rightarrow>
          (case d of
             DE_StaleMarketState \<Rightarrow> AbortRequote VR_StaleState
           | DE_ResyncRequired \<Rightarrow> AbortFinal VR_ResyncRequired
           | DE_LimitPriceViolated \<Rightarrow> AbortRequote VR_MinOutNotMet
           | DE_InconsistentNetEconomics _ \<Rightarrow> AbortRequote VR_AmountPolicyViolation
           | DE_UnsupportedAmountType \<Rightarrow> AbortFinal VR_UnsupportedAmountType
           | _ \<Rightarrow> AbortFinal VR_DomainInvalid)
      | BR_AssessedAssetMismatch \<Rightarrow> AbortFinal VR_DomainInvalid
      | BR_AssessmentDeltaMismatch \<Rightarrow> AbortFinal VR_DomainInvalid
      | BR_ChainMismatch \<Rightarrow> AbortFinal VR_DomainInvalid
      | BR_InputAssetMismatch \<Rightarrow> AbortFinal VR_DomainInvalid
      | BR_OutputAssetMismatch \<Rightarrow> AbortFinal VR_DomainInvalid
      | BR_DirectionMismatch \<Rightarrow> AbortFinal VR_DomainInvalid
      | BR_Cpmm _ \<Rightarrow> AbortFinal VR_BridgeInvalid
      | BR_Clmm _ \<Rightarrow> AbortFinal VR_BridgeInvalid
      | BR_Bin _ \<Rightarrow> AbortFinal VR_BridgeInvalid
      | BR_Tax _ \<Rightarrow> AbortFinal VR_BridgeInvalid)"

definition classify_freshness :: "freshness_policy \<Rightarrow> freshness \<Rightarrow> i64 \<Rightarrow> freshness_status option" where
  "classify_freshness policy state now_ms =
     (if fr_sequence state = 0 then Some FS_ResyncRequired
      else case evaluate_freshness policy (fr_observed_at_ms state) now_ms (fr_sequence state) False of
             Inl _ \<Rightarrow> None
           | Inr meta \<Rightarrow> Some (fm_status meta))"

definition expected_spender_ref :: "route_leg_ref list \<Rightarrow> chain_id \<Rightarrow> string option" where
  "expected_spender_ref legs chain =
     (case legs of
        [] \<Rightarrow> None
      | leg # _ \<Rightarrow> Some (if chain = Solana then rg_pool_ref leg else rg_venue leg))"

section \<open>The checks\<close>

text \<open>Checks 0 and 1.\<close>

definition check_approval ::
  "trade_intent \<Rightarrow> approved_execution option \<Rightarrow> bool \<Rightarrow> i64 \<Rightarrow> revalidation_outcome + unit" where
  "check_approval intent approved enabled now_ms =
     (if \<not> enabled then Inl (AbortFinal VR_TradingDisabled)
      else case approved of
        None \<Rightarrow> Inl (AbortFinal VR_ApprovalMissing)
      | Some a \<Rightarrow>
          if ae_intent_id a \<noteq> ti_id intent \<or> ae_wallet_ref a \<noteq> ti_wallet_ref intent \<or> ae_chain a \<noteq> ti_chain intent \<or>
             ae_idempotency_key a \<noteq> ti_idempotency_key intent
          then Inl (AbortFinal VR_ApprovalBindingMismatch)
          else if (case ae_expires_at_ms a of Some expires \<Rightarrow> expires \<le> now_ms | None \<Rightarrow> False)
          then Inl (AbortFinal VR_PolicyExpired)
          else Inr ())"

text \<open>Check 2, over the allowances that are present: at most one for a single route.\<close>

definition check_recipient ::
  "trade_intent \<Rightarrow> wallet_balance \<Rightarrow> tax_observation option \<Rightarrow> allowance_observation list \<Rightarrow>
     revalidation_outcome + unit" where
  "check_recipient intent wallet observation allowances =
     (if wb_wallet_ref wallet \<noteq> ti_wallet_ref intent \<or> wb_chain wallet \<noteq> ti_chain intent
      then Inl (AbortFinal VR_RecipientMismatch)
      else if (case observation of
                 Some t \<Rightarrow> tob_wallet_ref t \<noteq> ti_wallet_ref intent \<or> tob_chain t \<noteq> ti_chain intent
               | None \<Rightarrow> False)
      then Inl (AbortFinal VR_RecipientMismatch)
      else
        for_each (\<lambda>ob. case observed_state ob of
            None \<Rightarrow> Inr ()
          | Some a \<Rightarrow> if al_wallet_ref a \<noteq> ti_wallet_ref intent \<or> al_chain a \<noteq> ti_chain intent
                      then Inl (AbortFinal VR_RecipientMismatch) else Inr ()) allowances)"

text \<open>Check 3 on the legs of the route, or of all branches in order.\<close>

definition check_allowlists ::
  "policy_limits \<Rightarrow> string set \<Rightarrow> route_leg list \<Rightarrow> revalidation_outcome + unit" where
  "check_allowlists limits programs legs =
     bindR (if pl_allowed_venues limits \<noteq> {} then
              for_each (\<lambda>leg. if rl_venue leg \<notin> pl_allowed_venues limits
                             then Inl (AbortFinal VR_VenueNotAllowlisted) else Inr ()) legs
            else Inr ()) (\<lambda>_.
     for_each (\<lambda>leg.
       let is_solana = asset_chain (rl_token_in leg) = Solana \<or> asset_chain (rl_token_out leg) = Solana in
       if is_solana \<and> rl_pool_ref leg \<notin> programs then Inl (AbortFinal VR_ProgramNotAllowlisted) else Inr ()) legs)"

text \<open>The router of a tax observation must be an allowed program, or one of the expected spenders.\<close>

definition check_router ::
  "string set \<Rightarrow> string set \<Rightarrow> tax_observation option \<Rightarrow> revalidation_outcome + unit" where
  "check_router programs spenders observation =
     (case observation of
        None \<Rightarrow> Inr ()
      | Some t \<Rightarrow>
          if tob_chain t = Solana then
            if tob_router_ref t \<notin> programs then Inl (AbortFinal VR_ProgramNotAllowlisted) else Inr ()
          else if tob_router_ref t \<notin> spenders then Inl (AbortFinal VR_AllowanceSpenderMismatch)
          else Inr ())"

text \<open>The match on a freshness status in checks 4b and 5.\<close>

definition check_fresh :: "freshness_policy \<Rightarrow> i64 \<Rightarrow> freshness \<Rightarrow> revalidation_outcome + unit" where
  "check_fresh policy now_ms state =
     (case classify_freshness policy state now_ms of
        Some FS_Fresh \<Rightarrow> Inr ()
      | Some FS_Stale \<Rightarrow> Inl (AbortRequote VR_StaleState)
      | Some FS_ResyncRequired \<Rightarrow> Inl (AbortFinal VR_ResyncRequired)
      | None \<Rightarrow> Inl (AbortFinal VR_StateRegression))"

definition check_all_fresh ::
  "freshness_policy \<Rightarrow> i64 \<Rightarrow> freshness \<Rightarrow> wallet_balance \<Rightarrow> allowance_observation list \<Rightarrow>
     revalidation_outcome + unit" where
  "check_all_fresh policy now_ms state wallet allowances =
     bindR (check_fresh policy now_ms state) (\<lambda>_.
     bindR (check_fresh policy now_ms (wb_freshness wallet)) (\<lambda>_.
     for_each (\<lambda>ob. case observed_state ob of
         None \<Rightarrow> Inr ()
       | Some a \<Rightarrow> check_fresh policy now_ms (al_freshness a)) allowances))"

text \<open>Check 6.\<close>

definition check_tax ::
  "trade_intent \<Rightarrow> tax_observation option \<Rightarrow> i64 \<Rightarrow> freshness_policy \<Rightarrow> tax_assessment \<Rightarrow>
     revalidation_outcome + tax_assessment" where
  "check_tax intent observation now_ms policy basis =
     (case observation of
        None \<Rightarrow> Inl (AbortFinal VR_MissingTaxObservation)
      | Some t \<Rightarrow>
          bindR (map_err map_tax_error (evaluate_tax_safety intent (Some t) now_ms policy)) (\<lambda>assessment.
          if ta_buy_tax assessment \<noteq> ta_buy_tax basis \<or> ta_sell_tax assessment \<noteq> ta_sell_tax basis
          then Inl (AbortRequote VR_TaxChanged)
          else Inr assessment))"

text \<open>Check 7.\<close>

definition check_balance :: "wallet_balance \<Rightarrow> asset_amount \<Rightarrow> revalidation_outcome + unit" where
  "check_balance wallet net_input =
     (if wb_asset wallet \<noteq> aa_asset net_input then Inl (AbortFinal VR_StateRegression)
      else if wb_available wallet < aa_amount net_input then Inl (AbortRequote VR_InsufficientBalance)
      else Inr ())"

text \<open>Check 9.\<close>

definition check_min_out ::
  "trade_intent \<Rightarrow> asset_amount \<Rightarrow> atomic_amount \<Rightarrow> atomic_amount \<Rightarrow> revalidation_outcome + unit" where
  "check_min_out intent min_out net_output expected_output =
     (if aa_asset min_out \<noteq> ti_token_out intent then Inl (AbortFinal VR_MinOutNotMet)
      else if net_output < aa_amount min_out then Inl (AbortRequote VR_MinOutNotMet)
      else
        let slippage_floor_bps = saturating_sub 10000 (ucast (max_slippage (ti_risk intent))) in
        if cmp_u128_products (aa_amount min_out) 10000 expected_output slippage_floor_bps = Less
        then Inl (AbortFinal VR_AmountPolicyViolation)
        else Inr ())"

section \<open>A single route\<close>

text \<open>Check 8.\<close>

definition check_allowance ::
  "route_leg_ref list \<Rightarrow> chain_id \<Rightarrow> allowance_observation \<Rightarrow> asset_amount \<Rightarrow> revalidation_outcome + unit" where
  "check_allowance binding chain allowance net_input =
     (case observed_state allowance of
        None \<Rightarrow> Inr ()
      | Some a \<Rightarrow>
          if expected_spender_ref binding chain \<noteq> Some (al_spender_ref a)
          then Inl (AbortFinal VR_AllowanceSpenderMismatch)
          else if al_asset a \<noteq> aa_asset net_input then Inl (AbortFinal VR_StateRegression)
          else if al_amount a < aa_amount net_input then Inl (AbortRequote VR_InsufficientAllowance)
          else Inr ())"

text \<open>The early returns of \<open>revalidate_pre_sign\<close>; what remains when no check aborts is the validated preview.\<close>

definition pre_sign_checks :: "revalidation_input \<Rightarrow> revalidation_outcome + execution_preview" where
  "pre_sign_checks i =
     bindR (check_approval (vi_intent i) (vi_approval i) (vi_trading_enabled i) (vi_now_ms i)) (\<lambda>_.
     bindR (check_recipient (vi_intent i) (vi_wallet_balance i) (vi_tax_observation i) [vi_allowance i]) (\<lambda>_.
     bindR (check_allowlists (vi_policy_limits i) (vi_allowed_programs i) (rp_legs (vi_route i))) (\<lambda>_.
     bindR (check_router (vi_allowed_programs i)
              (set_option (expected_spender_ref (vi_approved_route_binding i) (ti_chain (vi_intent i))))
              (vi_tax_observation i)) (\<lambda>_.
     if from_route (vi_route i) \<noteq> vi_approved_route_binding i then Inl (AbortRequote VR_SelectedRouteMismatch)
     else
       bindR (check_all_fresh (vi_freshness_policy i) (vi_now_ms i) (rp_state (vi_route i)) (vi_wallet_balance i)
                [vi_allowance i]) (\<lambda>_.
       bindR (check_tax (vi_intent i) (vi_tax_observation i) (vi_now_ms i) (vi_freshness_policy i)
                (vi_basis_assessment i)) (\<lambda>fresh_assessment.
       bindR (check_balance (vi_wallet_balance i) (nd_net_input (vi_net_delta i))) (\<lambda>_.
       bindR (check_allowance (vi_approved_route_binding i) (ti_chain (vi_intent i)) (vi_allowance i)
                (nd_net_input (vi_net_delta i))) (\<lambda>_.
       bindR (check_min_out (vi_intent i) (vi_min_out i) (aa_amount (nd_net_output (vi_net_delta i)))
                (aa_amount (rp_expected_net_output (vi_route i)))) (\<lambda>_.
       map_err map_bridge_error
         (validate_delta_preview_with_assessment (vi_intent i) (vi_route i) (vi_net_delta i) fresh_assessment
            (vi_now_ms i)))))))))))"

definition revalidate_pre_sign :: "revalidation_input \<Rightarrow> revalidation_outcome" where
  "revalidate_pre_sign i = (case pre_sign_checks i of Inl outcome \<Rightarrow> outcome | Inr preview \<Rightarrow> Valid preview)"

section \<open>Splits\<close>

record split_leg_ref =
  sg_amount_in :: atomic_amount
  sg_legs :: "route_leg_ref list"

text \<open>\<open>SplitRouteBinding\<close> is its only field, the list of branches.\<close>

definition from_split :: "split_plan \<Rightarrow> split_leg_ref list" where
  "from_split split =
     map (\<lambda>branch. \<lparr>sg_amount_in = sl_amount_in branch, sg_legs = from_route (sl_route branch)\<rparr>) (sp_legs split)"

record split_revalidation_input =
  vp_intent :: trade_intent
  vp_approval :: "approved_execution option"
  vp_policy_limits :: policy_limits
  vp_allowed_programs :: "string set"
  vp_trading_enabled :: bool
  vp_now_ms :: i64
  vp_freshness_policy :: freshness_policy
  vp_split :: split_plan
  vp_branch_deltas :: "net_delta list"
  vp_basis_assessment :: tax_assessment
  vp_tax_observation :: "tax_observation option"
  vp_approved_split_binding :: "split_leg_ref list"
  vp_min_out :: asset_amount
  vp_wallet_balance :: wallet_balance
  vp_allowances :: "allowance_observation list"

fun attribute_spender :: "(string \<times> u128) list \<Rightarrow> string \<Rightarrow> u128 \<Rightarrow> (string \<times> u128) list option" where
  "attribute_spender [] spender amount = Some [(spender, amount)]"
| "attribute_spender ((existing, attributed) # required) spender amount =
     (if existing = spender then
        Option.bind (checked_add attributed amount) (\<lambda>t. Some ((existing, t) # required))
      else Option.bind (attribute_spender required spender amount) (\<lambda>r. Some ((existing, attributed) # r)))"

fun split_spenders :: "chain_id \<Rightarrow> (string \<times> u128) list \<Rightarrow> split_leg_ref list \<Rightarrow> (string \<times> u128) list option" where
  "split_spenders chain required [] = Some required"
| "split_spenders chain required (branch # branches) =
     Option.bind (expected_spender_ref (sg_legs branch) chain) (\<lambda>spender.
     Option.bind (attribute_spender required spender (sg_amount_in branch)) (\<lambda>required.
     split_spenders chain required branches))"

definition required_split_spenders :: "split_leg_ref list \<Rightarrow> chain_id \<Rightarrow> (string \<times> u128) list option" where
  "required_split_spenders binding chain = split_spenders chain [] binding"

text \<open>Check 3b: the loop over the observations, with the spenders seen so far.\<close>

fun collect_spenders ::
  "string set \<Rightarrow> string list \<Rightarrow> allowance_observation list \<Rightarrow> revalidation_outcome + string list" where
  "collect_spenders required seen [] = Inr seen"
| "collect_spenders required seen (ob # obs) =
     (case ob of
        NotRequired \<Rightarrow> Inl (AbortFinal VR_MissingAllowanceObservation)
      | Required state \<Rightarrow>
          if al_spender_ref state \<notin> required then Inl (AbortFinal VR_AllowanceSpenderMismatch)
          else if al_spender_ref state \<in> set seen then Inl (AbortFinal VR_AllowanceSpenderMismatch)
          else collect_spenders required (seen @ [al_spender_ref state]) obs)"

definition check_allowance_set ::
  "(string \<times> u128) list \<Rightarrow> allowance_observation list \<Rightarrow> revalidation_outcome + unit" where
  "check_allowance_set required allowances =
     (if required = [] then
        if allowances \<noteq> [] then Inl (AbortFinal VR_AllowanceSpenderMismatch) else Inr ()
      else
        bindR (collect_spenders (fst ` set required) [] allowances) (\<lambda>seen.
        if \<exists>(spender, _) \<in> set required. spender \<notin> set seen then Inl (AbortFinal VR_MissingAllowanceObservation)
        else Inr ()))"

text \<open>Check 8 for one required spender.\<close>

definition check_spender ::
  "allowance_observation list \<Rightarrow> asset_id \<Rightarrow> string \<times> u128 \<Rightarrow> revalidation_outcome + unit" where
  "check_spender allowances asset = (\<lambda>(spender, attributed).
     case find (\<lambda>state. al_spender_ref state = spender) (List.map_filter observed_state allowances) of
       None \<Rightarrow> Inl (AbortFinal VR_MissingAllowanceObservation)
     | Some state \<Rightarrow>
         if al_asset state \<noteq> asset then Inl (AbortFinal VR_StateRegression)
         else if al_amount state < attributed then Inl (AbortRequote VR_InsufficientAllowance)
         else Inr ())"

definition split_pre_sign_checks :: "split_revalidation_input \<Rightarrow> revalidation_outcome + execution_preview" where
  "split_pre_sign_checks i =
     bindR (check_approval (vp_intent i) (vp_approval i) (vp_trading_enabled i) (vp_now_ms i)) (\<lambda>_.
     bindR (check_recipient (vp_intent i) (vp_wallet_balance i) (vp_tax_observation i) (vp_allowances i)) (\<lambda>_.
     bindR (check_allowlists (vp_policy_limits i) (vp_allowed_programs i)
              (concat (map (\<lambda>branch. rp_legs (sl_route branch)) (sp_legs (vp_split i))))) (\<lambda>_.
     bindR (ok_or (AbortFinal VR_AmountPolicyViolation)
              (required_split_spenders (vp_approved_split_binding i) (ti_chain (vp_intent i)))) (\<lambda>required.
     bindR (check_router (vp_allowed_programs i) (fst ` set required) (vp_tax_observation i)) (\<lambda>_.
     bindR (check_allowance_set required (vp_allowances i)) (\<lambda>_.
     if from_split (vp_split i) \<noteq> vp_approved_split_binding i then Inl (AbortRequote VR_SelectedRouteMismatch)
     else
       bindR (check_all_fresh (vp_freshness_policy i) (vp_now_ms i) (sp_state (vp_split i)) (vp_wallet_balance i)
                (vp_allowances i)) (\<lambda>_.
       bindR (check_tax (vp_intent i) (vp_tax_observation i) (vp_now_ms i) (vp_freshness_policy i)
                (vp_basis_assessment i)) (\<lambda>fresh_assessment.
       bindR (map_err (\<lambda>_. AbortFinal VR_NetDeltaInconsistent) (aggregate (vp_branch_deltas i))) (\<lambda>total_delta.
       bindR (check_balance (vp_wallet_balance i) (nd_net_input total_delta)) (\<lambda>_.
       bindR (for_each (check_spender (vp_allowances i) (aa_asset (nd_net_input total_delta))) required) (\<lambda>_.
       bindR (check_min_out (vp_intent i) (vp_min_out i) (aa_amount (nd_net_output total_delta))
                (aa_amount (sp_expected_net_output (vp_split i)))) (\<lambda>_.
       map_err map_bridge_error
         (validate_split_delta_preview_with_assessment (vp_intent i) (vp_split i) (vp_branch_deltas i) fresh_assessment
            (vp_now_ms i))))))))))))))"

definition revalidate_split_pre_sign :: "split_revalidation_input \<Rightarrow> revalidation_outcome" where
  "revalidate_split_pre_sign i =
     (case split_pre_sign_checks i of Inl outcome \<Rightarrow> outcome | Inr preview \<Rightarrow> Valid preview)"

section \<open>What the checks establish\<close>

definition approval_live :: "approved_execution option \<Rightarrow> trade_intent \<Rightarrow> i64 \<Rightarrow> bool" where
  "approval_live approved intent now_ms \<longleftrightarrow>
     (\<exists>a. approved = Some a \<and> ae_intent_id a = ti_id intent \<and> ae_wallet_ref a = ti_wallet_ref intent \<and>
       ae_chain a = ti_chain intent \<and> ae_idempotency_key a = ti_idempotency_key intent \<and>
       (\<forall>expires. ae_expires_at_ms a = Some expires \<longrightarrow> now_ms < expires))"

definition leg_allowed :: "policy_limits \<Rightarrow> string set \<Rightarrow> route_leg \<Rightarrow> bool" where
  "leg_allowed limits programs leg \<longleftrightarrow>
     (pl_allowed_venues limits = {} \<or> rl_venue leg \<in> pl_allowed_venues limits) \<and>
     (asset_chain (rl_token_in leg) = Solana \<or> asset_chain (rl_token_out leg) = Solana \<longrightarrow> rl_pool_ref leg \<in> programs)"


text \<open>A balance of the wallet of the intent, fresh for the policy, that covers a debit.\<close>

definition funded :: "trade_intent \<Rightarrow> freshness_policy \<Rightarrow> i64 \<Rightarrow> wallet_balance \<Rightarrow> asset_amount \<Rightarrow> bool" where
  "funded intent policy now_ms wallet debit \<longleftrightarrow>
     wb_wallet_ref wallet = ti_wallet_ref intent \<and> wb_chain wallet = ti_chain intent \<and>
     classify_freshness policy (wb_freshness wallet) now_ms = Some FS_Fresh \<and>
     wb_asset wallet = aa_asset debit \<and> aa_amount debit \<le> wb_available wallet"

text \<open>An allowance of the wallet of the intent, fresh for the policy.\<close>

definition own_allowance :: "trade_intent \<Rightarrow> freshness_policy \<Rightarrow> i64 \<Rightarrow> allowance_state \<Rightarrow> bool" where
  "own_allowance intent policy now_ms a \<longleftrightarrow>
     al_wallet_ref a = ti_wallet_ref intent \<and> al_chain a = ti_chain intent \<and>
     classify_freshness policy (al_freshness a) now_ms = Some FS_Fresh"

text \<open>The minimum output is met and itself not below the slippage the intent accepts.\<close>

definition output_floor :: "trade_intent \<Rightarrow> asset_amount \<Rightarrow> u128 \<Rightarrow> u128 \<Rightarrow> bool" where
  "output_floor intent min_out net_output expected_output \<longleftrightarrow>
     aa_asset min_out = ti_token_out intent \<and> aa_amount min_out \<le> net_output \<and>
     unat expected_output * (10000 - unat (max_slippage (ti_risk intent))) \<le> unat (aa_amount min_out) * 10000"

lemma check_approval_iff [result_iff]:
  "check_approval intent approved enabled now_ms = Inr u \<longleftrightarrow> enabled \<and> approval_live approved intent now_ms"
  by (auto simp: check_approval_def approval_live_def not_le split: option.splits)

text \<open>A check of every allowance that is present.\<close>

lemma for_each_required [result_iff]:
  "for_each (\<lambda>ob. case observed_state ob of None \<Rightarrow> Inr () | Some a \<Rightarrow> f a) obs = Inr u \<longleftrightarrow>
     (\<forall>a. Required a \<in> set obs \<longrightarrow> f a = Inr ())"
proof (induction obs)
  case (Cons ob obs)
  then show ?case by (cases ob) (simp_all add: observed_state_def bindR_Inr_iff, blast)
qed simp

lemma check_recipient_iff [result_iff]:
  "check_recipient intent wallet observation allowances = Inr u \<longleftrightarrow>
     wb_wallet_ref wallet = ti_wallet_ref intent \<and> wb_chain wallet = ti_chain intent \<and>
     (\<forall>t. observation = Some t \<longrightarrow> tob_wallet_ref t = ti_wallet_ref intent \<and> tob_chain t = ti_chain intent) \<and>
     (\<forall>a. Required a \<in> set allowances \<longrightarrow> al_wallet_ref a = ti_wallet_ref intent \<and> al_chain a = ti_chain intent)"
  unfolding check_recipient_def if_Inl_Inr_iff for_each_required by (cases observation) simp_all

lemma check_allowlists_iff [result_iff]:
  "check_allowlists limits programs legs = Inr u \<longleftrightarrow> (\<forall>leg \<in> set legs. leg_allowed limits programs leg)"
  unfolding check_allowlists_def bindR_Inr_iff for_each_Inr_iff leg_allowed_def Let_def if_Inl_Inr_iff
  by (cases "pl_allowed_venues limits = {}") (auto simp: for_each_Inr_iff if_Inl_Inr_iff)

lemma check_fresh_iff [result_iff]:
  "check_fresh policy now_ms state = Inr u \<longleftrightarrow> classify_freshness policy state now_ms = Some FS_Fresh"
  by (auto simp: check_fresh_def split: option.splits freshness_status.splits)

lemma check_all_fresh_iff [result_iff]:
  "check_all_fresh policy now_ms state wallet allowances = Inr u \<longleftrightarrow>
     classify_freshness policy state now_ms = Some FS_Fresh \<and>
     classify_freshness policy (wb_freshness wallet) now_ms = Some FS_Fresh \<and>
     (\<forall>a. Required a \<in> set allowances \<longrightarrow> classify_freshness policy (al_freshness a) now_ms = Some FS_Fresh)"
  by (simp add: check_all_fresh_def bindR_Inr_iff check_fresh_iff for_each_required)

lemma check_tax_Inr:
  assumes "check_tax intent observation now_ms policy basis = Inr a"
  shows "(\<exists>t. observation = Some t \<and> evaluate_tax_safety intent (Some t) now_ms policy = Inr a) \<and>
    assessed_rate intent a = assessed_rate intent basis"
  using assms by (auto simp: check_tax_def bindR_Inr_iff map_err_Inr_iff assessed_rate_def
      split: option.splits if_splits trade_side.splits)

lemma check_balance_iff [result_iff]:
  "check_balance wallet debit = Inr u \<longleftrightarrow> wb_asset wallet = aa_asset debit \<and> aa_amount debit \<le> wb_available wallet"
  by (auto simp: check_balance_def not_less)

lemma check_min_out_iff [result_iff]:
  "check_min_out intent min_out net_output expected_output = Inr u \<longleftrightarrow>
     output_floor intent min_out net_output expected_output"
proof -
  have "unat (saturating_sub 10000 (ucast (max_slippage (ti_risk intent))) :: u128)
      = 10000 - unat (max_slippage (ti_risk intent))"
    by (simp add: unat_saturating_sub unat_ucast_fee)
  then show ?thesis
    by (auto simp: check_min_out_def output_floor_def Let_def cmp_u128_products_eq cmp_iff not_less)
qed

lemma taxed_exactly_rate:
  "assessed_rate intent a = assessed_rate intent b \<Longrightarrow> taxed_exactly intent a d \<longleftrightarrow> taxed_exactly intent b d"
  by (simp add: taxed_exactly_def)

section \<open>The single route\<close>

lemma check_allowance_iff [result_iff]:
  "check_allowance binding chain allowance debit = Inr u \<longleftrightarrow>
     (\<forall>a. allowance = Required a \<longrightarrow> expected_spender_ref binding chain = Some (al_spender_ref a) \<and>
       al_asset a = aa_asset debit \<and> aa_amount debit \<le> al_amount a)"
  by (cases allowance) (auto simp: check_allowance_def observed_state_def not_less)

section \<open>Aborts\<close>

text \<open>No early return is \<open>Valid\<close>, and the reasons of a requote are about amounts, prices, age or the route.\<close>

definition requotable :: "revalidation_reason set" where
  "requotable = {VR_SelectedRouteMismatch, VR_StaleState, VR_TaxObservationStale, VR_TaxChanged, VR_InsufficientBalance,
     VR_InsufficientAllowance, VR_MinOutNotMet, VR_AmountPolicyViolation}"

definition aborts :: "revalidation_outcome \<Rightarrow> bool" where
  "aborts out \<longleftrightarrow> (case out of Valid _ \<Rightarrow> False | AbortRequote r \<Rightarrow> r \<in> requotable | AbortFinal _ \<Rightarrow> True)"

definition only_aborts :: "revalidation_outcome + 'a \<Rightarrow> bool" where
  "only_aborts m \<longleftrightarrow> (\<forall>out. m = Inl out \<longrightarrow> aborts out)"

named_theorems only_aborts

lemma only_aborts_basic [only_aborts]:
  "only_aborts (Inr x)" "only_aborts (Inl (AbortFinal r))" "r \<in> requotable \<Longrightarrow> only_aborts (Inl (AbortRequote r))"
  by (simp_all add: only_aborts_def aborts_def)

lemma only_aborts_if [only_aborts]: "only_aborts a \<Longrightarrow> only_aborts b \<Longrightarrow> only_aborts (if c then a else b)"
  by simp

lemma only_aborts_option [only_aborts]:
  "only_aborts a \<Longrightarrow> (\<And>x. only_aborts (f x)) \<Longrightarrow> only_aborts (case m of None \<Rightarrow> a | Some x \<Rightarrow> f x)"
  by (cases m) simp_all

lemma only_aborts_bindR [only_aborts]:
  "only_aborts m \<Longrightarrow> (\<And>x. only_aborts (f x)) \<Longrightarrow> only_aborts (bindR m f)"
  by (auto simp: only_aborts_def bindR_Inl_iff)

lemma only_aborts_for_each [only_aborts]: "(\<And>x. only_aborts (f x)) \<Longrightarrow> only_aborts (for_each f xs)"
  by (induction xs) (auto intro: only_aborts)

lemma only_aborts_map_err [only_aborts]: "(\<And>e. aborts (g e)) \<Longrightarrow> only_aborts (map_err g m)"
  by (auto simp: only_aborts_def map_err_Inl_iff)

lemma only_aborts_ok_or [only_aborts]: "aborts e \<Longrightarrow> only_aborts (ok_or e m)"
  by (simp add: only_aborts_def ok_or_Inl_iff)

lemma aborts_map_tax_error [only_aborts]: "aborts (map_tax_error e)"
  by (cases e) (simp_all add: map_tax_error_def aborts_def requotable_def)

lemma aborts_map_bridge_error [only_aborts]: "aborts (map_bridge_error e)"
proof (cases e)
  case (BR_Domain d)
  then show ?thesis by (cases d) (simp_all add: map_bridge_error_def aborts_def requotable_def)
qed (simp_all add: map_bridge_error_def aborts_def requotable_def)

lemma requotable_mem [only_aborts]:
  "VR_SelectedRouteMismatch \<in> requotable" "VR_StaleState \<in> requotable" "VR_TaxChanged \<in> requotable"
  "VR_InsufficientBalance \<in> requotable" "VR_InsufficientAllowance \<in> requotable" "VR_MinOutNotMet \<in> requotable"
  by (simp_all add: requotable_def)

lemma only_aborts_check_fresh [only_aborts]: "only_aborts (check_fresh policy now_ms state)"
  by (auto simp: check_fresh_def only_aborts split: option.splits freshness_status.splits)

lemma only_aborts_collect [only_aborts]: "only_aborts (collect_spenders required seen obs)"
  by (induction required seen obs rule: collect_spenders.induct)
    (auto simp: only_aborts split: allowance_observation.splits)

lemma only_aborts_checks [only_aborts]:
  "only_aborts (check_approval intent approved enabled now_ms)"
  "only_aborts (check_recipient intent wallet observation allowances)"
  "only_aborts (check_allowlists limits programs legs)"
  "only_aborts (check_router programs spenders observation)"
  "only_aborts (check_all_fresh policy now_ms state wallet allowances)"
  "only_aborts (check_tax intent observation now_ms policy basis)"
  "only_aborts (check_balance wallet debit)"
  "only_aborts (check_min_out intent min_out net_output expected)"
  "only_aborts (check_allowance binding chain allowance debit)"
  "only_aborts (check_allowance_set required allowances)"
  "only_aborts (check_spender allowances asset sa)"
  unfolding check_approval_def check_recipient_def check_allowlists_def check_router_def check_all_fresh_def check_tax_def
    check_balance_def check_min_out_def check_allowance_def check_allowance_set_def check_spender_def Let_def
    case_prod_beta
  by (intro only_aborts)+

lemma only_aborts_pre_sign: "only_aborts (pre_sign_checks i)" "only_aborts (split_pre_sign_checks j)"
  unfolding pre_sign_checks_def split_pre_sign_checks_def
  by (intro only_aborts | simp add: aborts_def)+

lemma revalidate_Valid_iff:
  "revalidate_pre_sign i = Valid p \<longleftrightarrow> pre_sign_checks i = Inr p"
  "revalidate_split_pre_sign j = Valid p \<longleftrightarrow> split_pre_sign_checks j = Inr p"
  using only_aborts_pre_sign(1) [of i] only_aborts_pre_sign(2) [of j]
  by (auto simp: revalidate_pre_sign_def revalidate_split_pre_sign_def only_aborts_def aborts_def split: sum.splits)






section \<open>The spenders of a split\<close>

text \<open>The budget of the branches that a spender pulls, and the amount a list of spenders attributes to it.\<close>

definition pulled_by :: "chain_id \<Rightarrow> split_leg_ref list \<Rightarrow> string \<Rightarrow> nat" where
  "pulled_by chain branches spender =
     (\<Sum>branch \<leftarrow> branches.
        if expected_spender_ref (sg_legs branch) chain = Some spender then unat (sg_amount_in branch) else 0)"

definition attributed_to :: "(string \<times> u128) list \<Rightarrow> string \<Rightarrow> nat" where
  "attributed_to required spender = (case map_of required spender of None \<Rightarrow> 0 | Some t \<Rightarrow> unat t)"

lemma attribute_spender_Some:
  assumes "attribute_spender required spender amount = Some r"
  shows "fst ` set r = insert spender (fst ` set required)"
    and "attributed_to r s = attributed_to required s + (if s = spender then unat amount else 0)"
proof (atomize (full), insert assms, induction required spender amount arbitrary: r rule: attribute_spender.induct)
  case (2 existing attributed required spender amount)
  show ?case
  proof (cases "existing = spender")
    case True
    with 2(2) show ?thesis by (auto simp: bind_eq_Some_conv checked_add_Some_iff attributed_to_def)
  next
    case False
    with 2(2) obtain r' where r': "attribute_spender required spender amount = Some r'"
      "r = (existing, attributed) # r'" by (auto simp: bind_eq_Some_conv)
    with 2(1) [OF False r'(1)] show ?thesis by (auto simp: attributed_to_def False)
  qed
qed (auto simp: attributed_to_def)

lemma split_spenders_Some:
  assumes "split_spenders chain required branches = Some r"
  shows "\<forall>branch \<in> set branches. \<exists>spender \<in> fst ` set r. expected_spender_ref (sg_legs branch) chain = Some spender"
    and "fst ` set required \<subseteq> fst ` set r"
    and "attributed_to r s = attributed_to required s + pulled_by chain branches s"
proof (atomize (full), insert assms, induction chain required branches arbitrary: r rule: split_spenders.induct)
  case (2 chain required branch branches)
  from 2(2) obtain spender q where q: "expected_spender_ref (sg_legs branch) chain = Some spender"
    "attribute_spender required spender (sg_amount_in branch) = Some q" "split_spenders chain q branches = Some r"
    by (auto simp: bind_eq_Some_conv)
  from 2(1) [OF q] attribute_spender_Some [OF q(2)] q(1) show ?case by (auto simp: pulled_by_def)
qed (simp add: pulled_by_def)

lemma collect_spenders_required:
  "collect_spenders required seen obs = Inr r \<Longrightarrow> NotRequired \<notin> set obs"
  by (induction required seen obs rule: collect_spenders.induct) (auto split: allowance_observation.splits if_splits)

lemma check_allowance_set_required: "check_allowance_set required obs = Inr u \<Longrightarrow> NotRequired \<notin> set obs"
  by (auto simp: check_allowance_set_def bindR_Inr_iff dest: collect_spenders_required split: if_splits)

lemma check_spender_Inr:
  assumes "check_spender obs asset (spender, attributed) = Inr u"
  shows "\<exists>a. Required a \<in> set obs \<and> al_spender_ref a = spender \<and> al_asset a = asset \<and> attributed \<le> al_amount a"
proof -
  from assms obtain a where a: "find (\<lambda>state. al_spender_ref state = spender) (List.map_filter observed_state obs) = Some a"
    "al_asset a = asset" "attributed \<le> al_amount a"
    by (auto simp: check_spender_def not_less split: option.splits if_splits)
  then have "a \<in> set (List.map_filter observed_state obs)" "al_spender_ref a = spender"
    by (auto simp: find_Some_iff)
  then show ?thesis using a(2,3)
    by (auto simp: List.map_filter_def observed_state_def split: allowance_observation.splits)
qed

lemma required_spenders_covered:
  assumes "required_split_spenders binding chain = Some required"
    and "for_each (check_spender obs asset) required = Inr u" and "branch \<in> set binding"
  shows "\<exists>a. Required a \<in> set obs \<and> expected_spender_ref (sg_legs branch) chain = Some (al_spender_ref a) \<and>
    al_asset a = asset \<and> pulled_by chain binding (al_spender_ref a) \<le> unat (al_amount a)"
proof -
  note s = split_spenders_Some [OF assms(1) [unfolded required_split_spenders_def]]
  obtain spender where sp: "spender \<in> fst ` set required" "expected_spender_ref (sg_legs branch) chain = Some spender"
    using s(1) assms(3) by blast
  obtain t where t: "map_of required spender = Some t" using sp(1) by (metis map_of_eq_None_iff not_Some_eq)
  then have "check_spender obs asset (spender, t) = Inr ()"
    using assms(2) by (auto simp: for_each_Inr_iff dest!: map_of_SomeD)
  moreover have "unat t = pulled_by chain binding spender"
    using s(3) [of spender] t by (simp add: attributed_to_def)
  ultimately show ?thesis using sp(2) by (auto dest!: check_spender_Inr simp: word_le_nat_alt)
qed

text \<open>A released preview passes the validation that the signing boundary repeats.\<close>

lemma released_preview_validates:
  assumes "revalidate_pre_sign i = Valid p"
  shows "preview_validate p (vi_intent i) (vi_route i) (vi_now_ms i) = Inr p"
    and "approval_live (vi_approval i) (vi_intent i) (vi_now_ms i)"
proof -
  from assms obtain a where live: "approval_live (vi_approval i) (vi_intent i) (vi_now_ms i)"
    and "validate_delta_preview_with_assessment (vi_intent i) (vi_route i) (vi_net_delta i) a (vi_now_ms i) = Inr p"
    unfolding revalidate_Valid_iff pre_sign_checks_def bindR_Inr_iff if_Inl_Inr_iff map_err_Inr_iff check_approval_iff
    by auto
  then have "validate_delta_preview (vi_intent i) (vi_route i) (vi_net_delta i) (vi_now_ms i) = Inr p"
    unfolding validate_delta_preview_with_assessment_def bindR_Inr_iff if_Inl_Inr_iff by auto
  with live show "preview_validate p (vi_intent i) (vi_route i) (vi_now_ms i) = Inr p"
    "approval_live (vi_approval i) (vi_intent i) (vi_now_ms i)"
    by (auto elim: validate_delta_preview_Inr)
qed

section \<open>Properties\<close>

text \<open>C6. Only what was approved, funded and assessed is released for signing. If the pre-sign gate accepts a route, then
  trading is enabled; a live approval is for this intent; the route is the approved one, over allowed venues and
  programs; state, balance and allowance are fresh for the policy of the caller; the balance covers the whole debit,
  and so does an allowance, which is for the spender of the approved route; the minimum output is met and is not
  below the accepted slippage; the preview is safe for the intent and shows exactly the delta; and the tax of the
  delta is exactly the assessed one, within the cap of the intent, and unchanged since the simulation.\<close>

theorem revalidate_valid_sound:
  assumes "revalidate_pre_sign i = Valid p"
    and "assessed_rate (vi_intent i) (vi_basis_assessment i) \<le> BPS_MAX" and "vi_now_ms i < 2 ^ 63"
  shows "vi_trading_enabled i \<and> approval_live (vi_approval i) (vi_intent i) (vi_now_ms i) \<and>
    from_route (vi_route i) = vi_approved_route_binding i \<and>
    (\<forall>leg \<in> set (rp_legs (vi_route i)). leg_allowed (vi_policy_limits i) (vi_allowed_programs i) leg) \<and>
    classify_freshness (vi_freshness_policy i) (rp_state (vi_route i)) (vi_now_ms i) = Some FS_Fresh \<and>
    funded (vi_intent i) (vi_freshness_policy i) (vi_now_ms i) (vi_wallet_balance i) (ep_simulated_net_input p) \<and>
    (\<forall>a. vi_allowance i = Required a \<longrightarrow> own_allowance (vi_intent i) (vi_freshness_policy i) (vi_now_ms i) a \<and>
      expected_spender_ref (vi_approved_route_binding i) (ti_chain (vi_intent i)) = Some (al_spender_ref a) \<and>
      al_asset a = ti_token_in (vi_intent i) \<and> aa_amount (ep_simulated_net_input p) \<le> al_amount a) \<and>
    output_floor (vi_intent i) (vi_min_out i) (aa_amount (ep_simulated_net_output p))
      (aa_amount (rp_expected_net_output (vi_route i))) \<and>
    preview_sound p (vi_intent i) \<and> ep_simulated_net_input p = nd_net_input (vi_net_delta i) \<and>
    ep_simulated_net_output p = nd_net_output (vi_net_delta i) \<and>
    taxed_exactly (vi_intent i) (vi_basis_assessment i) (vi_net_delta i) \<and>
    assessed_rate (vi_intent i) (vi_basis_assessment i) \<le> rate_cap (vi_intent i)"
proof -
  from assms(1) obtain a where
    c: "vi_trading_enabled i \<and> approval_live (vi_approval i) (vi_intent i) (vi_now_ms i)"
      "from_route (vi_route i) = vi_approved_route_binding i"
      "\<forall>leg \<in> set (rp_legs (vi_route i)). leg_allowed (vi_policy_limits i) (vi_allowed_programs i) leg"
    and r: "check_recipient (vi_intent i) (vi_wallet_balance i) (vi_tax_observation i) [vi_allowance i] = Inr ()"
      "check_all_fresh (vi_freshness_policy i) (vi_now_ms i) (rp_state (vi_route i)) (vi_wallet_balance i)
        [vi_allowance i] = Inr ()"
      "check_balance (vi_wallet_balance i) (nd_net_input (vi_net_delta i)) = Inr ()"
      "check_allowance (vi_approved_route_binding i) (ti_chain (vi_intent i)) (vi_allowance i)
        (nd_net_input (vi_net_delta i)) = Inr ()"
    and f: "output_floor (vi_intent i) (vi_min_out i) (aa_amount (nd_net_output (vi_net_delta i)))
      (aa_amount (rp_expected_net_output (vi_route i)))"
    and t: "check_tax (vi_intent i) (vi_tax_observation i) (vi_now_ms i) (vi_freshness_policy i)
        (vi_basis_assessment i) = Inr a"
    and v: "validate_delta_preview_with_assessment (vi_intent i) (vi_route i) (vi_net_delta i) a (vi_now_ms i) = Inr p"
    unfolding revalidate_Valid_iff pre_sign_checks_def bindR_Inr_iff if_Inl_Inr_iff map_err_Inr_iff check_approval_iff
      check_allowlists_iff check_min_out_iff by auto
  note rate = check_tax_Inr [OF t, THEN conjunct2]
  have rate_ok: "assessed_rate (vi_intent i) a \<le> BPS_MAX" using assms(2) rate by simp
  note p = assessed_preview_sound [OF v rate_ok assms(3), unfolded rate taxed_exactly_rate [OF rate]]
  have asset: "aa_asset (ep_simulated_net_input p) = ti_token_in (vi_intent i)"
    using p [THEN conjunct1] unfolding preview_sound_def by blast
  show ?thesis
    using c r f p asset
    unfolding check_recipient_iff check_all_fresh_iff check_balance_iff check_allowance_iff funded_def own_allowance_def
    by simp
qed

text \<open>C9. The same for a split: every leg of every branch is allowed, every branch spends exactly its approved budget and
  carries exactly the assessed tax, the balance covers the sum of the budgets, and every spender of a branch has an
  allowance of the wallet for the input token that covers all branches the spender pulls. No observation in the list is
  \<open>NotRequired\<close>, so a split is never accepted with an allowance declared unnecessary.\<close>

theorem revalidate_split_valid_sound:
  assumes "revalidate_split_pre_sign i = Valid p"
    and "assessed_rate (vp_intent i) (vp_basis_assessment i) \<le> BPS_MAX" and "vp_now_ms i < 2 ^ 63"
  shows "vp_trading_enabled i \<and> approval_live (vp_approval i) (vp_intent i) (vp_now_ms i) \<and>
    from_split (vp_split i) = vp_approved_split_binding i \<and>
    (\<forall>branch \<in> set (sp_legs (vp_split i)). \<forall>leg \<in> set (rp_legs (sl_route branch)).
      leg_allowed (vp_policy_limits i) (vp_allowed_programs i) leg) \<and>
    classify_freshness (vp_freshness_policy i) (sp_state (vp_split i)) (vp_now_ms i) = Some FS_Fresh \<and>
    funded (vp_intent i) (vp_freshness_policy i) (vp_now_ms i) (vp_wallet_balance i) (ep_simulated_net_input p) \<and>
    NotRequired \<notin> set (vp_allowances i) \<and>
    (\<forall>branch \<in> set (vp_approved_split_binding i). \<exists>a. Required a \<in> set (vp_allowances i) \<and>
      expected_spender_ref (sg_legs branch) (ti_chain (vp_intent i)) = Some (al_spender_ref a) \<and>
      own_allowance (vp_intent i) (vp_freshness_policy i) (vp_now_ms i) a \<and> al_asset a = ti_token_in (vp_intent i) \<and>
      pulled_by (ti_chain (vp_intent i)) (vp_approved_split_binding i) (al_spender_ref a) \<le> unat (al_amount a)) \<and>
    output_floor (vp_intent i) (vp_min_out i) (aa_amount (ep_simulated_net_output p))
      (aa_amount (sp_expected_net_output (vp_split i))) \<and>
    preview_sound p (vp_intent i) \<and>
    unat (aa_amount (ep_simulated_net_input p)) = (\<Sum>branch \<leftarrow> vp_approved_split_binding i. unat (sg_amount_in branch)) \<and>
    (\<forall>(d, leg) \<in> set (zip (vp_branch_deltas i) (sp_legs (vp_split i))). delta_ok d \<and>
      taxed_exactly (vp_intent i) (vp_basis_assessment i) d \<and> aa_amount (nd_net_input d) = sl_amount_in leg) \<and>
    assessed_rate (vp_intent i) (vp_basis_assessment i) \<le> rate_cap (vp_intent i)"
proof -
  from assms(1) obtain a required t where
    c: "vp_trading_enabled i \<and> approval_live (vp_approval i) (vp_intent i) (vp_now_ms i)"
      "from_split (vp_split i) = vp_approved_split_binding i"
      "\<forall>leg \<in> set (concat (map (\<lambda>branch. rp_legs (sl_route branch)) (sp_legs (vp_split i)))).
        leg_allowed (vp_policy_limits i) (vp_allowed_programs i) leg"
    and r: "check_recipient (vp_intent i) (vp_wallet_balance i) (vp_tax_observation i) (vp_allowances i) = Inr ()"
      "check_all_fresh (vp_freshness_policy i) (vp_now_ms i) (sp_state (vp_split i)) (vp_wallet_balance i)
        (vp_allowances i) = Inr ()"
      "check_balance (vp_wallet_balance i) (nd_net_input t) = Inr ()"
    and s: "required_split_spenders (vp_approved_split_binding i) (ti_chain (vp_intent i)) = Some required"
      "for_each (check_spender (vp_allowances i) (aa_asset (nd_net_input t))) required = Inr ()"
      "check_allowance_set required (vp_allowances i) = Inr ()"
    and f: "output_floor (vp_intent i) (vp_min_out i) (aa_amount (nd_net_output t))
      (aa_amount (sp_expected_net_output (vp_split i)))"
    and t: "aggregate (vp_branch_deltas i) = Inr t"
      "check_tax (vp_intent i) (vp_tax_observation i) (vp_now_ms i) (vp_freshness_policy i)
        (vp_basis_assessment i) = Inr a"
    and v: "validate_split_delta_preview_with_assessment (vp_intent i) (vp_split i) (vp_branch_deltas i) a (vp_now_ms i)
        = Inr p"
    unfolding revalidate_Valid_iff split_pre_sign_checks_def bindR_Inr_iff if_Inl_Inr_iff map_err_Inr_iff ok_or_Inr_iff
      check_approval_iff check_allowlists_iff check_min_out_iff by auto
  note rate = check_tax_Inr [OF t(2), THEN conjunct2]
  have rate_ok: "assessed_rate (vp_intent i) a \<le> BPS_MAX" using assms(2) rate by simp
  note p = assessed_split_conserves [OF v rate_ok assms(3), unfolded rate taxed_exactly_rate [OF rate] t(1)]
  have net: "ep_simulated_net_input p = nd_net_input t" "ep_simulated_net_output p = nd_net_output t" using p by auto
  have asset: "aa_asset (nd_net_input t) = ti_token_in (vp_intent i)"
    using p unfolding preview_sound_def net by blast
  have sum: "(\<Sum>branch \<leftarrow> vp_approved_split_binding i. unat (sg_amount_in branch)) =
      (\<Sum>leg \<leftarrow> sp_legs (vp_split i). unat (sl_amount_in leg))"
    by (simp add: c(2) [symmetric] from_split_def comp_def)
  have own: "own_allowance (vp_intent i) (vp_freshness_policy i) (vp_now_ms i) b" if "Required b \<in> set (vp_allowances i)" for b
    using r that unfolding check_recipient_iff check_all_fresh_iff own_allowance_def by blast
  have "funded (vp_intent i) (vp_freshness_policy i) (vp_now_ms i) (vp_wallet_balance i) (ep_simulated_net_input p)"
    using r unfolding check_recipient_iff check_all_fresh_iff check_balance_iff funded_def net by blast
  moreover have "classify_freshness (vp_freshness_policy i) (sp_state (vp_split i)) (vp_now_ms i) = Some FS_Fresh"
    using r unfolding check_all_fresh_iff by blast
  moreover note check_allowance_set_required [OF s(3)]
  moreover have "\<forall>branch \<in> set (sp_legs (vp_split i)). \<forall>leg \<in> set (rp_legs (sl_route branch)).
      leg_allowed (vp_policy_limits i) (vp_allowed_programs i) leg" using c(3) by simp
  ultimately show ?thesis
    using required_spenders_covered [OF s(1,2)] own p f c(1,2) unfolding net asset sum by blast
qed


definition sample_snapshot :: freshness where
  "sample_snapshot = \<lparr>fr_observed_at_ms = 1000, fr_chain_height = 1, fr_sequence = 7\<rparr>"

definition sample_observation :: tax_observation where
  "sample_observation = \<lparr>tob_chain = Base, tob_token = sample_out, tob_pool_ref = ''p'', tob_router_ref = ''v'',
     tob_wallet_ref = ''w'', tob_amount = 100, tob_block_or_slot = 7, tob_buy_tax = 300, tob_sell_tax = 500,
     tob_buy_succeeds = True, tob_sell_succeeds = True, tob_sellable = True, tob_confidence = 10000,
     tob_observed_at_ms = 1000, tob_expires_at_ms = 2000\<rparr>"

definition sample_venues :: policy_limits where
  "sample_venues = \<lparr>pl_max_trade_usd = 1000, pl_max_hourly_turnover_usd = 1000, pl_max_daily_turnover_usd = 1000,
     pl_max_buy_tax = 500, pl_max_sell_tax = 500, pl_max_price_impact = 300, pl_max_slippage = 200,
     pl_allowed_chains = {Base}, pl_allowed_venues = {''v''}\<rparr>"

definition sample_release :: approved_execution where
  "sample_release = \<lparr>ae_intent_id = ''i'', ae_wallet_ref = ''w'', ae_chain = Base, ae_idempotency_key = ''k'',
     ae_expires_at_ms = Some 2000, ae_approved_trade_usd = 100, ae_approved_at_ms = 1400\<rparr>"

definition sample_balance :: wallet_balance where
  "sample_balance = \<lparr>wb_wallet_ref = ''w'', wb_chain = Base, wb_asset = sample_in, wb_available = 150,
     wb_freshness = sample_snapshot\<rparr>"

definition sample_allowance :: allowance_observation where
  "sample_allowance = Required \<lparr>al_wallet_ref = ''w'', al_chain = Base, al_asset = sample_in, al_spender_ref = ''v'',
     al_amount = 100, al_freshness = sample_snapshot\<rparr>"

definition sample_gate :: "bool \<Rightarrow> revalidation_input" where
  "sample_gate enabled = \<lparr>vi_intent = sample_intent, vi_approval = Some sample_release, vi_policy_limits = sample_venues,
     vi_allowed_programs = {}, vi_trading_enabled = enabled, vi_now_ms = 1500,
     vi_freshness_policy = default_freshness_policy, vi_route = sample_route, vi_net_delta = sample_net_delta 100 61 1,
     vi_basis_assessment = sample_assessment sample_out, vi_tax_observation = Some sample_observation,
     vi_approved_route_binding = from_route sample_route,
     vi_min_out = \<lparr>aa_asset = sample_out, aa_amount = 59\<rparr>, vi_wallet_balance = sample_balance,
     vi_allowance = sample_allowance\<rparr>"

definition sample_split_gate :: split_revalidation_input where
  "sample_split_gate = \<lparr>vp_intent = sample_intent, vp_approval = Some sample_release, vp_policy_limits = sample_venues,
     vp_allowed_programs = {}, vp_trading_enabled = True, vp_now_ms = 1500,
     vp_freshness_policy = default_freshness_policy, vp_split = sample_split,
     vp_branch_deltas = [sample_net_delta 60 41 1, sample_net_delta 40 20 0],
     vp_basis_assessment = sample_assessment sample_out, vp_tax_observation = Some sample_observation,
     vp_approved_split_binding = from_split sample_split,
     vp_min_out = \<lparr>aa_asset = sample_out, aa_amount = 59\<rparr>, vp_wallet_balance = sample_balance,
     vp_allowances = [sample_allowance]\<rparr>"

lemma sample_fresh: "classify_freshness default_freshness_policy sample_snapshot 1500 = Some FS_Fresh"
  by (simp add: classify_freshness_def sample_snapshot_def preview_eval)

lemma sample_tax:
  "evaluate_tax_safety sample_intent (Some sample_observation) 1500 default_freshness_policy
     = Inr (sample_assessment sample_out)"
  by (simp add: evaluate_tax_safety_def sample_observation_def tax_observation_validate_def require_fresh_tax_def
      assessed_asset_for_intent_def sample_assessment_def preview_eval)

lemma gate_checks:
  "check_approval sample_intent (Some sample_release) True 1500 = Inr ()"
  "check_recipient sample_intent sample_balance (Some sample_observation) [sample_allowance] = Inr ()"
  "set legs \<subseteq> set (rp_legs sample_route) \<union> set (concat (map (\<lambda>branch. rp_legs (sl_route branch)) (sp_legs sample_split)))
     \<Longrightarrow> check_allowlists sample_venues {} legs = Inr ()"
  "''v'' \<in> spenders \<Longrightarrow> check_router {} spenders (Some sample_observation) = Inr ()"
  "check_all_fresh default_freshness_policy 1500 sample_snapshot sample_balance [sample_allowance] = Inr ()"
  "check_tax sample_intent (Some sample_observation) 1500 default_freshness_policy (sample_assessment sample_out) =
     Inr (sample_assessment sample_out)"
  "check_balance sample_balance \<lparr>aa_asset = sample_in, aa_amount = 100\<rparr> = Inr ()"
  "check_min_out sample_intent \<lparr>aa_asset = sample_out, aa_amount = 59\<rparr> 60 60 = Inr ()"
proof -
  assume "set legs \<subseteq> set (rp_legs sample_route) \<union>
    set (concat (map (\<lambda>branch. rp_legs (sl_route branch)) (sp_legs sample_split)))"
  moreover have "leg_allowed sample_venues {} leg" if "leg \<in> set (rp_legs sample_route) \<union>
      set (concat (map (\<lambda>branch. rp_legs (sl_route branch)) (sp_legs sample_split)))" for leg
    using that by (auto simp: leg_allowed_def sample_venues_def sample_route_def sample_split_def sample_branch_def
        sample_in_def sample_out_def)
  ultimately show "check_allowlists sample_venues {} legs = Inr ()" unfolding check_allowlists_iff by blast
next
  show "check_tax sample_intent (Some sample_observation) 1500 default_freshness_policy (sample_assessment sample_out) =
     Inr (sample_assessment sample_out)" by (simp add: check_tax_def sample_tax)
qed (simp_all add: check_approval_iff check_recipient_iff check_all_fresh_iff check_balance_iff check_min_out_iff
    check_router_def approval_live_def output_floor_def sample_fresh sample_release_def sample_intent_def
    sample_balance_def sample_observation_def sample_allowance_def sample_risk_def)

lemma sample_gate_valid: "\<exists>p. revalidate_pre_sign (sample_gate True) = Valid p"
proof -
  obtain p where p: "validate_delta_preview_with_assessment sample_intent sample_route (sample_net_delta 100 61 1)
     (sample_assessment sample_out) 1500 = Inr p" using sample_assessed by blast
  have r: "rp_state sample_route = sample_snapshot" "aa_amount (rp_expected_net_output sample_route) = 60"
    "expected_spender_ref (from_route sample_route) (ti_chain sample_intent) = Some ''v''"
    "nd_net_input (sample_net_delta 100 61 1) = \<lparr>aa_asset = sample_in, aa_amount = 100\<rparr>"
    "aa_amount (nd_net_output (sample_net_delta 100 61 1)) = 60"
    by (simp_all add: sample_route_def sample_branch_def sample_snapshot_def expected_spender_ref_def from_route_def
        sample_intent_def sample_net_delta_def)
  have "check_allowance (from_route sample_route) (ti_chain sample_intent) sample_allowance
      \<lparr>aa_asset = sample_in, aa_amount = 100\<rparr> = Inr ()"
    by (simp add: check_allowance_iff r sample_allowance_def)
  then have "pre_sign_checks (sample_gate True) = Inr p"
    unfolding pre_sign_checks_def sample_gate_def by (simp add: gate_checks r p)
  then show ?thesis by (auto simp: revalidate_Valid_iff)
qed

theorem revalidate_valid_sound_witness:
  "\<exists>p. revalidate_pre_sign (sample_gate True) = Valid p \<and> preview_sound p sample_intent \<and>
     funded sample_intent default_freshness_policy 1500 sample_balance (ep_simulated_net_input p)"
proof -
  obtain p where p: "revalidate_pre_sign (sample_gate True) = Valid p" using sample_gate_valid by blast
  have "assessed_rate (vi_intent (sample_gate True)) (vi_basis_assessment (sample_gate True)) \<le> BPS_MAX"
    "vi_now_ms (sample_gate True) < 2 ^ 63"
    by (simp_all add: sample_gate_def assessed_rate_def sample_intent_def sample_assessment_def BPS_MAX_def)
  from revalidate_valid_sound [OF p this] p show ?thesis by (auto simp: sample_gate_def)
qed

lemma sample_split_gate_valid: "\<exists>p. revalidate_split_pre_sign sample_split_gate = Valid p"
proof -
  let ?ds = "[sample_net_delta 60 41 1, sample_net_delta 40 20 0]"
  obtain p where p: "validate_split_delta_preview_with_assessment sample_intent sample_split ?ds
     (sample_assessment sample_out) 1500 = Inr p" using sample_split_assessed by blast
  have "assessed_rate sample_intent (sample_assessment sample_out) \<le> BPS_MAX"
    by (simp add: assessed_rate_def sample_intent_def sample_assessment_def BPS_MAX_def)
  from assessed_split_conserves [OF p this] obtain t where t: "aggregate ?ds = Inr t" by auto
  note sums = aggregate_sums [OF t]
  have r: "required_split_spenders (from_split sample_split) (ti_chain sample_intent) = Some [(''v'', 100)]"
    "sp_state sample_split = sample_snapshot" "aa_amount (sp_expected_net_output sample_split) = 60"
    by (simp_all add: required_split_spenders_def sample_split_def sample_branch_def from_split_def from_route_def
        expected_spender_ref_def sample_intent_def sample_snapshot_def checked_add_def)
  have net: "nd_net_input t = \<lparr>aa_asset = sample_in, aa_amount = 100\<rparr>" "aa_amount (nd_net_output t) = 60"
    using sums by (auto simp: mergeable_def delta_ok_def sample_net_delta_def word_unat_eq_iff intro!: asset_amount.equality)
  have "check_allowance_set [(''v'', 100)] [sample_allowance] = Inr ()"
    "check_spender [sample_allowance] sample_in (''v'', 100) = Inr ()"
    by (simp_all add: check_allowance_set_def check_spender_def sample_allowance_def observed_state_def map_filter_simps)
  then have "split_pre_sign_checks sample_split_gate = Inr p"
    unfolding split_pre_sign_checks_def sample_split_gate_def by (simp add: gate_checks r t net p)
  then show ?thesis by (auto simp: revalidate_Valid_iff)
qed

theorem revalidate_split_valid_sound_witness:
  "\<exists>p. revalidate_split_pre_sign sample_split_gate = Valid p \<and> preview_sound p sample_intent \<and>
     unat (aa_amount (ep_simulated_net_input p)) = 100"
proof -
  obtain p where p: "revalidate_split_pre_sign sample_split_gate = Valid p" using sample_split_gate_valid by blast
  have "assessed_rate (vp_intent sample_split_gate) (vp_basis_assessment sample_split_gate) \<le> BPS_MAX"
    "vp_now_ms sample_split_gate < 2 ^ 63"
    by (simp_all add: sample_split_gate_def assessed_rate_def sample_intent_def sample_assessment_def BPS_MAX_def)
  from revalidate_split_valid_sound [OF p this] p show ?thesis
    by (auto simp: sample_split_gate_def from_split_def sample_split_def sample_branch_def)
qed


end
