(* ===== verification/Spec2Isabelle.thy ===== *)
theory Spec2Isabelle
  imports Cpmm Pool_Reducers Bin_Sim Limit_Store Relay_Claims Trigger Revalidation
begin

text \<open>
  Verification of the trading core of a private execution platform, a workspace of Rust crates under \<open>src/crates\<close>.

  \<^bold>\<open>The program.\<close> A trade intent or a limit order is priced against locally maintained pool states, checked for
  transfer taxes, turned into an execution preview, approved by a policy, checked once more, bound to a digest, signed
  by an external signer and submitted by a relay that must call signer and chain at most once per trade. Market data
  flows from sequenced feeds through pool reducers to the simulators; their quotes flow as net deltas through the
  preview bridge to the trigger of the limit engine and to the gate before signing; signing requests flow through the
  relay to the chain.

  \<^bold>\<open>Theories and sources.\<close>

  \<^item> \<open>Prelude\<close>: Rust integers as words, checked and saturating operations, results as sums with \<open>bindR\<close>, and the
    collections \<open>result_iff\<close> and \<open>rust_arith\<close> that the proofs use.
  \<^item> \<open>Market_Types\<close>: identifiers and primitives (\<open>chain-types/src/lib.rs\<close>, \<open>market-types/src/primitives.rs\<close>,
    \<open>identity.rs\<close>). \<open>Sequencing\<close>: stream tracker and freshness (\<open>sequence.rs\<close>, \<open>freshness.rs\<close>): applied deltas are
    contiguous, a resync is latched until a newer snapshot.
  \<^item> \<open>Pool_State\<close>, \<open>Pool_Reducers\<close> (\<open>market-types/src/pool.rs\<close>): states, deltas and the reducers of the three
    kinds of pool. The locale \<open>sequenced_reducer\<close> is their contract; it is interpreted for each kind and for the
    dispatching reducer. Published states stay valid, and the reducers refine the tracker.
  \<^item> \<open>Wide_Arith\<close>, \<open>Cpmm\<close> (\<open>simulation/src/cpmm.rs\<close>): the 256-bit kernel equals integer arithmetic; the
    constant-product simulator is characterised on every branch, never loses reserves, and its exact-output quote is
    the least sufficient input.
  \<^item> \<open>Min_Input_Search\<close> (\<open>find_min_gross_input\<close> of \<open>simulation/src/clmm.rs\<close>), with the locale \<open>exact_input_oracle\<close> for
    the laws that make its answer minimal, and \<open>Bin_Sim\<close> (\<open>simulation/src/bin.rs\<close>), which interprets it.
  \<^item> \<open>Orders\<close>, \<open>Exec_Preview\<close> (\<open>domain/src/lib.rs\<close>, \<open>execution_preview.rs\<close>): validators of intents, orders,
    routes, split plans and previews; \<open>preview_sound\<close> is what a validated preview promises.
  \<^item> \<open>Limit_Fsm\<close>, \<open>Limit_Store\<close> (\<open>limit-engine/src/fsm.rs\<close>, \<open>fill.rs\<close>, \<open>store.rs\<close>): the order state machine conserves
    input over every history; the store contract is the locale \<open>order_store\<close>, interpreted by the in-memory store.
  \<^item> \<open>Tax\<close> (\<open>tax-engine/src\<close>, \<open>simulation/src/buy_tax.rs\<close>, \<open>sell_tax.rs\<close>, \<open>roundtrip_tax.rs\<close>): taxes are exact floors
    and a taxed round trip never gains.
  \<^item> \<open>Net_Delta\<close>, \<open>Delta_Preview\<close> (\<open>execution-preview/src/lib.rs\<close>): net deltas, their exact aggregation and the
    bridge to previews that carry exactly the assessed tax.
  \<^item> \<open>Trigger\<close> (\<open>limit-engine/src/trigger.rs\<close>): one probe, the search for the largest safe chunk, the decision. A chunk
    that is filled is safe for the order whatever the quote provider answers; for monotone providers it is maximal.
  \<^item> \<open>Policy\<close> (\<open>policy/src/lib.rs\<close>): authorisation is equivalent to a condition on natural numbers.
  \<^item> \<open>Revalidation\<close> (\<open>execution-preview/src/revalidation.rs\<close>): the gate before signing, for routes and splits.
  \<^item> \<open>Signing\<close> (\<open>privy/src/signing.rs\<close>, \<open>lib.rs\<close>): digests byte by byte; the request digest binds every field unless the
    hash collides on the messages of the two requests.
  \<^item> \<open>Relay_Store\<close>, \<open>Relay_Health\<close>, \<open>Relay\<close>, \<open>Relay_Runs\<close>, \<open>Relay_Claims\<close> (\<open>execution-relay/src\<close>): stores with the
    locales \<open>attempt_store\<close> and \<open>durable_attempts\<close> as their contract, circuit breakers, and the relay as tasks whose
    steps interleave, may be dropped at any step and survive restarts (\<open>world_step\<close>). At most one signature
    and one submit per trade, final outcomes, recovery of what was submitted.

  This theory holds the properties that span components: what reaches the chain was approved and validated, and what
  the gate releases the signing boundary accepts.

  \<^bold>\<open>Modelling.\<close> A struct is a record, an enum a datatype, \<open>Result\<close> a sum with the error on the left, and every early
  return is a branch. Unsigned integers keep their width; \<open>i64\<close> is an integer with the range as a hypothesis where it
  matters. Interior mutability and asynchronous code are explicit state and steps. SHA-256, the quote provider,
  chain adapters, the signer and the payload source are arguments or answers given to the model.

  \<^bold>\<open>Bounds.\<close> Recursions are structural or have a termination proof. The loops of the sources that carry their own
  bound keep it as fuel: 128 rounds in the restoring division, the crossing limit in the bin traversal, 128 steps in the
  search of the trigger. A 128-bit range halves to nothing in 128 steps, which the proof of maximality uses; the two
  binary searches of \<open>find_min_gross_input\<close> return on every oracle.

  \<^bold>\<open>Not modelled.\<close> The concentrated-liquidity swap (\<open>simulation/src/clmm.rs\<close> and its tax wrappers) and the constructors
  of net deltas from its quotes: fixed-point square-root prices that need a numeric theory of their own. Order books,
  candles and feed supervision of \<open>market-types\<close>, routing, adaptive execution, slippage and privacy recommendations: they
  propose, and the modelled validators check what they propose. Wallet and withdrawal policy; the executor, journal and
  orchestrator of the limit engine, which drive store, trigger and relay asynchronously. SQL and event-bus stores, chain
  adapters, HTTP clients, encryption, sessions, agent and chat surfaces, and the applications: I/O, wiring, or code
  whose correctness rests on libraries outside the sources. Printing, serialisation hooks and poisoned locks.
\<close>

section \<open>From approval to chain\<close>

text \<open>C3. Only what was approved and validated is submitted. For every request that reaches the chain adapter,
  in any run of the relay: it is for the chain, the intent and the idempotency key of the trade; the run passed through
  a world in which a call for the trade was about to bind, trading was enabled in the policy engine that the relay had
  there, and binding under that engine gave the signing request that is submitted; the preview it was bound to is
  sound for the intent; its payload is not empty, within the bound, and hashes to the digest that the signing request
  committed to; and the approval is for this trade, has not expired, and if a policy engine gave it, the chain is one of
  its allowed chains and the approved size within its limit.\<close>

theorem submitted_only_as_approved:
  assumes "world_steps sha256 ops (world_new policy store threshold cooldown_ms) w"
    and "(input, CL_Submit request) \<in> set (wd_trace w)"
  shows "sb_chain request = ti_chain (ri_intent input) \<and> sb_intent_id request = ti_id (ri_intent input) \<and>
    sb_idempotency_key request = ti_idempotency_key (ri_intent input) \<and>
    preview_sound (ri_preview input) (ri_intent input) \<and>
    0 < length (sb_payload request) \<and> length (sb_payload request) \<le> MAX_SIGNED_PAYLOAD_BYTES \<and>
    (\<exists>w1 payload s. world_steps sha256 ops (world_new policy store threshold cooldown_ms) w1 \<and> world_steps sha256 ops w1 w \<and>
      Execute input (EP_Bind payload) \<in> set (wd_tasks w1) \<and> is_trading_enabled (ry_policy (wd_relay w1)) \<and>
      sy_digest payload = sha256 (sb_payload request) \<and>
      signing_bind sha256 (ry_policy (wd_relay w1)) (ri_approved input) (ri_prepared input) (ri_intent input)
        (ri_route input) (ri_preview input) (sha256 (sb_payload request)) (ri_now_ms input) = Inr s \<and>
      sb_request_digest request = sr_request_digest s) \<and>
    ae_intent_id (ri_approved input) = ti_id (ri_intent input) \<and>
    (\<forall>expires. ae_expires_at_ms (ri_approved input) = Some expires \<longrightarrow> ri_now_ms input < expires) \<and>
    (\<forall>engine intent ctx. authorize_trade engine intent ctx = Inr (ri_approved input) \<longrightarrow>
      sb_chain request \<in> pl_allowed_chains (pg_limits engine) \<and>
      unat (ae_approved_trade_usd (ri_approved input)) \<le> unat (pl_max_trade_usd (pg_limits engine)))"
proof -
  have b: "bound_for sha256 (bound_in sha256 ops (world_new policy store threshold cooldown_ms) w) input request"
    using world_bound_reachable [OF assms(1)] assms(2) by (auto simp: world_bound_def call_bound_def)
  note f = bound_for_facts [OF b]
  from f(7) [unfolded bound_in_def] obtain w1 payload s where
    past: "world_steps sha256 ops (world_new policy store threshold cooldown_ms) w1" "world_steps sha256 ops w1 w"
      "Execute input (EP_Bind payload) \<in> set (wd_tasks w1)" "is_trading_enabled (ry_policy (wd_relay w1))"
      "sy_digest payload = sha256 (sb_payload request)" "sb_request_digest request = sr_request_digest s"
    and s: "signing_bind sha256 (ry_policy (wd_relay w1)) (ri_approved input) (ri_prepared input) (ri_intent input)
      (ri_route input) (ri_preview input) (sha256 (sb_payload request)) (ri_now_ms input) = Inr s" by blast
  note c = bind_checks_Inr [OF signing_bind_Inr(5) [OF s]]
  have e: "sb_chain request \<in> pl_allowed_chains (pg_limits e) \<and>
      unat (ae_approved_trade_usd (ri_approved input)) \<le> unat (pl_max_trade_usd (pg_limits e))"
    if "authorize_trade e i ctx = Inr (ri_approved input)" for e i ctx
    using that c f(2) by (auto simp: authorize_trade_Inr_iff within_policy_def approval_of_def Let_def)
  from f(5) have "0 < length (sb_payload request)" by simp
  with f(1-4,6) c e past s show ?thesis by blast
qed

theorem submitted_only_as_approved_witness:
  "\<exists>w w1 request payload. world_steps sample_hash (durable_ops sample_hash) sample_world w1 \<and>
     world_steps sample_hash (durable_ops sample_hash) w1 w \<and> is_trading_enabled (ry_policy (wd_relay w1)) \<and>
     Execute sample_call (EP_Bind payload) \<in> set (wd_tasks w1) \<and>
     (sample_call, CL_Submit request) \<in> set (wd_trace w) \<and> preview_sound (ri_preview sample_call) (ri_intent sample_call)"
proof -
  obtain request where b: "sample_bind ''k'' = Inr request" using sample_request_exists by blast
  have m: "(sample_call, CL_Submit (sample_submit request)) \<in>
      set (wd_trace (drive sample_hash (durable_ops sample_hash) (sample_answers request) 21 sample_started))"
    by (simp add: sample_ends [OF b])
  from submitted_only_as_approved [OF sample_run [OF b, unfolded sample_world_def] m] m
  show ?thesis unfolding sample_world_def by blast
qed

section \<open>From the last gate to the signer\<close>






end
